(* ===== verification/Prelude.thy ===== *)
theory Prelude
  imports Main "HOL-Library.Word" "HOL-Library.Multiset"
begin

text \<open>
  Shared vocabulary of the development: the error values that cross component boundaries,
  the three ways a Go call can end (a value, a run-time panic, no return), the machine
  integers, the ASCII case conversions of package \<^verbatim>\<open>strings\<close>, and the generic lemmas on
  lists and permutations that several components use.

  Go strings are byte sequences; they are modelled as \<open>string\<close>, where a \<open>char\<close> is one byte.
\<close>

section \<open>Automation collections\<close>

named_theorems go_outcome \<open>equations of the outcome combinators\<close>
named_theorems iter_facts \<open>facts about iteration orders of Go maps\<close>

section \<open>Machine integers\<close>

type_synonym int64 = "64 word"

lemma sint_bounds64: "- (2 ^ 63) \<le> sint (v :: int64)" "sint (v :: int64) < 2 ^ 63"
  using sint_ge [of v] sint_lt [of v] by simp_all

lemma sint_of_int64: "- (2 ^ 63) \<le> x \<Longrightarrow> x < 2 ^ 63 \<Longrightarrow> sint (word_of_int x :: int64) = x"
  by (simp add: int_word_sint)

lemma sint_add64:
  fixes a b :: int64
  assumes "- (2 ^ 63) \<le> sint a + sint b" "sint a + sint b < 2 ^ 63"
  shows "sint (a + b) = sint a + sint b"
proof -
  have "a + b = word_of_int (sint a + sint b)" by simp
  then show ?thesis using assms sint_of_int64 by metis
qed

lemma word_of_int_sint64: "word_of_int (sint (v :: int64)) = v"
  by simp

lemma sint_one64 [simp]: "sint (1 :: int64) = 1"
  by simp

lemma sint_inc64: "sint (v :: int64) < 2 ^ 63 - 1 \<Longrightarrow> sint (v + 1) = sint v + 1"
  using sint_add64 [of v 1] sint_bounds64 [of v] by simp

lemma sint_eq_iff64: "sint (a :: int64) = sint b \<longleftrightarrow> a = b"
  by (metis word_of_int_sint64)

section \<open>Errors as values\<close>

text \<open>
  The sentinel errors the packages export, the errors they build with \<^verbatim>\<open>errors.New\<close>
  (\<open>ErrMsg\<close>), \<^verbatim>\<open>fmt.Errorf\<close> with a wrapped cause (\<open>ErrWrap\<close>) and \<^verbatim>\<open>errors.Join\<close>
  (\<open>ErrJoin\<close>), the number errors of package \<^verbatim>\<open>strconv\<close>, the decoding errors of package
  \<^verbatim>\<open>encoding/json\<close>, and any error that comes from outside the repository (\<open>ErrExternal\<close>).
\<close>

datatype gerr =
    ChainstreamAlreadyStarted
  | BlockprocAlreadyStarted
  | ErrNetworkNotRegistered
  | ErrNoCheckpointFound
  | ErrStillInProgress
  | ErrAlreadyFinished
  | ErrWalletAlreadyRegistered
  | ErrWalletNotFound
  | ErrValidationFailed
  | ErrProviderReturnedError
  | ErrNumSyntax
  | ErrNumRange
  | ErrJsonType
  | ErrJsonEOF
  | ErrRedisNil
  | ErrNoRows
  | ErrUniqueViolation
  | ErrExternal string
  | ErrMsg string
  | ErrWrap string gerr
  | ErrJoin "gerr list"

text \<open>\<^verbatim>\<open>errors.Is\<close>: the target is the error itself or is found along its wrapped causes.\<close>

fun errors_is :: "gerr \<Rightarrow> gerr \<Rightarrow> bool" where
  "errors_is (ErrWrap m e) t = (ErrWrap m e = t \<or> errors_is e t)"
| "errors_is (ErrJoin es) t = (ErrJoin es = t \<or> list_ex (\<lambda>e. errors_is e t) es)"
| "errors_is e t = (e = t)"

lemma errors_is_refl [simp]: "errors_is e e"
  by (cases e) auto

text \<open>\<^verbatim>\<open>errors.Join\<close> drops nil errors and returns nil when nothing is left.\<close>

definition errors_join :: "gerr option list \<Rightarrow> gerr option" where
  "errors_join es =
     (let real = List.map_filter id es in if real = [] then None else Some (ErrJoin real))"

lemma errors_join_None_iff: "errors_join es = None \<longleftrightarrow> list_all (\<lambda>e. e = None) es"
  by (induction es) (auto simp: errors_join_def Let_def map_filter_simps split: option.splits if_splits)

section \<open>Outcomes of a call\<close>

text \<open>
  A Go function that can panic yields a value of \<open>'a outcome\<close>. A function that may loop
  forever yields an \<open>'a outcome option\<close>, with \<open>None\<close> for the run that does not return.
\<close>

datatype 'a outcome = Val 'a | Panic

fun bind_outcome :: "'a outcome \<Rightarrow> ('a \<Rightarrow> 'b outcome) \<Rightarrow> 'b outcome" where
  "bind_outcome (Val x) f = f x"
| "bind_outcome Panic f = Panic"

lemma bind_outcome_Val_iff [go_outcome]:
  "bind_outcome m f = Val y \<longleftrightarrow> (\<exists>x. m = Val x \<and> f x = Val y)"
  by (cases m) auto

lemma bind_outcome_Panic_iff [go_outcome]:
  "bind_outcome m f = Panic \<longleftrightarrow> m = Panic \<or> (\<exists>x. m = Val x \<and> f x = Panic)"
  by (cases m) auto

section \<open>Operations on a part of the state\<close>

text \<open>
  What is outside the program has parts (a database, a broker); an operation of one part acts on the
  whole through a projection and an update.
\<close>

definition on_part :: "('w \<Rightarrow> 'd) \<Rightarrow> ('d \<Rightarrow> 'w \<Rightarrow> 'w) \<Rightarrow> ('d \<Rightarrow> 'r \<times> 'd) \<Rightarrow> 'w \<Rightarrow> 'r \<times> 'w" where
  "on_part get put f w = (case f (get w) of (r, d) \<Rightarrow> (r, put d w))"

lemma on_part_iff: "on_part get put f w = (r, w') \<longleftrightarrow> (\<exists>d. f (get w) = (r, d) \<and> w' = put d w)"
  by (auto simp: on_part_def split: prod.splits)

definition part :: "('w \<Rightarrow> 'd) \<Rightarrow> ('d \<Rightarrow> 'w \<Rightarrow> 'w) \<Rightarrow> bool" where
  "part get put \<longleftrightarrow>
     (\<forall>d w. get (put d w) = d) \<and> (\<forall>d d' w. put d' (put d w) = put d' w) \<and> (\<forall>w. put (get w) w = w)"

section \<open>Strings\<close>

definition has_prefix :: "string \<Rightarrow> string \<Rightarrow> bool" where
  "has_prefix s p \<longleftrightarrow> take (length p) s = p"

definition ascii_upper :: "char \<Rightarrow> char" where
  "ascii_upper c =
     (let n = of_char c :: nat in if 97 \<le> n \<and> n \<le> 122 then char_of (n - 32) else c)"

definition ascii_lower :: "char \<Rightarrow> char" where
  "ascii_lower c =
     (let n = of_char c :: nat in if 65 \<le> n \<and> n \<le> 90 then char_of (n + 32) else c)"

text \<open>\<^verbatim>\<open>strings.ToUpper\<close> and \<^verbatim>\<open>strings.EqualFold\<close> on ASCII text.\<close>

definition to_upper :: "string \<Rightarrow> string" where
  "to_upper s = map ascii_upper s"

definition equal_fold :: "string \<Rightarrow> string \<Rightarrow> bool" where
  "equal_fold s t \<longleftrightarrow> map ascii_lower s = map ascii_lower t"

lemma of_char_less_256 [simp]: "(of_char c :: nat) < 256"
  by (rule nat_of_char_less_256)

lemma ascii_upper_idem [simp]: "ascii_upper (ascii_upper c) = ascii_upper c"
proof (cases "97 \<le> (of_char c :: nat) \<and> (of_char c :: nat) \<le> 122")
  case True
  then have "(of_char (char_of ((of_char c :: nat) - 32) :: char) :: nat) = of_char c - 32"
    by (simp add: of_char_of) (metis less_imp_diff_less mod_less of_char_less_256)
  with True show ?thesis by (auto simp: ascii_upper_def Let_def)
next
  case False
  then have "ascii_upper c = c" by (auto simp: ascii_upper_def Let_def)
  then show ?thesis by simp
qed

lemma to_upper_idem [simp]: "to_upper (to_upper s) = to_upper s"
  by (simp add: to_upper_def o_def)

section \<open>Iteration orders\<close>

text \<open>
  A Go \<^verbatim>\<open>range\<close> over a map visits every key once, in an order the language leaves open.
  A model that ranges over a map takes the order as an argument: a function from the keys in
  their stored order to the keys in the order visited, of which the theorems assume only that
  it permutes them.
\<close>

definition permuting :: "('a list \<Rightarrow> 'a list) \<Rightarrow> bool" where
  "permuting f \<longleftrightarrow> (\<forall>xs. mset (f xs) = mset xs)"

lemma permuting_set [iter_facts]: "permuting f \<Longrightarrow> set (f xs) = set xs"
  unfolding permuting_def by (metis set_mset_mset)

lemma permuting_distinct [iter_facts]: "permuting f \<Longrightarrow> distinct (f xs) = distinct xs"
  unfolding permuting_def by (metis mset_eq_imp_distinct_iff)

lemma permuting_length [iter_facts]: "permuting f \<Longrightarrow> length (f xs) = length xs"
  unfolding permuting_def by (metis size_mset)

lemma permuting_Nil [iter_facts]: "permuting f \<Longrightarrow> f [] = []"
  by (metis permuting_length length_0_conv)

lemma permuting_mset [iter_facts]: "permuting f \<Longrightarrow> mset (f xs) = mset xs"
  by (simp add: permuting_def)

lemma permuting_id [simp, intro]: "permuting (\<lambda>xs. xs)"
  by (simp add: permuting_def)

lemma permuting_rev [simp, intro]: "permuting rev"
  by (simp add: permuting_def)

lemma sorted_le_last: "sorted xs \<Longrightarrow> x \<in> set xs \<Longrightarrow> x \<le> last xs"
  by (induction xs) auto

end
