(* ===== verification/Collections.thy ===== *)
theory Collections
  imports Prelude "HOL-Library.AList"
begin

text \<open>
  \<^verbatim>\<open>internal/pkg/x/types/set.go\<close> and \<^verbatim>\<open>default_map.go\<close>. A Go map is an association list with
  distinct keys, a \<^verbatim>\<open>Set[T]\<close> (a \<^verbatim>\<open>map[T]struct{}\<close>) the list of its keys. Both types are mutated
  in place by the code; the operations here return the updated value.
\<close>

section \<open>Set\<close>

type_synonym 'a goset = "'a list"

definition set_insert1 :: "'a \<Rightarrow> 'a goset \<Rightarrow> 'a goset" where
  "set_insert1 v s = (if v \<in> set s then s else s @ [v])"

definition new_set :: "'a list \<Rightarrow> 'a goset" where
  "new_set data = fold set_insert1 data []"

definition set_add :: "'a goset \<Rightarrow> 'a list \<Rightarrow> 'a goset" where
  "set_add s values = fold set_insert1 values s"

definition set_delete :: "'a goset \<Rightarrow> 'a list \<Rightarrow> 'a goset" where
  "set_delete s values = fold (\<lambda>v s. removeAll v s) values s"

definition set_to_iter :: "('a list \<Rightarrow> 'a list) \<Rightarrow> 'a goset \<Rightarrow> 'a list" where
  "set_to_iter ord s = ord s"

definition set_to_slice :: "('a list \<Rightarrow> 'a list) \<Rightarrow> 'a goset \<Rightarrow> 'a list" where
  "set_to_slice ord s = set_to_iter ord s"

lemma set_insert1_set [simp]: "set (set_insert1 v s) = insert v (set s)"
  by (auto simp: set_insert1_def)

lemma set_insert1_distinct [simp]: "distinct (set_insert1 v s) = distinct s"
  by (simp add: set_insert1_def)

lemma set_add_set [simp]: "set (set_add s vs) = set s \<union> set vs"
  unfolding set_add_def by (induction vs arbitrary: s) auto

lemma set_add_distinct [simp]: "distinct (set_add s vs) = distinct s"
  unfolding set_add_def by (induction vs arbitrary: s) auto

lemma new_set_set [simp]: "set (new_set vs) = set vs"
  using set_add_set [of "[]" vs] by (simp add: set_add_def new_set_def)

lemma new_set_distinct [simp]: "distinct (new_set vs)"
  using set_add_distinct [of "[]" vs] by (simp add: set_add_def new_set_def)

lemma set_delete_set [simp]: "set (set_delete s vs) = set s - set vs"
  unfolding set_delete_def by (induction vs arbitrary: s) auto

lemma set_delete_distinct [simp]: "distinct s \<Longrightarrow> distinct (set_delete s vs)"
  unfolding set_delete_def by (induction vs arbitrary: s) (auto simp: distinct_removeAll)

section \<open>DefaultMap\<close>

record ('k, 'v) default_map =
  dm_data :: "('k \<times> 'v) list"
  dm_default :: "unit \<Rightarrow> 'v"

definition new_default_map :: "(unit \<Rightarrow> 'v) \<Rightarrow> ('k, 'v) default_map" where
  "new_default_map f = \<lparr>dm_data = [], dm_default = f\<rparr>"

definition dm_get :: "('k, 'v) default_map \<Rightarrow> 'k \<Rightarrow> 'v \<times> ('k, 'v) default_map" where
  "dm_get d key =
     (case map_of (dm_data d) key of
        Some val \<Rightarrow> (val, d)
      | None \<Rightarrow> let val = dm_default d () in (val, d\<lparr>dm_data := AList.update key val (dm_data d)\<rparr>))"

definition dm_set :: "('k, 'v) default_map \<Rightarrow> 'k \<Rightarrow> 'v \<Rightarrow> ('k, 'v) default_map" where
  "dm_set d key val = d\<lparr>dm_data := AList.update key val (dm_data d)\<rparr>"

definition dm_to_map :: "('k, 'v) default_map \<Rightarrow> ('k \<times> 'v) list" where
  "dm_to_map d = dm_data d"

text \<open>What the map holds, and what a reader sees of it: a missing key reads as the default.\<close>

abbreviation dm_lookup :: "('k, 'v) default_map \<Rightarrow> 'k \<rightharpoonup> 'v" where
  "dm_lookup d \<equiv> map_of (dm_data d)"

definition dm_view :: "('k, 'v) default_map \<Rightarrow> 'k \<Rightarrow> 'v" where
  "dm_view d k = (case dm_lookup d k of Some v \<Rightarrow> v | None \<Rightarrow> dm_default d ())"

definition dm_wf :: "('k, 'v) default_map \<Rightarrow> bool" where
  "dm_wf d \<longleftrightarrow> distinct (map fst (dm_data d))"

lemma dm_wf_new [simp]: "dm_wf (new_default_map f)"
  by (simp add: dm_wf_def new_default_map_def)

lemma dm_view_new [simp]: "dm_view (new_default_map f) k = f ()"
  by (simp add: dm_view_def new_default_map_def)

lemma dm_lookup_new [simp]: "dm_lookup (new_default_map f) = Map.empty"
  by (simp add: new_default_map_def)

lemma dm_get_value [simp]: "fst (dm_get d k) = dm_view d k"
  by (simp add: dm_get_def dm_view_def Let_def split: option.splits)

lemma dm_get_wf [simp]: "dm_wf d \<Longrightarrow> dm_wf (snd (dm_get d k))"
  by (simp add: dm_get_def dm_wf_def Let_def distinct_update split: option.splits)

lemma dm_get_lookup:
  "dm_lookup (snd (dm_get d k)) = (dm_lookup d)(k \<mapsto> dm_view d k)"
  by (auto simp: dm_get_def dm_view_def Let_def update_conv fun_eq_iff split: option.splits)

lemma dm_get_view [simp]: "dm_view (snd (dm_get d k)) = dm_view d"
  by (auto simp: dm_view_def dm_get_def Let_def update_conv fun_eq_iff split: option.splits)

lemma dm_set_wf [simp]: "dm_wf d \<Longrightarrow> dm_wf (dm_set d k v)"
  by (simp add: dm_set_def dm_wf_def distinct_update)

lemma dm_set_lookup [simp]: "dm_lookup (dm_set d k v) = (dm_lookup d)(k \<mapsto> v)"
  by (simp add: dm_set_def update_conv')

lemma dm_set_view [simp]: "dm_view (dm_set d k v) = (dm_view d)(k := v)"
  by (auto simp: dm_view_def dm_set_def update_conv fun_eq_iff split: option.splits)

lemma dm_default_simps [simp]:
  "dm_default (snd (dm_get d k)) = dm_default d" "dm_default (dm_set d k v) = dm_default d"
  "dm_default (new_default_map f) = f"
  by (simp_all add: dm_get_def dm_set_def new_default_map_def Let_def split: option.splits)

end
