(* ===== verification/Hex.thy ===== *)
theory Hex
  imports Prelude "HOL-Library.List_Lexorder" "HOL-Library.Char_ord"
begin

text \<open>
  \<^verbatim>\<open>internal/pkg/x/types/hex.go\<close>: block heights as hexadecimal strings. The parsers of
  package \<^verbatim>\<open>strconv\<close> are written out for base 16 and 64 bits, with the value they return next
  to a range error, because \<^verbatim>\<open>Hex.Int\<close> uses that value.
\<close>

section \<open>Digits\<close>

definition hexval :: "char \<Rightarrow> nat option" where
  "hexval c =
     (let n = of_char c :: nat in
      if 48 \<le> n \<and> n \<le> 57 then Some (n - 48)
      else if 97 \<le> n \<and> n \<le> 102 then Some (n - 87)
      else if 65 \<le> n \<and> n \<le> 70 then Some (n - 55)
      else None)"

definition digit_char :: "nat \<Rightarrow> char" where
  "digit_char d = (if d < 10 then char_of (48 + d) else char_of (87 + d))"

text \<open>The \<^verbatim>\<open>%x\<close> verb on a non-negative integer.\<close>

fun fmt_hex :: "nat \<Rightarrow> string" where
  "fmt_hex n = (if n < 16 then [digit_char n] else fmt_hex (n div 16) @ [digit_char (n mod 16)])"

declare fmt_hex.simps [simp del]

section \<open>strconv.ParseUint and strconv.ParseInt, base 16, 64 bits\<close>

datatype num_result = NumOk nat | NumSyntax | NumRange

fun parse_digits :: "nat \<Rightarrow> string \<Rightarrow> num_result" where
  "parse_digits acc [] = NumOk acc"
| "parse_digits acc (c # cs) =
     (case hexval c of
        None \<Rightarrow> NumSyntax
      | Some d \<Rightarrow> if 2 ^ 64 \<le> 16 * acc + d then NumRange else parse_digits (16 * acc + d) cs)"

definition parse_uint :: "string \<Rightarrow> num_result" where
  "parse_uint s = (if s = [] then NumSyntax else parse_digits 0 s)"

definition parse_magnitude :: "bool \<Rightarrow> string \<Rightarrow> int64 \<times> gerr option" where
  "parse_magnitude neg s =
     (case parse_uint s of
        NumSyntax \<Rightarrow> (0, Some ErrNumSyntax)
      | NumRange \<Rightarrow> (if neg then - (2 ^ 63) else 2 ^ 63 - 1, Some ErrNumRange)
      | NumOk un \<Rightarrow>
          if \<not> neg \<and> 2 ^ 63 \<le> un then (2 ^ 63 - 1, Some ErrNumRange)
          else if neg \<and> 2 ^ 63 < un then (- (2 ^ 63), Some ErrNumRange)
          else (if neg then - of_nat un else of_nat un, None))"

fun parse_int :: "string \<Rightarrow> int64 \<times> gerr option" where
  "parse_int [] = (0, Some ErrNumSyntax)"
| "parse_int (c # cs) =
     (if c = CHR ''+'' then parse_magnitude False cs
      else if c = CHR ''-'' then parse_magnitude True cs
      else parse_magnitude False (c # cs))"

section \<open>The Hex type\<close>

type_synonym hex = string

definition validate_hex :: "string \<Rightarrow> gerr option" where
  "validate_hex s =
     (if \<not> has_prefix s ''0x'' \<and> \<not> has_prefix s ''0X''
      then Some (ErrMsg ''hex string must start with 0x'')
      else case parse_uint (drop 2 s) of
             NumOk _ \<Rightarrow> None
           | NumSyntax \<Rightarrow> Some (ErrWrap ''invalid hexadecimal value'' ErrNumSyntax)
           | NumRange \<Rightarrow> Some (ErrWrap ''invalid hexadecimal value'' ErrNumRange))"

definition hex_from_string :: "string \<Rightarrow> gerr + hex" where
  "hex_from_string s = (case validate_hex s of Some e \<Rightarrow> Inl e | None \<Rightarrow> Inr s)"

definition hex_from_int :: "int64 \<Rightarrow> hex" where
  "hex_from_int i =
     ''0x'' @ (if sint i < 0 then CHR ''-'' # fmt_hex (nat (- sint i)) else fmt_hex (nat (sint i)))"

text \<open>\<^verbatim>\<open>string(h)[2:]\<close> panics on a string of fewer than two bytes.\<close>

definition hex_int :: "hex \<Rightarrow> int64 outcome" where
  "hex_int h = (if length h < 2 then Panic else Val (fst (parse_int (drop 2 h))))"

definition hex_add :: "hex \<Rightarrow> int64 \<Rightarrow> hex outcome" where
  "hex_add h n = bind_outcome (hex_int h) (\<lambda>current. Val (hex_from_int (current + n)))"

definition hex_string :: "hex \<Rightarrow> string" where
  "hex_string h = h"

text \<open>
  \<^verbatim>\<open>strings.TrimSpace\<close> removes Unicode white space from both ends, so its result is empty
  exactly if the whole string is white space: the ASCII spaces, and the UTF-8 encodings of
  U+0085, U+00A0, U+1680, U+2000 to U+200A, U+2028, U+2029, U+202F, U+205F and U+3000.
\<close>

definition ascii_space :: "nat \<Rightarrow> bool" where
  "ascii_space n \<longleftrightarrow> (9 \<le> n \<and> n \<le> 13) \<or> n = 32"

definition utf8_space2 :: "nat \<Rightarrow> nat \<Rightarrow> bool" where
  "utf8_space2 a b \<longleftrightarrow> a = 194 \<and> (b = 133 \<or> b = 160)"

definition utf8_space3 :: "nat \<Rightarrow> nat \<Rightarrow> nat \<Rightarrow> bool" where
  "utf8_space3 a b c \<longleftrightarrow>
     (a = 225 \<and> b = 154 \<and> c = 128) \<or>
     (a = 226 \<and> b = 128 \<and> ((128 \<le> c \<and> c \<le> 138) \<or> c = 168 \<or> c = 169 \<or> c = 175)) \<or>
     (a = 226 \<and> b = 129 \<and> c = 159) \<or>
     (a = 227 \<and> b = 128 \<and> c = 128)"

fun all_space :: "nat list \<Rightarrow> bool" where
  "all_space [] = True"
| "all_space [a] = ascii_space a"
| "all_space [a, b] =
     ((ascii_space a \<and> all_space [b]) \<or> utf8_space2 a b)"
| "all_space (a # b # c # xs) =
     ((ascii_space a \<and> all_space (b # c # xs)) \<or>
      (utf8_space2 a b \<and> all_space (c # xs)) \<or>
      (utf8_space3 a b c \<and> all_space xs))"

definition hex_is_empty :: "hex \<Rightarrow> bool" where
  "hex_is_empty h = all_space (map of_char h)"

section \<open>Lemmas\<close>

lemma digit_char_simps [simp]:
  "digit_char 0 = CHR ''0''"
  "digit_char (Suc 0) = CHR ''1''"
  "digit_char 1 = CHR ''1''"
  "digit_char 2 = CHR ''2''"
  "digit_char 3 = CHR ''3''"
  "digit_char 4 = CHR ''4''"
  "digit_char 5 = CHR ''5''"
  "digit_char 6 = CHR ''6''"
  "digit_char 7 = CHR ''7''"
  "digit_char 8 = CHR ''8''"
  "digit_char 9 = CHR ''9''"
  "digit_char 10 = CHR ''a''"
  "digit_char 11 = CHR ''b''"
  "digit_char 12 = CHR ''c''"
  "digit_char 13 = CHR ''d''"
  "digit_char 14 = CHR ''e''"
  "digit_char 15 = CHR ''f''"
  by code_simp+

lemma hexval_digit_char [simp]: "d < 16 \<Longrightarrow> hexval (digit_char d) = Some d"
  by (auto simp: hexval_def digit_char_def Let_def of_char_of take_bit_nat_eq_self)

lemma hexval_less: "hexval c = Some d \<Longrightarrow> d < 16"
  by (auto simp: hexval_def Let_def split: if_splits)

lemma fmt_hex_nonempty [simp]: "fmt_hex n \<noteq> []"
  by (subst fmt_hex.simps) simp

lemma parse_digits_fmt_hex:
  "16 ^ length (fmt_hex n) * acc + n < 2 ^ 64 \<Longrightarrow>
   parse_digits acc (fmt_hex n @ cs) = parse_digits (16 ^ length (fmt_hex n) * acc + n) cs"
proof (induction n arbitrary: cs rule: fmt_hex.induct)
  case (1 n)
  show ?case
  proof (cases "n < 16")
    case True
    with "1.prems" show ?thesis by (simp add: fmt_hex.simps [of n])
  next
    case False
    let ?m = "n div 16"
    let ?v = "16 ^ length (fmt_hex ?m) * acc + ?m"
    have n: "16 * ?m + n mod 16 = n" by simp
    have len: "fmt_hex n = fmt_hex ?m @ [digit_char (n mod 16)]"
      using False by (simp add: fmt_hex.simps [of n])
    have sum: "16 ^ length (fmt_hex n) * acc + n = 16 * ?v + n mod 16"
      using n by (simp add: len algebra_simps)
    have bound: "?v < 2 ^ 64"
      using "1.prems" unfolding sum by simp
    show ?thesis
      using "1.IH" [OF False bound, of "digit_char (n mod 16) # cs"] "1.prems"
      unfolding len sum [unfolded len] by simp
  qed
qed

lemma parse_uint_fmt_hex: "n < 2 ^ 64 \<Longrightarrow> parse_uint (fmt_hex n) = NumOk n"
  using parse_digits_fmt_hex [of n 0 "[]"] by (simp add: parse_uint_def)

lemma parse_digits_bound: "parse_digits acc s = NumOk n \<Longrightarrow> acc < 2 ^ 64 \<Longrightarrow> n < 2 ^ 64"
  by (induction acc s rule: parse_digits.induct) (auto split: option.splits if_splits)

lemma parse_uint_bound: "parse_uint s = NumOk n \<Longrightarrow> n < 2 ^ 64"
  using parse_digits_bound [of 0 s n] by (auto simp: parse_uint_def split: if_splits)

lemma fmt_hex_hexval: "c \<in> set (fmt_hex n) \<Longrightarrow> hexval c \<noteq> None"
proof (induction n rule: fmt_hex.induct)
  case (1 n)
  then show ?case
    by (cases "n < 16") (auto simp: fmt_hex.simps [of n])
qed

lemma hexval_sign [simp]: "hexval CHR ''-'' = None" "hexval CHR ''+'' = None"
  by (simp_all add: hexval_def)

lemma parse_int_unsigned:
  assumes "s = [] \<or> hexval (hd s) \<noteq> None"
  shows "parse_int s = parse_magnitude False s"
proof (cases s)
  case Nil
  then show ?thesis by (simp add: parse_magnitude_def parse_uint_def)
next
  case (Cons c cs)
  with assms have "c \<noteq> CHR ''-''" "c \<noteq> CHR ''+''" by auto
  with Cons show ?thesis by simp
qed

lemma of_nat_sint:
  fixes v :: int64
  assumes "0 \<le> sint v"
  shows "of_nat (nat (sint v)) = v"
proof -
  have "(of_nat (nat (sint v)) :: int64) = of_int (int (nat (sint v)))"
    by (rule of_int_of_nat_eq [symmetric])
  with assms show ?thesis by simp
qed

lemma of_nat_neg_sint:
  fixes v :: int64
  assumes "sint v < 0"
  shows "- of_nat (nat (- sint v)) = v"
proof -
  have "(of_nat (nat (- sint v)) :: int64) = of_int (int (nat (- sint v)))"
    by (rule of_int_of_nat_eq [symmetric])
  with assms show ?thesis by simp
qed

lemma parse_int_fmt_pos:
  fixes v :: int64
  assumes "0 \<le> sint v"
  shows "parse_int (fmt_hex (nat (sint v))) = (v, None)"
proof -
  have "nat (sint v) < 2 ^ 63"
    using sint_bounds64 [of v] assms by (simp add: nat_less_iff)
  then have "parse_magnitude False (fmt_hex (nat (sint v))) = (v, None)"
    using assms by (simp add: parse_magnitude_def parse_uint_fmt_hex of_nat_sint)
  moreover have "hexval (hd (fmt_hex (nat (sint v)))) \<noteq> None"
    by (rule fmt_hex_hexval [OF hd_in_set]) simp
  ultimately show ?thesis by (simp add: parse_int_unsigned)
qed

lemma parse_magnitude_fmt_neg:
  fixes v :: int64
  assumes "sint v < 0"
  shows "parse_magnitude True (fmt_hex (nat (- sint v))) = (v, None)"
proof -
  have le: "nat (- sint v) \<le> 2 ^ 63"
    using sint_bounds64 [of v] by (simp add: nat_le_iff)
  then have "nat (- sint v) < 2 ^ 64" by simp
  with assms le show ?thesis
    by (simp add: parse_magnitude_def parse_uint_fmt_hex of_nat_neg_sint)
qed

lemma parse_int_of_uint:
  assumes "parse_uint s = NumOk n"
  shows "\<exists>v. fst (parse_int s) = v \<and> sint v = int (min n (2 ^ 63 - 1))"
proof -
  have "s \<noteq> []" using assms by (auto simp: parse_uint_def)
  then have "s = [] \<or> hexval (hd s) \<noteq> None"
    using assms by (cases s) (auto simp: parse_uint_def split: option.splits)
  then have eq: "parse_int s = parse_magnitude False s" by (rule parse_int_unsigned)
  show ?thesis
  proof (cases "n < 2 ^ 63")
    case True
    then have "sint (of_nat n :: int64) = int n"
      using sint_of_int64 [of "int n"] by simp
    with True eq assms show ?thesis by (simp add: parse_magnitude_def min_def)
  next
    case False
    with eq assms show ?thesis by (simp add: parse_magnitude_def min_def)
  qed
qed

subsection \<open>The string order on formatted heights\<close>

lemma digit_char_less_iff: "d < 16 \<Longrightarrow> e < 16 \<Longrightarrow> digit_char d < digit_char e \<longleftrightarrow> d < e"
  by (auto simp: digit_char_def less_char_def)

lemma digit_char_eq_iff: "d < 16 \<Longrightarrow> e < 16 \<Longrightarrow> digit_char d = digit_char e \<longleftrightarrow> d = e"
  by (metis hexval_digit_char option.inject)

lemma append_last_less_iff:
  fixes xs ys :: string
  shows "length xs = length ys \<Longrightarrow>
    xs @ [a] < ys @ [b] \<longleftrightarrow> xs < ys \<or> (xs = ys \<and> a < b)"
  by (induction xs ys rule: list_induct2) auto

lemma fmt_hex_small: "n < 16 \<Longrightarrow> fmt_hex n = [digit_char n]"
  by (subst fmt_hex.simps) simp

lemma fmt_hex_large: "16 \<le> n \<Longrightarrow> fmt_hex n = fmt_hex (n div 16) @ [digit_char (n mod 16)]"
  by (subst fmt_hex.simps) simp

lemma length_fmt_hex_1_iff: "length (fmt_hex n) = 1 \<longleftrightarrow> n < 16"
  by (cases "n < 16") (auto simp: fmt_hex_small fmt_hex_large)

lemma fmt_hex_inject: "parse_digits 0 (fmt_hex m) = NumOk m" if "m < 2 ^ 64"
  using parse_uint_fmt_hex [OF that] by (simp add: parse_uint_def)

lemma base16_less:
  "r < 16 \<Longrightarrow> s < 16 \<Longrightarrow> 16 * a + r < 16 * b + s \<longleftrightarrow> a < b \<or> (a = b \<and> r < (s::nat))"
  by arith

lemma base16_eq:
  "r < 16 \<Longrightarrow> s < 16 \<Longrightarrow> 16 * a + r = 16 * b + s \<longleftrightarrow> a = b \<and> r = (s::nat)"
  by arith

lemma fmt_hex_less_iff:
  "length (fmt_hex m) = length (fmt_hex n) \<Longrightarrow>
   (fmt_hex m < fmt_hex n \<longleftrightarrow> m < n) \<and> (fmt_hex m = fmt_hex n \<longleftrightarrow> m = n)"
proof (induction m arbitrary: n rule: fmt_hex.induct)
  case (1 m)
  show ?case
  proof (cases "m < 16")
    case True
    with "1.prems" have "n < 16" by (metis length_fmt_hex_1_iff)
    with True show ?thesis by (simp add: fmt_hex_small digit_char_less_iff digit_char_eq_iff)
  next
    case False
    with "1.prems" have n: "16 \<le> n" by (metis length_fmt_hex_1_iff not_less)
    from False have m: "16 \<le> m" by simp
    have len: "length (fmt_hex (m div 16)) = length (fmt_hex (n div 16))"
      using "1.prems" by (simp add: fmt_hex_large m n)
    have less: "m < n \<longleftrightarrow> m div 16 < n div 16 \<or> (m div 16 = n div 16 \<and> m mod 16 < n mod 16)"
      using base16_less [of "m mod 16" "n mod 16" "m div 16" "n div 16"] by simp
    have eq: "m = n \<longleftrightarrow> m div 16 = n div 16 \<and> m mod 16 = n mod 16"
      using base16_eq [of "m mod 16" "n mod 16" "m div 16" "n div 16"] by simp
    have ih: "fmt_hex (m div 16) < fmt_hex (n div 16) \<longleftrightarrow> m div 16 < n div 16"
      "fmt_hex (m div 16) = fmt_hex (n div 16) \<longleftrightarrow> m div 16 = n div 16"
      using "1.IH" [OF False len] by auto
    have last: "digit_char (m mod 16) < digit_char (n mod 16) \<longleftrightarrow> m mod 16 < n mod 16"
      "digit_char (m mod 16) = digit_char (n mod 16) \<longleftrightarrow> m mod 16 = n mod 16"
      by (simp_all add: digit_char_less_iff digit_char_eq_iff)
    show ?thesis
      unfolding less eq fmt_hex_large [OF m] fmt_hex_large [OF n]
        append_last_less_iff [OF len] append1_eq_conv ih last by blast
  qed
qed

lemma hd_fmt_hex_at:
  assumes "a * 16 ^ k \<le> n" "n < (a + 1) * 16 ^ k" "1 \<le> a" "a < 16"
  shows "hd (fmt_hex n) = digit_char a"
  using assms
proof (induction k arbitrary: n)
  case 0
  then have "n = a" by simp
  with \<open>a < 16\<close> show ?case by (simp add: fmt_hex_small)
next
  case (Suc k)
  have lo: "a * 16 ^ k \<le> n div 16"
    using Suc.prems(1) by (simp add: less_eq_div_iff_mult_less_eq mult.assoc mult.commute)
  have hi: "n div 16 < (a + 1) * 16 ^ k"
    using Suc.prems(2) by (simp add: div_less_iff_less_mult mult.assoc mult.commute)
  have "16 \<le> a * 16 ^ Suc k" using \<open>1 \<le> a\<close> by simp
  with Suc.prems(1) have "16 \<le> n" by linarith
  then have "fmt_hex n = fmt_hex (n div 16) @ [digit_char (n mod 16)]" by (rule fmt_hex_large)
  with Suc.IH [OF lo hi \<open>1 \<le> a\<close> \<open>a < 16\<close>] show ?case by simp
qed

lemma hd_less_list_less:
  fixes xs ys :: string
  shows "xs \<noteq> [] \<Longrightarrow> ys \<noteq> [] \<Longrightarrow> hd xs < hd ys \<Longrightarrow> xs < ys"
  by (cases xs; cases ys) auto

lemma hex_from_int_nonneg:
  "0 \<le> sint v \<Longrightarrow> hex_from_int v = CHR ''0'' # CHR ''x'' # fmt_hex (nat (sint v))"
  by (simp add: hex_from_int_def)

lemma hex_int_hex_from_int_raw: "hex_int (hex_from_int v) = Val v"
  by (simp add: hex_int_def hex_from_int_def parse_int_fmt_pos parse_magnitude_fmt_neg)

lemma hex_from_int_order:
  assumes "0 \<le> sint v" "0 \<le> sint w" "length (hex_from_int v) = length (hex_from_int w)"
  shows "hex_from_int w \<le> hex_from_int v \<longleftrightarrow> sint w \<le> sint v"
proof -
  from assms have "length (fmt_hex (nat (sint v))) = length (fmt_hex (nat (sint w)))"
    by (simp add: hex_from_int_nonneg)
  note fmt_hex_less_iff [OF this]
  then have "fmt_hex (nat (sint v)) < fmt_hex (nat (sint w)) \<longleftrightarrow> nat (sint v) < nat (sint w)" by blast
  then have "hex_from_int v < hex_from_int w \<longleftrightarrow> sint v < sint w"
    using assms by (simp add: hex_from_int_nonneg) linarith
  then show ?thesis by (simp add: linorder_not_less [symmetric])
qed

lemma hex_from_int_hd_less:
  assumes "a * 16 ^ k \<le> nat (sint v)" "nat (sint v) < (a + 1) * 16 ^ k"
    and "b * 16 ^ l \<le> nat (sint w)" "nat (sint w) < (b + 1) * 16 ^ l"
    and "1 \<le> b" "b < a" "a < 16"
  shows "hex_from_int w < hex_from_int v"
proof -
  have "1 \<le> a * 16 ^ k" "1 \<le> b * 16 ^ l" using assms by simp_all
  then have pos: "0 \<le> sint v" "0 \<le> sint w" using assms by linarith+
  have "hd (fmt_hex (nat (sint v))) = digit_char a"
    using assms by (intro hd_fmt_hex_at [of a k]) simp_all
  moreover have "hd (fmt_hex (nat (sint w))) = digit_char b"
    using assms by (intro hd_fmt_hex_at [of b l]) simp_all
  moreover have "digit_char b < digit_char a" using assms by (simp add: digit_char_less_iff)
  ultimately have "fmt_hex (nat (sint w)) < fmt_hex (nat (sint v))"
    by (intro hd_less_list_less) simp_all
  then show ?thesis using pos by (simp add: hex_from_int_nonneg)
qed

lemma hex_from_string_nonneg:
  "0 \<le> sint v \<Longrightarrow> hex_from_string (hex_from_int v) = Inr (hex_from_int v)"
  using sint_bounds64 [of v]
  by (simp add: hex_from_string_def validate_hex_def hex_from_int_nonneg has_prefix_def parse_uint_fmt_hex nat_less_iff)

section \<open>Properties\<close>

text \<open>
  C38. Round trip of block heights: \<^verbatim>\<open>HexFromInt(v).Int()\<close> is \<open>v\<close> for every one of the
  \<open>2 ^ 64\<close> values of \<^verbatim>\<open>int64\<close>, negative ones included, without a panic.
\<close>

theorem hex_int_hex_from_int: "hex_int (hex_from_int v) = Val v"
  by (rule hex_int_hex_from_int_raw)

text \<open>
  C39. A string that \<^verbatim>\<open>HexFromString\<close> accepts is returned unchanged, and reading it back never
  panics: \<^verbatim>\<open>Int\<close> is the unsigned value of the digits, capped at \<open>2 ^ 63 - 1\<close>. Validation accepts
  64 unsigned bits, so from \<open>2 ^ 63\<close> on the value read is the cap, not zero.
\<close>

theorem hex_from_string_int:
  assumes "hex_from_string s = Inr h"
  shows "h = s \<and> (\<exists>n v. parse_uint (drop 2 s) = NumOk n \<and> n < 2 ^ 64 \<and>
           hex_int h = Val v \<and> sint v = int (min n (2 ^ 63 - 1)))"
proof -
  from assms have h: "h = s" and ok: "validate_hex s = None"
    by (auto simp: hex_from_string_def split: option.splits)
  from ok obtain n where n: "parse_uint (drop 2 s) = NumOk n" and pre: "has_prefix s ''0x'' \<or> has_prefix s ''0X''"
    by (auto simp: validate_hex_def split: if_splits num_result.splits)
  from pre have "\<not> length s < 2"
    by (auto simp: has_prefix_def dest: arg_cong [where f = length])
  then have "hex_int s = Val (fst (parse_int (drop 2 s)))" by (simp add: hex_int_def)
  with parse_int_of_uint [OF n] n parse_uint_bound [OF n] show ?thesis by (auto simp: h)
qed

theorem hex_from_string_int_witness:
  "hex_from_string ''0x10'' = Inr ''0x10'' \<and>
   (\<exists>n v. parse_uint (drop 2 ''0x10'') = NumOk n \<and> n < 2 ^ 64 \<and>
      hex_int ''0x10'' = Val v \<and> sint v = int (min n (2 ^ 63 - 1)))"
proof -
  have h: "hex_from_string ''0x10'' = Inr ''0x10''"
    by (simp add: hex_from_string_def validate_hex_def has_prefix_def parse_uint_def hexval_def)
  show ?thesis using h hex_from_string_int [OF h] by blast
qed

text \<open>
  \<^verbatim>\<open>HexFromInt\<close> produces a string that \<^verbatim>\<open>HexFromString\<close> accepts exactly for the non-negative
  heights: the formatted value of a negative number has a sign that validation rejects.
\<close>

theorem hex_from_int_valid_iff:
  "hex_from_string (hex_from_int v) = Inr (hex_from_int v) \<longleftrightarrow> 0 \<le> sint v"
proof (cases "0 \<le> sint v")
  case True
  then show ?thesis by (simp add: hex_from_string_nonneg)
next
  case False
  then show ?thesis
    by (simp add: hex_from_string_def validate_hex_def hex_from_int_def has_prefix_def parse_uint_def)
qed

text \<open>
  The next height: below the largest \<^verbatim>\<open>int64\<close>, \<^verbatim>\<open>Add(1)\<close> on a height that reads as \<open>v\<close>
  gives the canonical string of \<open>v + 1\<close>, which reads back as exactly one more.
\<close>

theorem hex_add_one:
  assumes "hex_int h = Val v" "sint v < 2 ^ 63 - 1"
  shows "hex_add h 1 = Val (hex_from_int (v + 1)) \<and>
         hex_int (hex_from_int (v + 1)) = Val (v + 1) \<and> sint (v + 1) = sint v + 1"
  using assms by (simp add: hex_add_def hex_int_hex_from_int_raw sint_inc64)

theorem hex_add_one_witness:
  "hex_add ''0xff'' 1 = Val (hex_from_int (255 + 1)) \<and>
   hex_int (hex_from_int (255 + 1)) = Val (255 + 1) \<and> sint (255 + 1 :: int64) = sint (255 :: int64) + 1"
proof -
  have h: "hex_int ''0xff'' = Val 255"
    by (simp add: hex_int_def parse_magnitude_def parse_uint_def hexval_def)
  have v: "sint (255 :: int64) < 2 ^ 63 - 1" by simp
  show ?thesis by (rule hex_add_one [OF h v])
qed

text \<open>
  The byte order on strings, which \<^verbatim>\<open>fromHeight >= latestHeight\<close> uses, agrees with the
  order of the heights when both have the same number of digits.
\<close>

theorem hex_order_same_width:
  assumes "0 \<le> sint v" "0 \<le> sint w" "length (hex_from_int v) = length (hex_from_int w)"
  shows "hex_from_int w \<le> hex_from_int v \<longleftrightarrow> sint w \<le> sint v"
  using assms by (simp add: hex_from_int_order)

theorem hex_order_same_width_witness:
  "hex_from_int 16 \<le> hex_from_int 255 \<longleftrightarrow> sint (16 :: int64) \<le> sint (255 :: int64)"
proof -
  have "length (hex_from_int 255) = length (hex_from_int 16)"
    by (simp add: hex_from_int_nonneg fmt_hex_large fmt_hex_small)
  then show ?thesis using hex_order_same_width [of 255 16] by simp
qed

text \<open>
  When the number of digits differs, the string order can contradict the numeric order: a
  height with a larger leading digit compares as the larger string, however many digits the
  other height has.
\<close>

theorem hex_order_leading_digit:
  assumes "a * 16 ^ k \<le> nat (sint v)" "nat (sint v) < (a + 1) * 16 ^ k"
    and "b * 16 ^ l \<le> nat (sint w)" "nat (sint w) < (b + 1) * 16 ^ l"
    and "1 \<le> b" "b < a" "a < 16"
  shows "hex_from_int w < hex_from_int v"
  using assms by (rule hex_from_int_hd_less)

theorem hex_order_leading_digit_witness:
  "hex_from_int 256 < hex_from_int 255 \<and> sint (255 :: int64) < sint (256 :: int64)"
proof -
  have "hex_from_int 256 < hex_from_int 255"
    by (rule hex_order_leading_digit [where a = 15 and k = 1 and b = 1 and l = 2]) simp_all
  then show ?thesis by simp
qed

end
