(* ===== verification/Chain_Types.thy ===== *)
theory Chain_Types
  imports Hex
begin

text \<open>
  The domain types of \<^verbatim>\<open>internal/chainstream\<close> (\<^verbatim>\<open>block.go\<close>, \<^verbatim>\<open>blockchain.go\<close>): transactions,
  blocks, the events of a blockchain client and the failures of the dispatch.
\<close>

record cs_transaction =
  ctx_hash :: string
  ctx_from :: string
  ctx_to :: string

record cs_block =
  blk_height :: hex
  blk_hash :: string
  blk_transactions :: "cs_transaction list"

definition zero_block :: cs_block where
  "zero_block = \<lparr>blk_height = '''', blk_hash = '''', blk_transactions = []\<rparr>"

record observed_block =
  ob_network :: string
  ob_block :: cs_block

record blockchain_event =
  ev_height :: hex
  ev_block :: cs_block
  ev_err :: "gerr option"

record dispatch_failure =
  df_network :: string
  df_height :: hex
  df_errors :: "gerr list"

end
