(* ===== verification/Channels.thy ===== *)
theory Channels
  imports Prelude
begin

text \<open>
  \<^verbatim>\<open>internal/pkg/x/chflow/chflow.go\<close>: context-aware channel operations. A channel value is an
  \<open>option\<close>, because Go channels can be nil; a \<^verbatim>\<open>select\<close> takes any ready case, so an operation
  yields the list of its possible outcomes, and the empty list means that it blocks.
\<close>

section \<open>Channels\<close>

record 'a chan =
  ch_buf :: "'a list"
  ch_cap :: nat
  ch_closed :: bool

definition make_chan :: "nat \<Rightarrow> 'a chan" where
  "make_chan n = \<lparr>ch_buf = [], ch_cap = n, ch_closed = False\<rparr>"

text \<open>The built-in \<^verbatim>\<open>close\<close> panics on a nil channel and on a closed one.\<close>

fun chan_close :: "'a chan option \<Rightarrow> 'a chan option outcome" where
  "chan_close None = Panic"
| "chan_close (Some c) = (if ch_closed c then Panic else Val (Some (c\<lparr>ch_closed := True\<rparr>)))"

text \<open>The receive case of a \<^verbatim>\<open>select\<close>: a closed channel yields what is buffered, then zero values.\<close>

fun recv_case :: "'a chan option \<Rightarrow> ('a option \<times> 'a chan option) list" where
  "recv_case None = []"
| "recv_case (Some c) =
     (case ch_buf c of
        x # xs \<Rightarrow> [(Some x, Some (c\<lparr>ch_buf := xs\<rparr>))]
      | [] \<Rightarrow> if ch_closed c then [(None, Some c)] else [])"

text \<open>The send case: ready with room in the buffer, ready with a panic on a closed channel.\<close>

fun send_case :: "'a chan option \<Rightarrow> 'a \<Rightarrow> 'a chan option outcome list" where
  "send_case None x = []"
| "send_case (Some c) x =
     (if ch_closed c then [Panic]
      else if length (ch_buf c) < ch_cap c then [Val (Some (c\<lparr>ch_buf := ch_buf c @ [x]\<rparr>))]
      else [])"

section \<open>chflow\<close>

text \<open>
  \<^verbatim>\<open>Receive\<close>: \<open>None\<close> in the first component is the result \<^verbatim>\<open>(zero, false)\<close>, which the caller
  gets both when the context is done and when the channel is closed and drained.
\<close>

definition chflow_receive :: "bool \<Rightarrow> 'a chan option \<Rightarrow> ('a option \<times> 'a chan option) list" where
  "chflow_receive ctx_done ch = (if ctx_done then [(None, ch)] else []) @ recv_case ch"

definition chflow_send ::
    "bool \<Rightarrow> 'a chan option \<Rightarrow> 'a \<Rightarrow> (bool \<times> 'a chan option) outcome list" where
  "chflow_send ctx_done ch data =
     (if ctx_done then [Val (False, ch)] else []) @
     map (\<lambda>r. bind_outcome r (\<lambda>ch'. Val (True, ch'))) (send_case ch data)"

fun first_non_nil :: "'a chan option list \<Rightarrow> 'a chan option" where
  "first_non_nil [] = None"
| "first_non_nil (ch # chs) = (if ch \<noteq> None then ch else first_non_nil chs)"

section \<open>Lemmas\<close>

definition chan_ok :: "'a chan \<Rightarrow> bool" where
  "chan_ok c \<longleftrightarrow> length (ch_buf c) \<le> ch_cap c"

lemma chan_ok_make [simp]: "chan_ok (make_chan n)"
  by (simp add: chan_ok_def make_chan_def)

lemma make_chan_simps [simp]:
  "ch_buf (make_chan n) = []" "ch_cap (make_chan n) = n" "\<not> ch_closed (make_chan n)"
  by (simp_all add: make_chan_def)

lemma chflow_receive_iff:
  "(r, ch') \<in> set (chflow_receive d (Some c)) \<longleftrightarrow>
     (d \<and> r = None \<and> ch' = Some c) \<or>
     (\<exists>x xs. ch_buf c = x # xs \<and> r = Some x \<and> ch' = Some (c\<lparr>ch_buf := xs\<rparr>)) \<or>
     (ch_buf c = [] \<and> ch_closed c \<and> r = None \<and> ch' = Some c)"
  by (auto simp: chflow_receive_def split: list.splits)

lemma chflow_send_Val_iff:
  "Val (ok, ch') \<in> set (chflow_send d (Some c) x) \<longleftrightarrow>
     (d \<and> \<not> ok \<and> ch' = Some c) \<or>
     (\<not> ch_closed c \<and> length (ch_buf c) < ch_cap c \<and> ok \<and> ch' = Some (c\<lparr>ch_buf := ch_buf c @ [x]\<rparr>))"
  by (auto simp: chflow_send_def)

lemma chflow_send_Panic_iff:
  "Panic \<in> set (chflow_send d (Some c) x) \<longleftrightarrow> ch_closed c"
  by (auto simp: chflow_send_def)

lemma chflow_receive_blocks_iff:
  "chflow_receive d (Some c) = [] \<longleftrightarrow> \<not> d \<and> ch_buf c = [] \<and> \<not> ch_closed c"
  by (auto simp: chflow_receive_def split: list.splits)

lemma chflow_send_blocks_iff:
  "chflow_send d (Some c) x = [] \<longleftrightarrow> \<not> d \<and> \<not> ch_closed c \<and> ch_cap c \<le> length (ch_buf c)"
  by (auto simp: chflow_send_def)

lemma first_non_nil_iff:
  "first_non_nil chs = Some c \<longleftrightarrow>
     (\<exists>i < length chs. chs ! i = Some c \<and> (\<forall>j < i. chs ! j = None))"
proof (induction chs)
  case Nil
  then show ?case by simp
next
  case (Cons ch chs)
  show ?case
  proof (cases ch)
    case None
    have "(\<exists>i < length (ch # chs). (ch # chs) ! i = Some c \<and> (\<forall>j < i. (ch # chs) ! j = None)) \<longleftrightarrow>
          (\<exists>i < length chs. chs ! i = Some c \<and> (\<forall>j < i. chs ! j = None))"
      using None by (simp add: Ex_less_Suc2 All_less_Suc2)
    with Cons.IH None show ?thesis by simp
  next
    case (Some c')
    then show ?thesis by (auto simp: Ex_less_Suc2 All_less_Suc2)
  qed
qed

end
