(* ===== verification/Pipeline.thy ===== *)
theory Pipeline
  imports Chain_Types Channels
begin

text \<open>
  \<^verbatim>\<open>internal/chainstream\<close> at work: the goroutines that \<^verbatim>\<open>service.Start\<close> launches and the channels
  between them. Every goroutine is a step function: its program counter says at which channel
  operation or call it is, and the function lists the states it can go to, so an empty list means
  that it is blocked or has returned. The relation \<open>cs_step\<close> interleaves them with the environment:
  the blockchain clients, the consumer of the output channel, the context and \<^verbatim>\<open>Close\<close>.
\<close>

section \<open>Constants and state\<close>

definition dispatchFailureChannelBufferSize :: nat where
  "dispatchFailureChannelBufferSize = 5"

definition retryFailureChannelBufferSize :: nat where
  "retryFailureChannelBufferSize = 5"

definition observedBlockChannelBufferSize :: nat where
  "observedBlockChannelBufferSize = 10"

text \<open>
  The goroutines' program counters. \<open>DispSendErr\<close> and \<open>DispSendBlk\<close>: about to send to
  \<^verbatim>\<open>errorsCh\<close>, \<^verbatim>\<open>blocksCh\<close>. \<open>RetryExec\<close>: inside \<^verbatim>\<open>retry.Execute\<close>; \<open>RetrySend\<close>: the operation has
  fetched the block and is about to send it to \<^verbatim>\<open>recoveredCh\<close>; \<open>RetryForward\<close>: about to send to
  \<^verbatim>\<open>finalErrorCh\<close>. \<open>CkptSave\<close>: about to call \<^verbatim>\<open>SaveCheckpoint\<close>; \<open>CkptSend\<close>: about to send to
  \<^verbatim>\<open>blockOut\<close>. \<open>FailNotify\<close>: about to call the notifier.
\<close>

datatype disp_pc = DispRecv | DispSendErr dispatch_failure | DispSendBlk observed_block | DispExit

datatype retry_pc =
    RetryRecv
  | RetryExec dispatch_failure
  | RetrySend dispatch_failure observed_block
  | RetryForward dispatch_failure
  | RetryExit

datatype ckpt_pc = CkptRecv | CkptSave observed_block | CkptSend observed_block | CkptExit

datatype fail_pc = FailRecv | FailNotify dispatch_failure | FailExit

datatype closer = CloseBlocks | CloseOut | CloseRetry | CloseFailures

text \<open>
  The last six fields are history: what the clients emitted per network, which blocks a retry
  fetched, which failures were dropped after a retry, which checkpoints were saved, what the
  notifier and the consumer received.
\<close>

record cs_state =
  st_done :: bool
  st_panic :: bool
  st_closing :: "closer list option"
  st_events :: "string \<Rightarrow> blockchain_event chan"
  st_retry_ch :: "dispatch_failure chan option"
  st_fail_ch :: "dispatch_failure chan"
  st_pre_ch :: "observed_block chan"
  st_out_ch :: "observed_block chan"
  st_disp :: "string \<Rightarrow> disp_pc"
  st_retry :: retry_pc
  st_ckpt :: ckpt_pc
  st_fail :: fail_pc
  st_emitted :: "string \<Rightarrow> blockchain_event list"
  st_recovered :: "observed_block list"
  st_resolved :: "dispatch_failure list"
  st_saved :: "(string \<times> hex) list"
  st_notified :: "dispatch_failure list"
  st_delivered :: "observed_block list"

text \<open>
  The registered networks, and what the configured collaborators decide: what \<^verbatim>\<open>retry.Execute\<close> returns when the operation
  succeeded (\<open>Some []\<close> for the repository's retrier), whether it can panic, and the heights on
  which the checkpoint storage panics.
\<close>

record cs_params =
  p_networks :: "string list"
  p_ok_result :: "gerr list option"
  p_exec_panics :: bool
  p_save_panics :: "hex \<Rightarrow> bool"

section \<open>dispatchSubscriptionEvents\<close>

definition dispatch_event :: "string \<Rightarrow> blockchain_event \<Rightarrow> disp_pc" where
  "dispatch_event network event =
     (case ev_err event of
        Some err \<Rightarrow>
          DispSendErr \<lparr>df_network = network, df_height = ev_height event, df_errors = [err]\<rparr>
      | None \<Rightarrow> DispSendBlk \<lparr>ob_network = network, ob_block = ev_block event\<rparr>)"

text \<open>\<^verbatim>\<open>errorSubmissionCh := chflow.FirstNonNil(retryFailureCh, dispatchFailureCh)\<close>\<close>

definition errors_ch :: "cs_state \<Rightarrow> dispatch_failure chan option" where
  "errors_ch s = first_non_nil [st_retry_ch s, Some (st_fail_ch s)]"

definition set_errors_ch :: "dispatch_failure chan option \<Rightarrow> cs_state \<Rightarrow> cs_state" where
  "set_errors_ch ch s =
     (if st_retry_ch s \<noteq> None then s\<lparr>st_retry_ch := ch\<rparr> else s\<lparr>st_fail_ch := the ch\<rparr>)"

definition set_disp :: "string \<Rightarrow> disp_pc \<Rightarrow> cs_state \<Rightarrow> cs_state" where
  "set_disp n pc s = s\<lparr>st_disp := (st_disp s)(n := pc)\<rparr>"

definition disp_steps :: "string \<Rightarrow> cs_state \<Rightarrow> cs_state list" where
  "disp_steps n s =
     (case st_disp s n of
        DispRecv \<Rightarrow>
          map (\<lambda>(r, ch). case r of
                 None \<Rightarrow> set_disp n DispExit s
               | Some event \<Rightarrow>
                   set_disp n (dispatch_event n event) (s\<lparr>st_events := (st_events s)(n := the ch)\<rparr>))
            (chflow_receive (st_done s) (Some (st_events s n)))
      | DispSendErr failure \<Rightarrow>
          map (\<lambda>out. case out of
                 Panic \<Rightarrow> s\<lparr>st_panic := True\<rparr>
               | Val (ok, ch) \<Rightarrow> set_disp n (if ok then DispRecv else DispExit) (set_errors_ch ch s))
            (chflow_send (st_done s) (errors_ch s) failure)
      | DispSendBlk block \<Rightarrow>
          map (\<lambda>out. case out of
                 Panic \<Rightarrow> s\<lparr>st_panic := True\<rparr>
               | Val (ok, ch) \<Rightarrow> set_disp n (if ok then DispRecv else DispExit) (s\<lparr>st_pre_ch := the ch\<rparr>))
            (chflow_send (st_done s) (Some (st_pre_ch s)) block)
      | DispExit \<Rightarrow> [])"

section \<open>retryFailedBlockFetches\<close>

text \<open>
  What happens inside \<^verbatim>\<open>Execute\<close> up to the first success: either some attempt fetches the block,
  of a registered network, or all attempts fail and the errors are returned, or the conversion of the library's error
  panics. \<open>after_execute\<close> is the code behind the call: a nil result drops the failure, any other
  result is appended and the failure forwarded.
\<close>

datatype exec_answer = Fetched cs_block | AllFailed "gerr list" | ExecPanics

definition after_execute :: "dispatch_failure \<Rightarrow> gerr list option \<Rightarrow> cs_state \<Rightarrow> cs_state" where
  "after_execute netErr retryErrs s =
     (case retryErrs of
        None \<Rightarrow> s\<lparr>st_retry := RetryRecv, st_resolved := st_resolved s @ [netErr]\<rparr>
      | Some es \<Rightarrow> s\<lparr>st_retry := RetryForward (netErr\<lparr>df_errors := df_errors netErr @ es\<rparr>)\<rparr>)"

definition retry_steps :: "cs_params \<Rightarrow> exec_answer \<Rightarrow> cs_state \<Rightarrow> cs_state list" where
  "retry_steps P answer s =
     (case st_retry_ch s of
        None \<Rightarrow> []
      | Some retryCh \<Rightarrow>
          (case st_retry s of
             RetryRecv \<Rightarrow>
               map (\<lambda>(r, ch). case r of
                      None \<Rightarrow> s\<lparr>st_retry := RetryExit\<rparr>
                    | Some netErr \<Rightarrow> s\<lparr>st_retry := RetryExec netErr, st_retry_ch := ch\<rparr>)
                 (chflow_receive (st_done s) (Some retryCh))
           | RetryExec netErr \<Rightarrow>
               (case answer of
                  Fetched block \<Rightarrow>
                    (let observedBlock = \<lparr>ob_network = df_network netErr, ob_block = block\<rparr> in
                     if df_network netErr \<notin> set (p_networks P) then []
                     else [s\<lparr>st_retry := RetrySend netErr observedBlock,
                             st_recovered := st_recovered s @ [observedBlock]\<rparr>])
                | AllFailed es \<Rightarrow> [after_execute netErr (Some es) s]
                | ExecPanics \<Rightarrow> if p_exec_panics P then [s\<lparr>st_panic := True\<rparr>] else [])
           | RetrySend netErr observedBlock \<Rightarrow>
               map (\<lambda>out. case out of
                      Panic \<Rightarrow> s\<lparr>st_panic := True\<rparr>
                    | Val (_, ch) \<Rightarrow> after_execute netErr (p_ok_result P) (s\<lparr>st_pre_ch := the ch\<rparr>))
                 (chflow_send (st_done s) (Some (st_pre_ch s)) observedBlock)
           | RetryForward netErr \<Rightarrow>
               map (\<lambda>out. case out of
                      Panic \<Rightarrow> s\<lparr>st_panic := True\<rparr>
                    | Val (ok, ch) \<Rightarrow>
                        s\<lparr>st_retry := (if ok then RetryRecv else RetryExit), st_fail_ch := the ch\<rparr>)
                 (chflow_send (st_done s) (Some (st_fail_ch s)) netErr)
           | RetryExit \<Rightarrow> []))"

section \<open>checkpointAndForward\<close>

text \<open>A failing \<^verbatim>\<open>SaveCheckpoint\<close> is logged and the block goes on, so both results are one step.\<close>

definition ckpt_steps :: "cs_params \<Rightarrow> cs_state \<Rightarrow> cs_state list" where
  "ckpt_steps P s =
     (case st_ckpt s of
        CkptRecv \<Rightarrow>
          map (\<lambda>(r, ch). case r of
                 None \<Rightarrow> s\<lparr>st_ckpt := CkptExit\<rparr>
               | Some b \<Rightarrow> s\<lparr>st_ckpt := CkptSave b, st_pre_ch := the ch\<rparr>)
            (chflow_receive (st_done s) (Some (st_pre_ch s)))
      | CkptSave b \<Rightarrow>
          (if p_save_panics P (blk_height (ob_block b)) then [s\<lparr>st_panic := True\<rparr>]
           else [s\<lparr>st_ckpt := CkptSend b,
                   st_saved := st_saved s @ [(ob_network b, blk_height (ob_block b))]\<rparr>])
      | CkptSend b \<Rightarrow>
          map (\<lambda>out. case out of
                 Panic \<Rightarrow> s\<lparr>st_panic := True\<rparr>
               | Val (ok, ch) \<Rightarrow> s\<lparr>st_ckpt := (if ok then CkptRecv else CkptExit), st_out_ch := the ch\<rparr>)
            (chflow_send (st_done s) (Some (st_out_ch s)) b)
      | CkptExit \<Rightarrow> [])"

section \<open>handleDispatchFailures\<close>

definition fail_steps :: "cs_state \<Rightarrow> cs_state list" where
  "fail_steps s =
     (case st_fail s of
        FailRecv \<Rightarrow>
          map (\<lambda>(r, ch). case r of
                 None \<Rightarrow> s\<lparr>st_fail := FailExit\<rparr>
               | Some f \<Rightarrow> s\<lparr>st_fail := FailNotify f, st_fail_ch := the ch\<rparr>)
            (chflow_receive (st_done s) (Some (st_fail_ch s)))
      | FailNotify f \<Rightarrow> [s\<lparr>st_fail := FailRecv, st_notified := st_notified s @ [f]\<rparr>]
      | FailExit \<Rightarrow> [])"

section \<open>closeFunc\<close>

definition close_begin :: "cs_state \<Rightarrow> cs_state" where
  "close_begin s =
     s\<lparr>st_done := True,
       st_closing := Some ([CloseBlocks, CloseOut] @
         (if st_retry_ch s \<noteq> None then [CloseRetry] else []) @ [CloseFailures])\<rparr>"

fun close_one :: "closer \<Rightarrow> cs_state \<Rightarrow> cs_state outcome" where
  "close_one CloseBlocks s =
     bind_outcome (chan_close (Some (st_pre_ch s))) (\<lambda>ch. Val (s\<lparr>st_pre_ch := the ch\<rparr>))"
| "close_one CloseOut s =
     bind_outcome (chan_close (Some (st_out_ch s))) (\<lambda>ch. Val (s\<lparr>st_out_ch := the ch\<rparr>))"
| "close_one CloseRetry s =
     bind_outcome (chan_close (st_retry_ch s)) (\<lambda>ch. Val (s\<lparr>st_retry_ch := ch\<rparr>))"
| "close_one CloseFailures s =
     bind_outcome (chan_close (Some (st_fail_ch s))) (\<lambda>ch. Val (s\<lparr>st_fail_ch := the ch\<rparr>))"

definition close_steps :: "cs_state \<Rightarrow> cs_state list" where
  "close_steps s =
     (case st_closing s of
        Some (c # cs) \<Rightarrow>
          (case close_one c s of
             Panic \<Rightarrow> [s\<lparr>st_panic := True\<rparr>]
           | Val s' \<Rightarrow> [s'\<lparr>st_closing := Some cs\<rparr>])
      | _ \<Rightarrow> [])"

section \<open>The environment\<close>

text \<open>A client's blocking send to its events channel, and the consumer of the output channel.\<close>

definition emit_steps :: "string \<Rightarrow> blockchain_event \<Rightarrow> cs_state \<Rightarrow> cs_state list" where
  "emit_steps n ev s =
     (let c = st_events s n in
      if \<not> ch_closed c \<and> length (ch_buf c) < ch_cap c
      then [s\<lparr>st_events := (st_events s)(n := c\<lparr>ch_buf := ch_buf c @ [ev]\<rparr>),
              st_emitted := (st_emitted s)(n := st_emitted s n @ [ev])\<rparr>]
      else [])"

definition end_subscription_steps :: "string \<Rightarrow> cs_state \<Rightarrow> cs_state list" where
  "end_subscription_steps n s =
     (let c = st_events s n in
      if st_done s \<and> \<not> ch_closed c
      then [s\<lparr>st_events := (st_events s)(n := c\<lparr>ch_closed := True\<rparr>)\<rparr>] else [])"

definition consume_steps :: "cs_state \<Rightarrow> cs_state list" where
  "consume_steps s =
     (case ch_buf (st_out_ch s) of
        [] \<Rightarrow> []
      | b # bs \<Rightarrow> [s\<lparr>st_out_ch := (st_out_ch s)\<lparr>ch_buf := bs\<rparr>, st_delivered := st_delivered s @ [b]\<rparr>])"

section \<open>Interleaving\<close>

text \<open>The steps of the service's goroutines and of the consumer, then all steps.\<close>

inductive work_step :: "cs_params \<Rightarrow> cs_state \<Rightarrow> cs_state \<Rightarrow> bool" for P where
  dispatch: "\<not> st_panic s \<Longrightarrow> n \<in> set (p_networks P) \<Longrightarrow> s' \<in> set (disp_steps n s) \<Longrightarrow> work_step P s s'"
| retry: "\<not> st_panic s \<Longrightarrow> s' \<in> set (retry_steps P answer s) \<Longrightarrow> work_step P s s'"
| checkpoint: "\<not> st_panic s \<Longrightarrow> s' \<in> set (ckpt_steps P s) \<Longrightarrow> work_step P s s'"
| failures: "\<not> st_panic s \<Longrightarrow> s' \<in> set (fail_steps s) \<Longrightarrow> work_step P s s'"
| consume: "\<not> st_panic s \<Longrightarrow> s' \<in> set (consume_steps s) \<Longrightarrow> work_step P s s'"

inductive cs_step :: "cs_params \<Rightarrow> cs_state \<Rightarrow> cs_state \<Rightarrow> bool" for P where
  work: "work_step P s s' \<Longrightarrow> cs_step P s s'"
| emit: "\<not> st_panic s \<Longrightarrow> n \<in> set (p_networks P) \<Longrightarrow> s' \<in> set (emit_steps n ev s) \<Longrightarrow> cs_step P s s'"
| end_subscription: "\<not> st_panic s \<Longrightarrow> s' \<in> set (end_subscription_steps n s) \<Longrightarrow> cs_step P s s'"
| cancel: "\<not> st_panic s \<Longrightarrow> cs_step P s (s\<lparr>st_done := True\<rparr>)"
| close: "\<not> st_panic s \<Longrightarrow> st_closing s = None \<Longrightarrow> cs_step P s (close_begin s)"
| closing: "\<not> st_panic s \<Longrightarrow> s' \<in> set (close_steps s) \<Longrightarrow> cs_step P s s'"

text \<open>The state \<^verbatim>\<open>Start\<close> leaves behind when all subscriptions were launched, with the capacities of
  the channels that the clients returned.\<close>

definition cs_init :: "bool \<Rightarrow> (string \<Rightarrow> nat) \<Rightarrow> cs_state" where
  "cs_init has_retry events_cap =
     \<lparr>st_done = False, st_panic = False, st_closing = None,
      st_events = (\<lambda>n. make_chan (events_cap n)),
      st_retry_ch = (if has_retry then Some (make_chan retryFailureChannelBufferSize) else None),
      st_fail_ch = make_chan dispatchFailureChannelBufferSize,
      st_pre_ch = make_chan observedBlockChannelBufferSize,
      st_out_ch = make_chan observedBlockChannelBufferSize,
      st_disp = (\<lambda>_. DispRecv), st_retry = RetryRecv, st_ckpt = CkptRecv, st_fail = FailRecv,
      st_emitted = (\<lambda>_. []), st_recovered = [], st_resolved = [], st_saved = [],
      st_notified = [], st_delivered = []\<rparr>"

inductive cs_reachable :: "cs_params \<Rightarrow> bool \<Rightarrow> (string \<Rightarrow> nat) \<Rightarrow> cs_state \<Rightarrow> bool" for P has_retry cap where
  init: "cs_reachable P has_retry cap (cs_init has_retry cap)"
| step: "cs_reachable P has_retry cap s \<Longrightarrow> cs_step P s s' \<Longrightarrow> cs_reachable P has_retry cap s'"

section \<open>Case rules of the step functions\<close>

lemma retry_ch_same [simp]: "st_retry_ch s = Some c \<Longrightarrow> s\<lparr>st_retry_ch := Some c\<rparr> = s"
  by (cases s) simp

lemma disp_steps_cases:
  assumes "s' \<in> set (disp_steps n s)"
  obtains
    (exit) "s' = set_disp n DispExit s"
      "st_done s \<or> (st_disp s n = DispRecv \<and> ch_buf (st_events s n) = [] \<and> ch_closed (st_events s n))"
  | (event) ev xs where "st_disp s n = DispRecv" "ch_buf (st_events s n) = ev # xs"
      "s' = set_disp n (dispatch_event n ev)
              (s\<lparr>st_events := (st_events s)(n := (st_events s n)\<lparr>ch_buf := xs\<rparr>)\<rparr>)"
  | (sent_retry) f c where "st_disp s n = DispSendErr f" "st_retry_ch s = Some c" "\<not> ch_closed c"
      "length (ch_buf c) < ch_cap c"
      "s' = set_disp n DispRecv (s\<lparr>st_retry_ch := Some (c\<lparr>ch_buf := ch_buf c @ [f]\<rparr>)\<rparr>)"
  | (sent_failure) f where "st_disp s n = DispSendErr f" "st_retry_ch s = None" "\<not> ch_closed (st_fail_ch s)"
      "length (ch_buf (st_fail_ch s)) < ch_cap (st_fail_ch s)"
      "s' = set_disp n DispRecv (s\<lparr>st_fail_ch := (st_fail_ch s)\<lparr>ch_buf := ch_buf (st_fail_ch s) @ [f]\<rparr>\<rparr>)"
  | (sent_block) b where "st_disp s n = DispSendBlk b" "\<not> ch_closed (st_pre_ch s)"
      "length (ch_buf (st_pre_ch s)) < ch_cap (st_pre_ch s)"
      "s' = set_disp n DispRecv (s\<lparr>st_pre_ch := (st_pre_ch s)\<lparr>ch_buf := ch_buf (st_pre_ch s) @ [b]\<rparr>\<rparr>)"
  | (panic) "s' = s\<lparr>st_panic := True\<rparr>"
      "(\<exists>c. st_retry_ch s = Some c \<and> ch_closed c) \<or> ch_closed (st_fail_ch s) \<or> ch_closed (st_pre_ch s)"
proof (cases "st_disp s n")
  case DispRecv
  with assms that(1,2) show ?thesis
    by (cases "ch_buf (st_events s n)") (auto simp: disp_steps_def chflow_receive_def split: if_splits)
next
  case (DispSendErr f)
  with assms that(1,3,4,6) show ?thesis
    by (cases "st_retry_ch s")
       (auto simp: disp_steps_def errors_ch_def set_errors_ch_def chflow_send_def split: if_splits)
next
  case (DispSendBlk b)
  with assms that(1,5,6) show ?thesis
    by (auto simp: disp_steps_def chflow_send_def split: if_splits)
next
  case DispExit
  with assms show ?thesis by (simp add: disp_steps_def)
qed

lemma retry_steps_cases:
  assumes "s' \<in> set (retry_steps P answer s)"
  obtains
    (exit) c where "st_retry_ch s = Some c" "s' = s\<lparr>st_retry := RetryExit\<rparr>"
      "st_done s \<or> (st_retry s = RetryRecv \<and> ch_buf c = [] \<and> ch_closed c)"
  | (recv) c f xs where "st_retry_ch s = Some c" "st_retry s = RetryRecv" "ch_buf c = f # xs"
      "s' = s\<lparr>st_retry := RetryExec f, st_retry_ch := Some (c\<lparr>ch_buf := xs\<rparr>)\<rparr>"
  | (fetched) f b where "st_retry s = RetryExec f" "st_retry_ch s \<noteq> None" "answer = Fetched b"
      "df_network f \<in> set (p_networks P)"
      "s' = s\<lparr>st_retry := RetrySend f \<lparr>ob_network = df_network f, ob_block = b\<rparr>,
              st_recovered := st_recovered s @ [\<lparr>ob_network = df_network f, ob_block = b\<rparr>]\<rparr>"
  | (failed) f es where "st_retry s = RetryExec f" "st_retry_ch s \<noteq> None"
      "s' = after_execute f (Some es) s"
  | (sent) f b where "st_retry s = RetrySend f b" "st_retry_ch s \<noteq> None" "\<not> ch_closed (st_pre_ch s)"
      "length (ch_buf (st_pre_ch s)) < ch_cap (st_pre_ch s)"
      "s' = after_execute f (p_ok_result P)
              (s\<lparr>st_pre_ch := (st_pre_ch s)\<lparr>ch_buf := ch_buf (st_pre_ch s) @ [b]\<rparr>\<rparr>)"
  | (cancelled) f b where "st_retry s = RetrySend f b" "st_retry_ch s \<noteq> None" "st_done s"
      "s' = after_execute f (p_ok_result P) s"
  | (forwarded) f where "st_retry s = RetryForward f" "st_retry_ch s \<noteq> None" "\<not> ch_closed (st_fail_ch s)"
      "length (ch_buf (st_fail_ch s)) < ch_cap (st_fail_ch s)"
      "s' = s\<lparr>st_retry := RetryRecv,
              st_fail_ch := (st_fail_ch s)\<lparr>ch_buf := ch_buf (st_fail_ch s) @ [f]\<rparr>\<rparr>"
  | (panic) "s' = s\<lparr>st_panic := True\<rparr>"
      "p_exec_panics P \<or> ch_closed (st_pre_ch s) \<or> ch_closed (st_fail_ch s)"
proof -
  obtain c where c: "st_retry_ch s = Some c"
    using assms by (cases "st_retry_ch s") (auto simp: retry_steps_def)
  show ?thesis
  proof (cases "st_retry s")
    case RetryRecv
    with assms c that(1,2) show ?thesis
      by (cases "ch_buf c") (auto simp: retry_steps_def chflow_receive_def split: if_splits)
  next
    case (RetryExec f)
    with assms c that(3,4,8) show ?thesis
      by (cases answer) (auto simp: retry_steps_def Let_def split: if_splits)
  next
    case (RetrySend f b)
    with assms c that(5,6,8) show ?thesis
      by (auto simp: retry_steps_def chflow_send_def split: if_splits)
  next
    case (RetryForward f)
    with assms c that(1,7,8) show ?thesis
      by (auto simp: retry_steps_def chflow_send_def split: if_splits)
  next
    case RetryExit
    with assms c show ?thesis by (simp add: retry_steps_def)
  qed
qed

lemma ckpt_steps_cases:
  assumes "s' \<in> set (ckpt_steps P s)"
  obtains
    (exit) "s' = s\<lparr>st_ckpt := CkptExit\<rparr>" "st_ckpt s = CkptRecv"
      "st_done s \<or> (ch_buf (st_pre_ch s) = [] \<and> ch_closed (st_pre_ch s))"
  | (recv) b xs where "st_ckpt s = CkptRecv" "ch_buf (st_pre_ch s) = b # xs"
      "s' = s\<lparr>st_ckpt := CkptSave b, st_pre_ch := (st_pre_ch s)\<lparr>ch_buf := xs\<rparr>\<rparr>"
  | (saved) b where "st_ckpt s = CkptSave b" "\<not> p_save_panics P (blk_height (ob_block b))"
      "s' = s\<lparr>st_ckpt := CkptSend b, st_saved := st_saved s @ [(ob_network b, blk_height (ob_block b))]\<rparr>"
  | (sent) b where "st_ckpt s = CkptSend b" "\<not> ch_closed (st_out_ch s)"
      "length (ch_buf (st_out_ch s)) < ch_cap (st_out_ch s)"
      "s' = s\<lparr>st_ckpt := CkptRecv, st_out_ch := (st_out_ch s)\<lparr>ch_buf := ch_buf (st_out_ch s) @ [b]\<rparr>\<rparr>"
  | (dropped) b where "st_ckpt s = CkptSend b" "st_done s" "s' = s\<lparr>st_ckpt := CkptExit\<rparr>"
  | (panic) "s' = s\<lparr>st_panic := True\<rparr>" "(\<exists>h. p_save_panics P h) \<or> ch_closed (st_out_ch s)"
proof (cases "st_ckpt s")
  case CkptRecv
  with assms that(1,2) show ?thesis
    by (cases "ch_buf (st_pre_ch s)") (auto simp: ckpt_steps_def chflow_receive_def split: if_splits)
next
  case (CkptSave b)
  with assms that(3,6) show ?thesis
    by (auto simp: ckpt_steps_def split: if_splits)
next
  case (CkptSend b)
  with assms that(4,5,6) show ?thesis
    by (auto simp: ckpt_steps_def chflow_send_def split: if_splits)
next
  case CkptExit
  with assms show ?thesis by (simp add: ckpt_steps_def)
qed

lemma fail_steps_cases:
  assumes "s' \<in> set (fail_steps s)"
  obtains
    (exit) "s' = s\<lparr>st_fail := FailExit\<rparr>" "st_fail s = FailRecv"
      "st_done s \<or> (ch_buf (st_fail_ch s) = [] \<and> ch_closed (st_fail_ch s))"
  | (recv) f xs where "st_fail s = FailRecv" "ch_buf (st_fail_ch s) = f # xs"
      "s' = s\<lparr>st_fail := FailNotify f, st_fail_ch := (st_fail_ch s)\<lparr>ch_buf := xs\<rparr>\<rparr>"
  | (notified) f where "st_fail s = FailNotify f"
      "s' = s\<lparr>st_fail := FailRecv, st_notified := st_notified s @ [f]\<rparr>"
proof (cases "st_fail s")
  case FailRecv
  with assms that(1,2) show ?thesis
    by (cases "ch_buf (st_fail_ch s)") (auto simp: fail_steps_def chflow_receive_def split: if_splits)
next
  case (FailNotify f)
  with assms that(3) show ?thesis by (simp add: fail_steps_def)
next
  case FailExit
  with assms show ?thesis by (simp add: fail_steps_def)
qed

lemma consume_steps_iff:
  "s' \<in> set (consume_steps s) \<longleftrightarrow>
     (\<exists>b bs. ch_buf (st_out_ch s) = b # bs \<and>
        s' = s\<lparr>st_out_ch := (st_out_ch s)\<lparr>ch_buf := bs\<rparr>, st_delivered := st_delivered s @ [b]\<rparr>)"
  by (cases "ch_buf (st_out_ch s)") (auto simp: consume_steps_def)

lemma emit_steps_iff:
  "s' \<in> set (emit_steps n ev s) \<longleftrightarrow>
     \<not> ch_closed (st_events s n) \<and> length (ch_buf (st_events s n)) < ch_cap (st_events s n) \<and>
     s' = s\<lparr>st_events := (st_events s)(n := (st_events s n)\<lparr>ch_buf := ch_buf (st_events s n) @ [ev]\<rparr>),
            st_emitted := (st_emitted s)(n := st_emitted s n @ [ev])\<rparr>"
  by (auto simp: emit_steps_def Let_def)

lemma end_subscription_steps_iff:
  "s' \<in> set (end_subscription_steps n s) \<longleftrightarrow>
     st_done s \<and> \<not> ch_closed (st_events s n) \<and>
     s' = s\<lparr>st_events := (st_events s)(n := (st_events s n)\<lparr>ch_closed := True\<rparr>)\<rparr>"
  by (auto simp: end_subscription_steps_def Let_def)

text \<open>Closing changes nothing but the closed flags, the list of what is left to close, and panics.\<close>

lemma close_steps_frame:
  assumes "s' \<in> set (close_steps s)"
  shows "st_closing s \<noteq> None \<and> st_closing s' \<noteq> None \<and> st_done s' = st_done s \<and>
    st_events s' = st_events s \<and> st_disp s' = st_disp s \<and> st_retry s' = st_retry s \<and>
    st_ckpt s' = st_ckpt s \<and> st_fail s' = st_fail s \<and>
    map_option ch_buf (st_retry_ch s') = map_option ch_buf (st_retry_ch s) \<and>
    ch_buf (st_fail_ch s') = ch_buf (st_fail_ch s) \<and> ch_buf (st_pre_ch s') = ch_buf (st_pre_ch s) \<and>
    ch_buf (st_out_ch s') = ch_buf (st_out_ch s) \<and> st_emitted s' = st_emitted s \<and>
    st_recovered s' = st_recovered s \<and> st_resolved s' = st_resolved s \<and> st_saved s' = st_saved s \<and>
    st_notified s' = st_notified s \<and> st_delivered s' = st_delivered s"
proof -
  obtain c cs where c: "st_closing s = Some (c # cs)"
    using assms by (cases "st_closing s"; cases "the (st_closing s)") (simp_all add: close_steps_def)
  with assms show ?thesis
    by (cases c; cases "st_retry_ch s") (auto simp: close_steps_def split: if_splits)
qed

end
