(* ===== verification/Pipeline_Inv.thy ===== *)
theory Pipeline_Inv
  imports Pipeline
begin

text \<open>
  Invariants of the running chainstream service over all interleavings: which channels are open,
  where every block and every failure is, what the checkpoint log says of the output. Each one is
  kept by every step, by the case rules of theory \<open>Pipeline\<close>.
\<close>

section \<open>What is where\<close>

definition block_key :: "observed_block \<Rightarrow> string \<times> hex" where
  "block_key b = (ob_network b, blk_height (ob_block b))"

definition fail_key :: "dispatch_failure \<Rightarrow> string \<times> hex" where
  "fail_key f = (df_network f, df_height f)"

definition ckpt_hold :: "cs_state \<Rightarrow> observed_block list" where
  "ckpt_hold s = (case st_ckpt s of CkptSave b \<Rightarrow> [b] | CkptSend b \<Rightarrow> [b] | _ \<Rightarrow> [])"

definition ckpt_saved :: "cs_state \<Rightarrow> observed_block list" where
  "ckpt_saved s = (case st_ckpt s of CkptSend b \<Rightarrow> [b] | _ \<Rightarrow> [])"

definition disp_blocks :: "string \<Rightarrow> cs_state \<Rightarrow> observed_block list" where
  "disp_blocks n s = (case st_disp s n of DispSendBlk b \<Rightarrow> [b] | _ \<Rightarrow> [])"

definition disp_fails :: "string \<Rightarrow> cs_state \<Rightarrow> dispatch_failure list" where
  "disp_fails n s = (case st_disp s n of DispSendErr f \<Rightarrow> [f] | _ \<Rightarrow> [])"

definition retry_blocks :: "cs_state \<Rightarrow> observed_block list" where
  "retry_blocks s = (case st_retry s of RetrySend f b \<Rightarrow> [b] | _ \<Rightarrow> [])"

definition retry_fails :: "cs_state \<Rightarrow> dispatch_failure list" where
  "retry_fails s =
     (case st_retry s of
        RetryExec f \<Rightarrow> [f] | RetrySend f b \<Rightarrow> [f] | RetryForward f \<Rightarrow> [f] | _ \<Rightarrow> [])"

definition retry_buf :: "cs_state \<Rightarrow> dispatch_failure list" where
  "retry_buf s = (case st_retry_ch s of None \<Rightarrow> [] | Some c \<Rightarrow> ch_buf c)"

definition fail_hold :: "cs_state \<Rightarrow> dispatch_failure list" where
  "fail_hold s = (case st_fail s of FailNotify f \<Rightarrow> [f] | _ \<Rightarrow> [])"

text \<open>The blocks and the failed heights that a network's events stand for.\<close>

definition ok_blocks :: "string \<Rightarrow> blockchain_event list \<Rightarrow> observed_block list" where
  "ok_blocks n evs =
     map (\<lambda>ev. \<lparr>ob_network = n, ob_block = ev_block ev\<rparr>) (filter (\<lambda>ev. ev_err ev = None) evs)"

definition failed_keys :: "string \<Rightarrow> blockchain_event list \<Rightarrow> (string \<times> hex) list" where
  "failed_keys n evs = map (\<lambda>ev. (n, ev_height ev)) (filter (\<lambda>ev. ev_err ev \<noteq> None) evs)"

definition of_net :: "string \<Rightarrow> observed_block list \<Rightarrow> observed_block list" where
  "of_net n = filter (\<lambda>b. ob_network b = n)"

definition keys_of_net :: "string \<Rightarrow> (string \<times> hex) list \<Rightarrow> (string \<times> hex) list" where
  "keys_of_net n = filter (\<lambda>k. fst k = n)"

lemmas hold_defs = ckpt_hold_def ckpt_saved_def disp_blocks_def disp_fails_def retry_blocks_def
  retry_fails_def retry_buf_def fail_hold_def

lemma ok_blocks_simps [simp]:
  "ok_blocks n [] = []" "ok_blocks n (xs @ ys) = ok_blocks n xs @ ok_blocks n ys"
  "ok_blocks n (ev # xs) =
     (if ev_err ev = None then [\<lparr>ob_network = n, ob_block = ev_block ev\<rparr>] else []) @ ok_blocks n xs"
  by (simp_all add: ok_blocks_def)

lemma failed_keys_simps [simp]:
  "failed_keys n [] = []" "failed_keys n (xs @ ys) = failed_keys n xs @ failed_keys n ys"
  "failed_keys n (ev # xs) = (if ev_err ev = None then [] else [(n, ev_height ev)]) @ failed_keys n xs"
  by (simp_all add: failed_keys_def)

lemma of_net_simps [simp]:
  "of_net n [] = []" "of_net n (xs @ ys) = of_net n xs @ of_net n ys"
  "of_net n (b # xs) = (if ob_network b = n then [b] else []) @ of_net n xs"
  by (simp_all add: of_net_def)

lemma keys_of_net_simps [simp]:
  "keys_of_net n [] = []" "keys_of_net n (xs @ ys) = keys_of_net n xs @ keys_of_net n ys"
  "keys_of_net n (k # xs) = (if fst k = n then [k] else []) @ keys_of_net n xs"
  by (simp_all add: keys_of_net_def)

section \<open>Open channels\<close>

definition all_open :: "cs_state \<Rightarrow> bool" where
  "all_open s \<longleftrightarrow>
     (\<forall>c. st_retry_ch s = Some c \<longrightarrow> \<not> ch_closed c) \<and> \<not> ch_closed (st_fail_ch s) \<and>
     \<not> ch_closed (st_pre_ch s) \<and> \<not> ch_closed (st_out_ch s)"

text \<open>Until \<^verbatim>\<open>Close\<close> begins, all channels are open, and nothing that the service does itself panics.\<close>

definition open_inv :: "cs_state \<Rightarrow> bool" where
  "open_inv s \<longleftrightarrow> (st_closing s = None \<longrightarrow> all_open s)"

text \<open>
  Until the context is done, \<^verbatim>\<open>Close\<close> has not begun, no goroutine has returned, and the events
  channels are open.
\<close>

definition running_inv :: "cs_state \<Rightarrow> bool" where
  "running_inv s \<longleftrightarrow>
     (\<not> st_done s \<longrightarrow> st_closing s = None \<and> (\<forall>n. \<not> ch_closed (st_events s n)) \<and>
        (\<forall>n. st_disp s n \<noteq> DispExit) \<and> st_retry s \<noteq> RetryExit \<and> st_ckpt s \<noteq> CkptExit \<and>
        st_fail s \<noteq> FailExit)"

text \<open>A dispatcher holds items of its own network only; without retry its goroutine is idle.\<close>

definition tag_inv :: "cs_state \<Rightarrow> bool" where
  "tag_inv s \<longleftrightarrow>
     (\<forall>n b. st_disp s n = DispSendBlk b \<longrightarrow> ob_network b = n) \<and>
     (\<forall>n f. st_disp s n = DispSendErr f \<longrightarrow> df_network f = n) \<and>
     (\<forall>f b. st_retry s = RetrySend f b \<longrightarrow> ob_network b = df_network f) \<and>
     (st_retry_ch s = None \<longrightarrow> st_retry s = RetryRecv)"

lemma dispatch_event_simps [simp]:
  "dispatch_event n ev \<noteq> DispExit" "dispatch_event n ev \<noteq> DispRecv"
  "dispatch_event n ev = DispSendBlk b \<longleftrightarrow>
     ev_err ev = None \<and> b = \<lparr>ob_network = n, ob_block = ev_block ev\<rparr>"
  "dispatch_event n ev = DispSendErr f \<longleftrightarrow>
     (\<exists>e. ev_err ev = Some e \<and> f = \<lparr>df_network = n, df_height = ev_height ev, df_errors = [e]\<rparr>)"
  by (auto simp: dispatch_event_def split: option.splits)

lemma set_disp_simps [simp]:
  "st_disp (set_disp n pc s) = (st_disp s)(n := pc)"
  "st_done (set_disp n pc s) = st_done s" "st_panic (set_disp n pc s) = st_panic s"
  "st_closing (set_disp n pc s) = st_closing s" "st_events (set_disp n pc s) = st_events s"
  "st_retry_ch (set_disp n pc s) = st_retry_ch s" "st_fail_ch (set_disp n pc s) = st_fail_ch s"
  "st_pre_ch (set_disp n pc s) = st_pre_ch s" "st_out_ch (set_disp n pc s) = st_out_ch s"
  "st_retry (set_disp n pc s) = st_retry s" "st_ckpt (set_disp n pc s) = st_ckpt s"
  "st_fail (set_disp n pc s) = st_fail s" "st_emitted (set_disp n pc s) = st_emitted s"
  "st_recovered (set_disp n pc s) = st_recovered s" "st_resolved (set_disp n pc s) = st_resolved s"
  "st_saved (set_disp n pc s) = st_saved s" "st_notified (set_disp n pc s) = st_notified s"
  "st_delivered (set_disp n pc s) = st_delivered s"
  by (simp_all add: set_disp_def)

lemma after_execute_simps [simp]:
  "st_disp (after_execute f r s) = st_disp s"
  "st_done (after_execute f r s) = st_done s" "st_panic (after_execute f r s) = st_panic s"
  "st_closing (after_execute f r s) = st_closing s" "st_events (after_execute f r s) = st_events s"
  "st_retry_ch (after_execute f r s) = st_retry_ch s" "st_fail_ch (after_execute f r s) = st_fail_ch s"
  "st_pre_ch (after_execute f r s) = st_pre_ch s" "st_out_ch (after_execute f r s) = st_out_ch s"
  "st_ckpt (after_execute f r s) = st_ckpt s"
  "st_fail (after_execute f r s) = st_fail s" "st_emitted (after_execute f r s) = st_emitted s"
  "st_recovered (after_execute f r s) = st_recovered s"
  "st_saved (after_execute f r s) = st_saved s" "st_notified (after_execute f r s) = st_notified s"
  "st_delivered (after_execute f r s) = st_delivered s"
  by (simp_all add: after_execute_def split: option.splits)

lemma after_execute_retry:
  "st_retry (after_execute f r s) =
     (case r of None \<Rightarrow> RetryRecv | Some es \<Rightarrow> RetryForward (f\<lparr>df_errors := df_errors f @ es\<rparr>))"
  "st_resolved (after_execute f r s) = st_resolved s @ (case r of None \<Rightarrow> [f] | Some _ \<Rightarrow> [])"
  by (simp_all add: after_execute_def split: option.splits)

text \<open>
  The rule by which an invariant is proved: it holds at the start and every kind of step keeps it.
\<close>

lemma cs_reachable_invariant:
  assumes reach: "cs_reachable P has_retry cap s"
    and known: "\<And>s. cs_reachable P has_retry cap s \<Longrightarrow> J s"
    and init: "I (cs_init has_retry cap)"
    and disp: "\<And>s s' n. J s \<Longrightarrow> I s \<Longrightarrow> \<not> st_panic s \<Longrightarrow> n \<in> set (p_networks P) \<Longrightarrow> s' \<in> set (disp_steps n s) \<Longrightarrow> I s'"
    and retry: "\<And>s s' answer. J s \<Longrightarrow> I s \<Longrightarrow> \<not> st_panic s \<Longrightarrow> s' \<in> set (retry_steps P answer s) \<Longrightarrow> I s'"
    and ckpt: "\<And>s s'. J s \<Longrightarrow> I s \<Longrightarrow> \<not> st_panic s \<Longrightarrow> s' \<in> set (ckpt_steps P s) \<Longrightarrow> I s'"
    and fail: "\<And>s s'. J s \<Longrightarrow> I s \<Longrightarrow> \<not> st_panic s \<Longrightarrow> s' \<in> set (fail_steps s) \<Longrightarrow> I s'"
    and consume: "\<And>s b bs. J s \<Longrightarrow> I s \<Longrightarrow> \<not> st_panic s \<Longrightarrow> ch_buf (st_out_ch s) = b # bs \<Longrightarrow>
      I (s\<lparr>st_out_ch := (st_out_ch s)\<lparr>ch_buf := bs\<rparr>, st_delivered := st_delivered s @ [b]\<rparr>)"
    and emit: "\<And>s s' n ev. J s \<Longrightarrow> I s \<Longrightarrow> \<not> st_panic s \<Longrightarrow> n \<in> set (p_networks P) \<Longrightarrow> s' \<in> set (emit_steps n ev s) \<Longrightarrow> I s'"
    and end_sub: "\<And>s s' n. J s \<Longrightarrow> I s \<Longrightarrow> \<not> st_panic s \<Longrightarrow> s' \<in> set (end_subscription_steps n s) \<Longrightarrow> I s'"
    and cancel: "\<And>s. J s \<Longrightarrow> I s \<Longrightarrow> \<not> st_panic s \<Longrightarrow> I (s\<lparr>st_done := True\<rparr>)"
    and close: "\<And>s. J s \<Longrightarrow> I s \<Longrightarrow> \<not> st_panic s \<Longrightarrow> st_closing s = None \<Longrightarrow> I (close_begin s)"
    and closing: "\<And>s s'. J s \<Longrightarrow> I s \<Longrightarrow> \<not> st_panic s \<Longrightarrow> s' \<in> set (close_steps s) \<Longrightarrow> I s'"
  shows "I s"
  using reach
proof (induction rule: cs_reachable.induct)
  case init
  show ?case by (rule assms(3))
next
  case (step s s')
  from step.hyps(2) show ?case
  proof (cases rule: cs_step.cases)
    case work
    then show ?thesis
    proof (cases rule: work_step.cases)
      case (dispatch n)
      then show ?thesis using disp step.IH known [OF step.hyps(1)] by blast
    next
      case (retry answer)
      then show ?thesis using assms(5) step.IH known [OF step.hyps(1)] by blast
    next
      case checkpoint
      then show ?thesis using ckpt step.IH known [OF step.hyps(1)] by blast
    next
      case failures
      then show ?thesis using fail step.IH known [OF step.hyps(1)] by blast
    next
      case consume
      then show ?thesis using assms(8) step.IH known [OF step.hyps(1)] by (auto simp: consume_steps_iff)
    qed
  next
    case (emit n ev)
    then show ?thesis using assms(9) step.IH known [OF step.hyps(1)] by blast
  next
    case (end_subscription n)
    then show ?thesis using end_sub step.IH known [OF step.hyps(1)] by blast
  next
    case cancel
    then show ?thesis using assms(11) step.IH known [OF step.hyps(1)] by blast
  next
    case close
    then show ?thesis using assms(12) step.IH known [OF step.hyps(1)] by blast
  next
    case closing
    then show ?thesis using assms(13) step.IH known [OF step.hyps(1)] by blast
  qed
qed

subsection \<open>Channels stay open until Close\<close>

lemma open_inv_disp: "open_inv s \<Longrightarrow> s' \<in> set (disp_steps n s) \<Longrightarrow> open_inv s'"
  by (erule disp_steps_cases) (auto simp: open_inv_def all_open_def)

lemma open_inv_retry: "open_inv s \<Longrightarrow> s' \<in> set (retry_steps P answer s) \<Longrightarrow> open_inv s'"
  by (erule retry_steps_cases) (auto simp: open_inv_def all_open_def)

lemma open_inv_ckpt: "open_inv s \<Longrightarrow> s' \<in> set (ckpt_steps P s) \<Longrightarrow> open_inv s'"
  by (erule ckpt_steps_cases) (auto simp: open_inv_def all_open_def)

lemma open_inv_fail: "open_inv s \<Longrightarrow> s' \<in> set (fail_steps s) \<Longrightarrow> open_inv s'"
  by (erule fail_steps_cases) (auto simp: open_inv_def all_open_def)

lemma running_inv_disp: "running_inv s \<Longrightarrow> s' \<in> set (disp_steps n s) \<Longrightarrow> running_inv s'"
  by (erule disp_steps_cases) (auto simp: running_inv_def)

lemma running_inv_retry: "running_inv s \<Longrightarrow> open_inv s \<Longrightarrow> s' \<in> set (retry_steps P answer s) \<Longrightarrow> running_inv s'"
  by (erule retry_steps_cases)
     (auto simp: running_inv_def open_inv_def all_open_def after_execute_retry split: option.splits)

lemma running_inv_ckpt: "running_inv s \<Longrightarrow> open_inv s \<Longrightarrow> s' \<in> set (ckpt_steps P s) \<Longrightarrow> running_inv s'"
  by (erule ckpt_steps_cases) (auto simp: running_inv_def open_inv_def all_open_def)

lemma running_inv_fail: "running_inv s \<Longrightarrow> open_inv s \<Longrightarrow> s' \<in> set (fail_steps s) \<Longrightarrow> running_inv s'"
  by (erule fail_steps_cases) (auto simp: running_inv_def open_inv_def all_open_def)

definition base_inv :: "cs_state \<Rightarrow> bool" where
  "base_inv s \<longleftrightarrow> open_inv s \<and> running_inv s \<and> tag_inv s"

lemma tag_inv_disp: "tag_inv s \<Longrightarrow> s' \<in> set (disp_steps n s) \<Longrightarrow> tag_inv s'"
  by (erule disp_steps_cases) (auto simp: tag_inv_def)

lemma tag_inv_retry: "tag_inv s \<Longrightarrow> s' \<in> set (retry_steps P answer s) \<Longrightarrow> tag_inv s'"
  by (erule retry_steps_cases) (auto simp: tag_inv_def after_execute_retry split: option.splits)

lemma tag_inv_ckpt: "tag_inv s \<Longrightarrow> s' \<in> set (ckpt_steps P s) \<Longrightarrow> tag_inv s'"
  by (erule ckpt_steps_cases) (auto simp: tag_inv_def)

lemma tag_inv_fail: "tag_inv s \<Longrightarrow> s' \<in> set (fail_steps s) \<Longrightarrow> tag_inv s'"
  by (erule fail_steps_cases) (auto simp: tag_inv_def)

lemma base_inv_reachable: "cs_reachable P has_retry cap s \<Longrightarrow> base_inv s"
proof (erule cs_reachable_invariant [where J = "\<lambda>_. True"],
    goal_cases known init disp retry ckpt fail consume emit end_sub cancel close closing)
  case known
  show ?case by simp
next
  case init
  show ?case by (simp add: base_inv_def open_inv_def all_open_def running_inv_def tag_inv_def cs_init_def)
next
  case (disp s s' n)
  then show ?case unfolding base_inv_def by (blast intro: open_inv_disp running_inv_disp tag_inv_disp)
next
  case (retry s s' answer)
  then show ?case unfolding base_inv_def by (blast intro: open_inv_retry running_inv_retry tag_inv_retry)
next
  case (ckpt s s')
  then show ?case unfolding base_inv_def by (blast intro: open_inv_ckpt running_inv_ckpt tag_inv_ckpt)
next
  case (fail s s')
  then show ?case unfolding base_inv_def by (blast intro: open_inv_fail running_inv_fail tag_inv_fail)
next
  case (consume s b bs)
  then show ?case by (auto simp: base_inv_def open_inv_def all_open_def running_inv_def tag_inv_def)
next
  case (emit s s' n ev)
  then show ?case
    by (auto simp: emit_steps_iff base_inv_def open_inv_def all_open_def running_inv_def tag_inv_def)
next
  case (end_sub s s' n)
  then show ?case
    by (auto simp: end_subscription_steps_iff base_inv_def open_inv_def all_open_def running_inv_def tag_inv_def)
next
  case (cancel s)
  then show ?case by (simp add: base_inv_def open_inv_def all_open_def running_inv_def tag_inv_def)
next
  case (close s)
  then show ?case by (simp add: close_begin_def base_inv_def open_inv_def running_inv_def tag_inv_def)
next
  case (closing s s')
  then show ?case
    using close_steps_frame [OF closing(4)]
    by (auto simp: base_inv_def open_inv_def running_inv_def tag_inv_def)
qed

subsection \<open>No panic before Close\<close>

definition no_panic_inv :: "cs_params \<Rightarrow> cs_state \<Rightarrow> bool" where
  "no_panic_inv P s \<longleftrightarrow>
     (st_closing s = None \<and> \<not> p_exec_panics P \<and> (\<forall>h. \<not> p_save_panics P h) \<longrightarrow> \<not> st_panic s)"

lemma no_panic_inv_reachable: "cs_reachable P has_retry cap s \<Longrightarrow> no_panic_inv P s"
proof (erule cs_reachable_invariant [where J = base_inv],
    goal_cases known init disp retry ckpt fail consume emit end_sub cancel close closing)
  case (known s)
  then show ?case by (rule base_inv_reachable)
next
  case (disp s s' n)
  from disp(5) show ?case
    by (cases rule: disp_steps_cases)
       (use disp(1-3) in \<open>auto simp: no_panic_inv_def base_inv_def open_inv_def all_open_def\<close>)
next
  case (retry s s' answer)
  from retry(4) show ?case
    by (cases rule: retry_steps_cases)
       (use retry(1-3) in \<open>auto simp: no_panic_inv_def base_inv_def open_inv_def all_open_def\<close>)
next
  case (ckpt s s')
  from ckpt(4) show ?case
    by (cases rule: ckpt_steps_cases)
       (use ckpt(1-3) in \<open>auto simp: no_panic_inv_def base_inv_def open_inv_def all_open_def\<close>)
next
  case (fail s s')
  from fail(4) show ?case
    by (cases rule: fail_steps_cases) (use fail(1-3) in \<open>auto simp: no_panic_inv_def\<close>)
next
  case (closing s s')
  then show ?case using close_steps_frame [OF closing(4)] by (auto simp: no_panic_inv_def)
qed (auto simp: no_panic_inv_def cs_init_def emit_steps_iff end_subscription_steps_iff close_begin_def)

subsection \<open>The checkpoint log and the output\<close>

definition saved_inv :: "cs_state \<Rightarrow> bool" where
  "saved_inv s \<longleftrightarrow>
     st_saved s = map block_key (st_delivered s @ ch_buf (st_out_ch s) @ ckpt_saved s) \<or>
     (st_ckpt s = CkptExit \<and>
        (\<exists>b. st_saved s = map block_key (st_delivered s @ ch_buf (st_out_ch s) @ [b])))"

lemma saved_inv_reachable: "cs_reachable P has_retry cap s \<Longrightarrow> saved_inv s"
proof (erule cs_reachable_invariant [where J = base_inv],
    goal_cases known init disp retry ckpt fail consume emit end_sub cancel close closing)
  case (known s)
  then show ?case by (rule base_inv_reachable)
next
  case (disp s s' n)
  from disp(5) show ?case
    by (cases rule: disp_steps_cases) (use disp(2) in \<open>auto simp: saved_inv_def ckpt_saved_def\<close>)
next
  case (retry s s' answer)
  from retry(4) show ?case
    by (cases rule: retry_steps_cases) (use retry(2) in \<open>auto simp: saved_inv_def ckpt_saved_def\<close>)
next
  case (ckpt s s')
  from ckpt(4) show ?case
    by (cases rule: ckpt_steps_cases)
       (use ckpt(2) in \<open>auto simp: saved_inv_def ckpt_saved_def block_key_def\<close>)
next
  case (fail s s')
  from fail(4) show ?case
    by (cases rule: fail_steps_cases) (use fail(2) in \<open>auto simp: saved_inv_def ckpt_saved_def\<close>)
next
  case (closing s s')
  then show ?case using close_steps_frame [OF closing(4)] by (simp add: saved_inv_def ckpt_saved_def)
qed (auto simp: saved_inv_def ckpt_saved_def cs_init_def emit_steps_iff end_subscription_steps_iff close_begin_def)

subsection \<open>The order of blocks\<close>

text \<open>
  Without retry a network's blocks stand in line, from the consumer back to the client, in the
  order of emission. What a goroutine drops when it returns keeps its place in the line: \<open>lost\<close> is
  what \<^verbatim>\<open>checkpointAndForward\<close> dropped, after its checkpoint, and \<open>late\<close> what the dispatcher dropped.
\<close>

definition in_line :: "observed_block list \<Rightarrow> observed_block list \<Rightarrow> string \<Rightarrow> cs_state \<Rightarrow> bool" where
  "in_line lost late n s \<longleftrightarrow>
     (lost = [] \<or> st_ckpt s = CkptExit) \<and> (late = [] \<or> st_disp s n = DispExit) \<and>
     st_saved s = map block_key (st_delivered s @ ch_buf (st_out_ch s) @ ckpt_saved s @ lost) \<and>
     of_net n (st_delivered s @ ch_buf (st_out_ch s) @ ckpt_hold s @ lost @ ch_buf (st_pre_ch s)) @
       disp_blocks n s @ late @ ok_blocks n (ch_buf (st_events s n)) = ok_blocks n (st_emitted s n)"

definition order_inv :: "string \<Rightarrow> cs_state \<Rightarrow> bool" where
  "order_inv n s \<longleftrightarrow> (st_retry_ch s = None \<longrightarrow> (\<exists>lost late. in_line lost late n s))"

lemmas in_line_defs = in_line_def ckpt_hold_def ckpt_saved_def disp_blocks_def

lemma in_line_disp:
  assumes "in_line lost late n s" and "tag_inv s" and "st_retry_ch s = None" and "s' \<in> set (disp_steps m s)"
  shows "in_line lost ((if st_disp s' n = DispExit then disp_blocks n s else []) @ late) n s'"
  using assms(4)
proof (cases rule: disp_steps_cases)
  case exit
  with assms(1,2) show ?thesis
    by (cases "m = n") (auto simp: in_line_defs tag_inv_def split: disp_pc.splits)
next
  case (event ev xs)
  with assms(1,2) show ?thesis
    by (cases "m = n"; cases "ev_err ev")
       (auto simp: in_line_defs dispatch_event_def split: disp_pc.splits)
next
  case (sent_block b)
  with assms(1,2) show ?thesis
    by (cases "m = n") (auto simp: in_line_defs tag_inv_def split: disp_pc.splits)
qed (use assms in \<open>auto simp: in_line_defs split: disp_pc.splits\<close>)

lemma in_line_ckpt:
  assumes "in_line lost late n s" and "s' \<in> set (ckpt_steps P s)"
  shows "\<exists>lost. in_line lost late n s'"
  using assms(2)
proof (cases rule: ckpt_steps_cases)
  case (dropped b)
  with assms(1) have "in_line [b] late n s'" by (auto simp: in_line_defs)
  then show ?thesis ..
qed (use assms(1) in \<open>auto simp: in_line_defs block_key_def intro!: exI [of _ lost]\<close>)

lemma order_inv_reachable: "cs_reachable P has_retry cap s \<Longrightarrow> order_inv n s"
proof (erule cs_reachable_invariant [where J = base_inv],
    goal_cases known init disp retry ckpt fail consume emit end_sub cancel close closing)
  case (known s)
  then show ?case by (rule base_inv_reachable)
next
  case init
  show ?case by (auto simp: order_inv_def in_line_defs cs_init_def)
next
  case (disp s s' m)
  have "st_retry_ch s = None" if "st_retry_ch s' = None"
    using disp(5) by (cases rule: disp_steps_cases) (use that in auto)
  moreover have "tag_inv s" using disp(1) by (simp add: base_inv_def)
  ultimately show ?case using disp(2,5) in_line_disp unfolding order_inv_def by meson
next
  case (retry s s' answer)
  from retry(4) show ?case
    by (cases rule: retry_steps_cases) (use retry(2) in \<open>auto simp: order_inv_def in_line_defs\<close>)
next
  case (ckpt s s')
  have "st_retry_ch s = None" if "st_retry_ch s' = None"
    using ckpt(4) by (cases rule: ckpt_steps_cases) (use that in auto)
  with ckpt(2,4) in_line_ckpt show ?case unfolding order_inv_def by meson
next
  case (fail s s')
  from fail(4) show ?case
    by (cases rule: fail_steps_cases) (use fail(2) in \<open>auto simp: order_inv_def in_line_defs\<close>)
next
  case (consume s b bs)
  then show ?case by (auto simp: order_inv_def in_line_defs)
next
  case (emit s s' m ev)
  then show ?case by (auto simp: emit_steps_iff order_inv_def in_line_defs)
next
  case (closing s s')
  have "st_retry_ch s = None" if "st_retry_ch s' = None"
    using close_steps_frame [OF closing(4)] that by auto
  then show ?case using closing(2) close_steps_frame [OF closing(4)] by (auto simp: order_inv_def in_line_defs)
qed (auto simp: order_inv_def in_line_defs end_subscription_steps_iff close_begin_def)

text \<open>So what was delivered, and what was saved, is a prefix of what was emitted.\<close>

lemma of_net_keys: "keys_of_net n (map block_key bs) = map block_key (of_net n bs)"
  by (induction bs) (auto simp: block_key_def)

lemma delivered_in_line:
  assumes "cs_reachable P has_retry cap s" and "st_retry_ch s = None"
  shows "\<exists>extra rest. of_net n (st_delivered s) @ extra @ rest = ok_blocks n (st_emitted s n) \<and>
           keys_of_net n (st_saved s) = map block_key (of_net n (st_delivered s) @ extra)"
proof -
  obtain lost late where l: "in_line lost late n s"
    using order_inv_reachable [OF assms(1), of n] assms(2) by (auto simp: order_inv_def)
  let ?extra = "of_net n (ch_buf (st_out_ch s) @ ckpt_saved s @ lost)"
  have keys: "keys_of_net n (st_saved s) = map block_key (of_net n (st_delivered s) @ ?extra)"
    using l by (simp add: in_line_def of_net_keys)
  have "ckpt_hold s = ckpt_saved s \<or> ckpt_saved s = [] \<and> lost = []"
    using l by (auto simp: in_line_defs split: ckpt_pc.splits)
  then have "\<exists>rest. of_net n (st_delivered s) @ ?extra @ rest = ok_blocks n (st_emitted s n)"
    using l by (auto simp: in_line_def)
  with keys show ?thesis by blast
qed

text \<open>Only registered networks emit.\<close>

lemma emitted_registered:
  "cs_reachable P has_retry cap s \<Longrightarrow> n \<notin> set (p_networks P) \<Longrightarrow> st_emitted s n = []"
proof (erule cs_reachable_invariant [where J = "\<lambda>_. True"],
    goal_cases known init disp retry ckpt fail consume emit end_sub cancel close closing)
  case (disp s s' m)
  then show ?case by (auto elim: disp_steps_cases)
next
  case (retry s s' answer)
  then show ?case by (auto elim: retry_steps_cases)
next
  case (ckpt s s')
  then show ?case by (auto elim: ckpt_steps_cases)
next
  case (fail s s')
  then show ?case by (auto elim: fail_steps_cases)
next
  case (closing s s')
  then show ?case using close_steps_frame by metis
qed (auto simp: cs_init_def emit_steps_iff end_subscription_steps_iff close_begin_def)

text \<open>A service that was started without retry has no retry channel.\<close>

lemma no_retry_channel: "cs_reachable P False cap s \<Longrightarrow> st_retry_ch s = None"
proof (erule cs_reachable_invariant [where J = "\<lambda>_. True"],
    goal_cases known init disp retry ckpt fail consume emit end_sub cancel close closing)
  case (disp s s' m)
  from disp(5) show ?case by (cases rule: disp_steps_cases) (use disp(2) in auto)
next
  case (retry s s' answer)
  then show ?case by (auto elim: retry_steps_cases)
next
  case (ckpt s s')
  from ckpt(4) show ?case by (cases rule: ckpt_steps_cases) (use ckpt(2) in auto)
next
  case (fail s s')
  from fail(4) show ?case by (cases rule: fail_steps_cases) (use fail(2) in auto)
next
  case (closing s s')
  from close_steps_frame [OF closing(4)] closing(2) show ?case by simp
qed (auto simp: cs_init_def emit_steps_iff end_subscription_steps_iff close_begin_def)

section \<open>What is left to be closed\<close>

text \<open>The channel that a step of \<^verbatim>\<open>closeFunc\<close> closes.\<close>

fun closed :: "closer \<Rightarrow> cs_state \<Rightarrow> bool" where
  "closed CloseBlocks s \<longleftrightarrow> ch_closed (st_pre_ch s)"
| "closed CloseOut s \<longleftrightarrow> ch_closed (st_out_ch s)"
| "closed CloseRetry s \<longleftrightarrow> (\<exists>c. st_retry_ch s = Some c \<and> ch_closed c)"
| "closed CloseFailures s \<longleftrightarrow> ch_closed (st_fail_ch s)"

text \<open>
  Until \<^verbatim>\<open>Close\<close>, no channel is closed; from then on the channels still to be closed are open, and each of them occurs
  once: no channel is closed twice.
\<close>

definition closing_inv :: "cs_state \<Rightarrow> bool" where
  "closing_inv s \<longleftrightarrow>
     (case st_closing s of
        None \<Rightarrow> all_open s
      | Some cs \<Rightarrow> distinct cs \<and> (\<forall>c \<in> set cs. \<not> closed c s) \<and> (CloseRetry \<in> set cs \<longrightarrow> st_retry_ch s \<noteq> None))"

lemma all_open_closed: "all_open s \<longleftrightarrow> (\<forall>c. \<not> closed c s)"
proof
  assume "\<forall>c. \<not> closed c s"
  then have "\<not> closed CloseBlocks s" "\<not> closed CloseOut s" "\<not> closed CloseRetry s" "\<not> closed CloseFailures s" by blast+
  then show "all_open s" by (simp add: all_open_def)
next
  assume "all_open s"
  then show "\<forall>c. \<not> closed c s" by (intro allI, case_tac c) (auto simp: all_open_def)
qed

text \<open>Only \<^verbatim>\<open>closeFunc\<close> closes channels.\<close>

definition flags :: "cs_state \<Rightarrow> bool option \<times> bool \<times> bool \<times> bool \<times> closer list option" where
  "flags s =
     (map_option ch_closed (st_retry_ch s), ch_closed (st_fail_ch s), ch_closed (st_pre_ch s), ch_closed (st_out_ch s),
      st_closing s)"

lemma work_flags: "work_step P s s' \<Longrightarrow> flags s' = flags s"
proof (induction rule: work_step.induct)
  case (dispatch s n s')
  from dispatch(3) show ?case by (cases rule: disp_steps_cases) (auto simp: flags_def)
next
  case (retry s s' answer)
  from retry(2) show ?case by (cases rule: retry_steps_cases) (auto simp: flags_def)
next
  case (checkpoint s s')
  from checkpoint(2) show ?case by (cases rule: ckpt_steps_cases) (auto simp: flags_def)
next
  case (failures s s')
  from failures(2) show ?case by (cases rule: fail_steps_cases) (auto simp: flags_def)
qed (auto simp: flags_def consume_steps_iff)

lemma flags_closed: "flags s' = flags s \<Longrightarrow> closed c s' = closed c s"
  by (cases c; cases "st_retry_ch s"; cases "st_retry_ch s'") (auto simp: flags_def)

lemma flags_closing_inv: "flags s' = flags s \<Longrightarrow> closing_inv s' = closing_inv s"
proof -
  assume f: "flags s' = flags s"
  then have "st_closing s' = st_closing s" "st_retry_ch s' = None \<longleftrightarrow> st_retry_ch s = None"
    by (auto simp: flags_def)
  then show ?thesis by (cases "st_closing s") (simp_all add: closing_inv_def all_open_closed flags_closed [OF f])
qed

text \<open>A step of \<^verbatim>\<open>closeFunc\<close> closes one channel and does not panic.\<close>

lemma closing_step:
  assumes "closing_inv s" and "st_closing s = Some (c # cs)"
  obtains s' where "close_steps s = [s']" "st_closing s' = Some cs" "st_panic s' = st_panic s"
    "\<And>d. closed d s' \<longleftrightarrow> d = c \<or> closed d s" "st_retry_ch s' = None \<longleftrightarrow> st_retry_ch s = None"
proof -
  have fresh: "\<not> closed c s" "c = CloseRetry \<Longrightarrow> st_retry_ch s \<noteq> None" using assms by (auto simp: closing_inv_def)
  show thesis
  proof (cases c)
    case CloseRetry
    with fresh obtain r where "st_retry_ch s = Some r" "\<not> ch_closed r" by auto
    with CloseRetry assms(2) show thesis
      by (intro that [of "s\<lparr>st_retry_ch := Some (r\<lparr>ch_closed := True\<rparr>), st_closing := Some cs\<rparr>"])
         (simp_all add: close_steps_def, case_tac d, simp_all)
  next
    case CloseBlocks
    with fresh assms(2) show thesis
      by (intro that [of "s\<lparr>st_pre_ch := (st_pre_ch s)\<lparr>ch_closed := True\<rparr>, st_closing := Some cs\<rparr>"])
         (simp_all add: close_steps_def, case_tac d, simp_all)
  next
    case CloseOut
    with fresh assms(2) show thesis
      by (intro that [of "s\<lparr>st_out_ch := (st_out_ch s)\<lparr>ch_closed := True\<rparr>, st_closing := Some cs\<rparr>"])
         (simp_all add: close_steps_def, case_tac d, simp_all)
  next
    case CloseFailures
    with fresh assms(2) show thesis
      by (intro that [of "s\<lparr>st_fail_ch := (st_fail_ch s)\<lparr>ch_closed := True\<rparr>, st_closing := Some cs\<rparr>"])
         (simp_all add: close_steps_def, case_tac d, simp_all)
  qed
qed

lemma closing_inv_step:
  assumes "cs_step P s s'" and "closing_inv s"
  shows "closing_inv s'"
  using assms
proof (induction rule: cs_step.induct)
  case (work s s')
  then show ?case using flags_closing_inv [OF work_flags] by blast
next
  case (emit s n s' ev)
  then have "flags s' = flags s" by (auto simp: emit_steps_iff flags_def)
  with emit show ?case using flags_closing_inv by blast
next
  case (end_subscription s s' n)
  then have "flags s' = flags s" by (auto simp: end_subscription_steps_iff flags_def)
  with end_subscription show ?case using flags_closing_inv by blast
next
  case (cancel s)
  then show ?case using flags_closing_inv [of "s\<lparr>st_done := True\<rparr>" s] by (simp add: flags_def)
next
  case (close s)
  then have "all_open s" by (simp add: closing_inv_def)
  then show ?case by (auto simp: closing_inv_def close_begin_def all_open_def)
next
  case (closing s s')
  then obtain c cs where c: "st_closing s = Some (c # cs)"
    by (cases "st_closing s"; cases "the (st_closing s)") (simp_all add: close_steps_def)
  obtain s1 where s1: "close_steps s = [s1]" "st_closing s1 = Some cs"
    "\<And>d. closed d s1 \<longleftrightarrow> d = c \<or> closed d s" "st_retry_ch s1 = None \<longleftrightarrow> st_retry_ch s = None"
    using closing_step [OF closing.prems c] by metis
  have "s' = s1" using closing.hyps(2) s1(1) by simp
  moreover have "distinct (c # cs)" "\<forall>d \<in> set cs. \<not> closed d s" "CloseRetry \<in> set cs \<longrightarrow> st_retry_ch s \<noteq> None"
    using closing.prems c by (auto simp: closing_inv_def)
  ultimately show ?case using s1(2-4) by (auto simp: closing_inv_def)
qed

lemma closing_inv_reachable: "cs_reachable P has_retry cap s \<Longrightarrow> closing_inv s"
proof (induction rule: cs_reachable.induct)
  case init
  show ?case by (simp add: closing_inv_def cs_init_def all_open_def)
next
  case (step s s')
  then show ?case by (blast intro: closing_inv_step)
qed

end
