(* ===== verification/Pipeline_Live.thy ===== *)
theory Pipeline_Live
  imports Pipeline_Inv "HOL-Library.Multiset"
begin

text \<open>
  Conservation and progress of the running chainstream service. Every block and every failure that
  the clients emitted is at exactly one place; while the context is not done, each step of the
  goroutines and of the consumer takes the work left down, and some step is enabled until
  nothing is left.
\<close>

section \<open>Conservation of blocks\<close>

definition blocks_at :: "string \<Rightarrow> cs_state \<Rightarrow> observed_block multiset" where
  "blocks_at n s =
     mset (of_net n (st_delivered s)) + mset (of_net n (ch_buf (st_out_ch s))) +
     mset (of_net n (ckpt_hold s)) + mset (of_net n (ch_buf (st_pre_ch s))) +
     mset (of_net n (retry_blocks s)) + mset (disp_blocks n s) +
     mset (ok_blocks n (ch_buf (st_events s n)))"

definition blocks_in :: "string \<Rightarrow> cs_state \<Rightarrow> observed_block multiset" where
  "blocks_in n s = mset (ok_blocks n (st_emitted s n)) + mset (of_net n (st_recovered s))"

definition blocks_inv :: "string \<Rightarrow> cs_state \<Rightarrow> bool" where
  "blocks_inv n s \<longleftrightarrow>
     blocks_at n s \<subseteq># blocks_in n s \<and> (\<not> st_done s \<longrightarrow> blocks_at n s = blocks_in n s)"

text \<open>A step that moves a block keeps the invariant, and so does one that drops blocks after the end.\<close>

lemma blocks_inv_move:
  "blocks_inv n s \<Longrightarrow> blocks_at n s' = blocks_at n s \<Longrightarrow> blocks_in n s' = blocks_in n s \<Longrightarrow>
   (st_done s \<longrightarrow> st_done s') \<Longrightarrow> blocks_inv n s'"
  by (auto simp: blocks_inv_def)

lemma blocks_inv_add:
  "blocks_inv n s \<Longrightarrow> blocks_at n s' = blocks_at n s + A \<Longrightarrow> blocks_in n s' = blocks_in n s + A \<Longrightarrow>
   (st_done s \<longrightarrow> st_done s') \<Longrightarrow> blocks_inv n s'"
  by (auto simp: blocks_inv_def)

lemma blocks_inv_drop:
  "blocks_inv n s \<Longrightarrow> blocks_at n s = blocks_at n s' + A \<Longrightarrow> blocks_in n s' = blocks_in n s \<Longrightarrow>
   st_done s' \<Longrightarrow> blocks_inv n s'"
  by (auto simp: blocks_inv_def dest: mset_subset_eq_add_left [THEN subset_mset.order_trans, rotated])

lemmas blocks_defs = blocks_at_def blocks_in_def ckpt_hold_def retry_blocks_def disp_blocks_def

lemma blocks_disp:
  assumes step: "s' \<in> set (disp_steps m s)" and inv: "blocks_inv n s" and tag: "tag_inv s"
    and base: "running_inv s"
  shows "blocks_inv n s'"
  using step
proof (cases rule: disp_steps_cases)
  case exit
  show ?thesis
  proof (cases "st_done s")
    case True
    show ?thesis
      by (rule blocks_inv_drop [OF inv, where A = "if m = n then mset (disp_blocks n s) else {#}"])
         (auto simp: exit blocks_defs True)
  next
    case False
    with exit base show ?thesis by (auto simp: running_inv_def)
  qed
next
  case (event ev xs)
  show ?thesis
    by (rule blocks_inv_move [OF inv])
       (auto simp: event(1,3) blocks_defs event(2) dispatch_event_def split: option.splits)
next
  case (sent_retry f c)
  show ?thesis by (rule blocks_inv_move [OF inv]) (auto simp: sent_retry(1,5) blocks_defs)
next
  case (sent_failure f)
  show ?thesis by (rule blocks_inv_move [OF inv]) (auto simp: sent_failure(1,5) blocks_defs)
next
  case (sent_block b)
  have net: "ob_network b = m" using tag sent_block(1) by (simp add: tag_inv_def)
  show ?thesis
    using sent_block(1)
    by (intro blocks_inv_move [OF inv]; cases "m = n") (simp_all add: sent_block(4) net blocks_defs)
next
  case panic
  show ?thesis by (rule blocks_inv_move [OF inv]) (simp_all add: panic(1) blocks_defs)
qed

lemma blocks_retry:
  assumes step: "s' \<in> set (retry_steps P answer s)" and inv: "blocks_inv n s" and base: "base_inv s"
  shows "blocks_inv n s'"
  using step
proof (cases rule: retry_steps_cases)
  case (exit c)
  then have "st_done s" using base by (auto simp: base_inv_def running_inv_def open_inv_def all_open_def)
  then show ?thesis
    by (intro blocks_inv_drop [OF inv, where A = "mset (of_net n (retry_blocks s))"])
       (simp_all add: exit blocks_defs)
next
  case (recv c f xs)
  show ?thesis by (rule blocks_inv_move [OF inv]) (simp_all add: recv(2,4) blocks_defs)
next
  case (fetched f b)
  show ?thesis
    by (rule blocks_inv_add [OF inv, where A = "mset (of_net n [\<lparr>ob_network = df_network f, ob_block = b\<rparr>])"])
       (simp_all add: fetched(1,5) blocks_defs)
next
  case (failed f es)
  show ?thesis
    by (rule blocks_inv_move [OF inv]) (simp_all add: failed(1,3) blocks_defs after_execute_retry)
next
  case (sent f b)
  show ?thesis
    by (rule blocks_inv_move [OF inv])
       (simp_all add: sent(1,5) blocks_defs after_execute_retry split: option.splits)
next
  case (cancelled f b)
  show ?thesis
    by (rule blocks_inv_drop [OF inv, where A = "mset (of_net n [b])"])
       (simp_all add: cancelled(1,3,4) blocks_defs after_execute_retry split: option.splits)
next
  case (forwarded f)
  show ?thesis by (rule blocks_inv_move [OF inv]) (simp_all add: forwarded(1,5) blocks_defs)
next
  case panic
  show ?thesis by (rule blocks_inv_move [OF inv]) (simp_all add: panic(1) blocks_defs)
qed

lemma blocks_ckpt:
  assumes step: "s' \<in> set (ckpt_steps P s)" and inv: "blocks_inv n s"
  shows "blocks_inv n s'"
  using step
proof (cases rule: ckpt_steps_cases)
  case exit
  show ?thesis by (rule blocks_inv_move [OF inv]) (simp_all add: exit(1,2) blocks_defs)
next
  case (recv b xs)
  show ?thesis by (rule blocks_inv_move [OF inv]) (simp_all add: recv blocks_defs)
next
  case (saved b)
  show ?thesis by (rule blocks_inv_move [OF inv]) (simp_all add: saved(1,3) blocks_defs)
next
  case (sent b)
  show ?thesis by (rule blocks_inv_move [OF inv]) (simp_all add: sent(1,4) blocks_defs)
next
  case (dropped b)
  show ?thesis
    by (rule blocks_inv_drop [OF inv, where A = "mset (of_net n [b])"]) (simp_all add: dropped blocks_defs)
next
  case panic
  show ?thesis by (rule blocks_inv_move [OF inv]) (simp_all add: panic(1) blocks_defs)
qed

lemma blocks_inv_reachable: "cs_reachable P has_retry cap s \<Longrightarrow> blocks_inv n s"
proof (erule cs_reachable_invariant [where J = base_inv],
    goal_cases known init disp retry ckpt fail consume emit end_sub cancel close closing)
  case (known s)
  then show ?case by (rule base_inv_reachable)
next
  case init
  show ?case by (simp add: blocks_inv_def blocks_defs cs_init_def)
next
  case (disp s s' m)
  then show ?case using blocks_disp [OF disp(5) disp(2)] by (simp add: base_inv_def)
next
  case (retry s s' answer)
  then show ?case by (blast intro: blocks_retry)
next
  case (ckpt s s')
  then show ?case by (blast intro: blocks_ckpt)
next
  case (fail s s')
  from fail(4) show ?case
    by (cases rule: fail_steps_cases) (auto intro: blocks_inv_move [OF fail(2)] simp: blocks_defs)
next
  case (consume s b bs)
  then show ?case by (intro blocks_inv_move [OF consume(2)]) (simp_all add: blocks_defs)
next
  case (emit s s' m ev)
  then show ?case
    by (intro blocks_inv_add [OF emit(2), where A = "if m = n then mset (ok_blocks n [ev]) else {#}"])
       (auto simp: emit_steps_iff blocks_defs)
next
  case (end_sub s s' m)
  then show ?case
    by (intro blocks_inv_move [OF end_sub(2)]) (auto simp: end_subscription_steps_iff blocks_defs)
next
  case (cancel s)
  then show ?case by (simp add: blocks_inv_def blocks_defs)
next
  case (close s)
  then show ?case by (simp add: blocks_inv_def blocks_defs close_begin_def)
next
  case (closing s s')
  then show ?case using close_steps_frame [OF closing(4)]
    by (intro blocks_inv_move [OF closing(2)]) (auto simp: blocks_defs)
qed

section \<open>Conservation of failures\<close>

definition fails_at :: "string \<Rightarrow> cs_state \<Rightarrow> (string \<times> hex) multiset" where
  "fails_at n s =
     mset (keys_of_net n (map fail_key (st_notified s))) + mset (keys_of_net n (map fail_key (st_resolved s))) +
     mset (keys_of_net n (map fail_key (fail_hold s))) +
     mset (keys_of_net n (map fail_key (ch_buf (st_fail_ch s)))) +
     mset (keys_of_net n (map fail_key (retry_fails s))) + mset (keys_of_net n (map fail_key (retry_buf s))) +
     mset (map fail_key (disp_fails n s)) + mset (failed_keys n (ch_buf (st_events s n)))"

definition fails_in :: "string \<Rightarrow> cs_state \<Rightarrow> (string \<times> hex) multiset" where
  "fails_in n s = mset (failed_keys n (st_emitted s n))"

definition fails_inv :: "string \<Rightarrow> cs_state \<Rightarrow> bool" where
  "fails_inv n s \<longleftrightarrow>
     fails_at n s \<subseteq># fails_in n s \<and> (\<not> st_done s \<longrightarrow> fails_at n s = fails_in n s)"

lemma fails_inv_move:
  "fails_inv n s \<Longrightarrow> fails_at n s' = fails_at n s \<Longrightarrow> fails_in n s' = fails_in n s \<Longrightarrow>
   (st_done s \<longrightarrow> st_done s') \<Longrightarrow> fails_inv n s'"
  by (auto simp: fails_inv_def)

lemma fails_inv_add:
  "fails_inv n s \<Longrightarrow> fails_at n s' = fails_at n s + A \<Longrightarrow> fails_in n s' = fails_in n s + A \<Longrightarrow>
   (st_done s \<longrightarrow> st_done s') \<Longrightarrow> fails_inv n s'"
  by (auto simp: fails_inv_def)

lemma fails_inv_drop:
  "fails_inv n s \<Longrightarrow> fails_at n s = fails_at n s' + A \<Longrightarrow> fails_in n s' = fails_in n s \<Longrightarrow>
   st_done s' \<Longrightarrow> fails_inv n s'"
  by (auto simp: fails_inv_def dest: mset_subset_eq_add_left [THEN subset_mset.order_trans, rotated])

lemmas fails_defs = fails_at_def fails_in_def fail_hold_def retry_fails_def retry_buf_def disp_fails_def
  fail_key_def

lemma fails_disp:
  assumes step: "s' \<in> set (disp_steps m s)" and inv: "fails_inv n s" and tag: "tag_inv s"
    and base: "running_inv s"
  shows "fails_inv n s'"
  using step
proof (cases rule: disp_steps_cases)
  case exit
  show ?thesis
  proof (cases "st_done s")
    case True
    show ?thesis
      by (rule fails_inv_drop [OF inv, where A = "if m = n then mset (map fail_key (disp_fails n s)) else {#}"])
         (auto simp: exit fails_defs True)
  next
    case False
    with exit base show ?thesis by (auto simp: running_inv_def)
  qed
next
  case (event ev xs)
  show ?thesis
    by (rule fails_inv_move [OF inv])
       (auto simp: event(1,3) fails_defs event(2) dispatch_event_def split: option.splits)
next
  case (sent_retry f c)
  have net: "df_network f = m" using tag sent_retry(1) by (simp add: tag_inv_def)
  show ?thesis
    using sent_retry(1)
    by (intro fails_inv_move [OF inv]; cases "m = n") (simp_all add: sent_retry(2,5) net fails_defs)
next
  case (sent_failure f)
  have net: "df_network f = m" using tag sent_failure(1) by (simp add: tag_inv_def)
  show ?thesis
    using sent_failure(1)
    by (intro fails_inv_move [OF inv]; cases "m = n") (simp_all add: sent_failure(2,5) net fails_defs)
next
  case (sent_block b)
  show ?thesis by (rule fails_inv_move [OF inv]) (auto simp: sent_block(1,4) fails_defs)
next
  case panic
  show ?thesis by (rule fails_inv_move [OF inv]) (simp_all add: panic(1) fails_defs)
qed

lemma fails_retry:
  assumes step: "s' \<in> set (retry_steps P answer s)" and inv: "fails_inv n s" and base: "base_inv s"
  shows "fails_inv n s'"
  using step
proof (cases rule: retry_steps_cases)
  case (exit c)
  then have "st_done s" using base by (auto simp: base_inv_def running_inv_def open_inv_def all_open_def)
  then show ?thesis
    by (intro fails_inv_drop [OF inv, where A = "mset (keys_of_net n (map fail_key (retry_fails s)))"])
       (simp_all add: exit fails_defs)
next
  case (recv c f xs)
  show ?thesis by (rule fails_inv_move [OF inv]) (simp_all add: recv fails_defs)
next
  case (fetched f b)
  show ?thesis by (rule fails_inv_move [OF inv]) (simp_all add: fetched(1,5) fails_defs)
next
  case (failed f es)
  show ?thesis
    by (rule fails_inv_move [OF inv]) (simp_all add: failed(1,3) fails_defs after_execute_retry)
next
  case (sent f b)
  show ?thesis
    by (rule fails_inv_move [OF inv])
       (simp_all add: sent(1,5) fails_defs after_execute_retry split: option.splits)
next
  case (cancelled f b)
  show ?thesis
    by (rule fails_inv_move [OF inv])
       (simp_all add: cancelled(1,4) fails_defs after_execute_retry split: option.splits)
next
  case (forwarded f)
  show ?thesis by (rule fails_inv_move [OF inv]) (simp_all add: forwarded(1,5) fails_defs)
next
  case panic
  show ?thesis by (rule fails_inv_move [OF inv]) (simp_all add: panic(1) fails_defs)
qed

lemma fails_fail:
  assumes step: "s' \<in> set (fail_steps s)" and inv: "fails_inv n s"
  shows "fails_inv n s'"
  using step
proof (cases rule: fail_steps_cases)
  case exit
  show ?thesis by (rule fails_inv_move [OF inv]) (simp_all add: exit(1,2) fails_defs)
next
  case (recv f xs)
  show ?thesis by (rule fails_inv_move [OF inv]) (simp_all add: recv fails_defs)
next
  case (notified f)
  show ?thesis by (rule fails_inv_move [OF inv]) (simp_all add: notified fails_defs)
qed

lemma fails_inv_reachable: "cs_reachable P has_retry cap s \<Longrightarrow> fails_inv n s"
proof (erule cs_reachable_invariant [where J = base_inv],
    goal_cases known init disp retry ckpt fail consume emit end_sub cancel close closing)
  case (known s)
  then show ?case by (rule base_inv_reachable)
next
  case init
  show ?case by (simp add: fails_inv_def fails_defs cs_init_def make_chan_def)
next
  case (disp s s' m)
  then show ?case using fails_disp [OF disp(5) disp(2)] by (simp add: base_inv_def)
next
  case (retry s s' answer)
  then show ?case by (blast intro: fails_retry)
next
  case (ckpt s s')
  from ckpt(4) show ?case
    by (cases rule: ckpt_steps_cases) (auto intro: fails_inv_move [OF ckpt(2)] simp: fails_defs)
next
  case (fail s s')
  then show ?case by (blast intro: fails_fail)
next
  case (consume s b bs)
  then show ?case by (intro fails_inv_move [OF consume(2)]) (simp_all add: fails_defs)
next
  case (emit s s' m ev)
  then show ?case
    by (intro fails_inv_add [OF emit(2), where A = "if m = n then mset (failed_keys n [ev]) else {#}"])
       (auto simp: emit_steps_iff fails_defs)
next
  case (end_sub s s' m)
  then show ?case
    by (intro fails_inv_move [OF end_sub(2)]) (auto simp: end_subscription_steps_iff fails_defs)
next
  case (cancel s)
  then show ?case by (simp add: fails_inv_def fails_defs)
next
  case (close s)
  then show ?case by (simp add: fails_inv_def fails_defs close_begin_def)
next
  case (closing s s')
  have "retry_buf s' = retry_buf s"
    using close_steps_frame [OF closing(4)]
    by (cases "st_retry_ch s"; cases "st_retry_ch s'") (auto simp: retry_buf_def)
  then show ?case using close_steps_frame [OF closing(4)]
    by (intro fails_inv_move [OF closing(2)]) (auto simp: fails_at_def fails_in_def fail_hold_def retry_fails_def disp_fails_def)
qed

section \<open>A retrier that never returns nil resolves nothing\<close>

definition resolved_inv :: "cs_params \<Rightarrow> cs_state \<Rightarrow> bool" where
  "resolved_inv P s \<longleftrightarrow> (p_ok_result P \<noteq> None \<longrightarrow> st_resolved s = [])"

lemma resolved_inv_reachable: "cs_reachable P has_retry cap s \<Longrightarrow> resolved_inv P s"
proof (erule cs_reachable_invariant [where J = base_inv],
    goal_cases known init disp retry ckpt fail consume emit end_sub cancel close closing)
  case (known s)
  then show ?case by (rule base_inv_reachable)
next
  case (disp s s' m)
  from disp(5) show ?case by (cases rule: disp_steps_cases) (use disp(2) in \<open>auto simp: resolved_inv_def\<close>)
next
  case (retry s s' answer)
  from retry(4) show ?case
    by (cases rule: retry_steps_cases)
       (use retry(2) in \<open>auto simp: resolved_inv_def after_execute_retry split: option.splits\<close>)
next
  case (ckpt s s')
  from ckpt(4) show ?case by (cases rule: ckpt_steps_cases) (use ckpt(2) in \<open>auto simp: resolved_inv_def\<close>)
next
  case (fail s s')
  from fail(4) show ?case by (cases rule: fail_steps_cases) (use fail(2) in \<open>auto simp: resolved_inv_def\<close>)
next
  case (closing s s')
  then show ?case using close_steps_frame [OF closing(4)] by (simp add: resolved_inv_def)
qed (auto simp: resolved_inv_def cs_init_def emit_steps_iff end_subscription_steps_iff close_begin_def)

section \<open>Progress\<close>

definition caps_inv :: "cs_state \<Rightarrow> bool" where
  "caps_inv s \<longleftrightarrow>
     ch_cap (st_pre_ch s) = observedBlockChannelBufferSize \<and>
     ch_cap (st_out_ch s) = observedBlockChannelBufferSize \<and>
     ch_cap (st_fail_ch s) = dispatchFailureChannelBufferSize \<and>
     (\<forall>c. st_retry_ch s = Some c \<longrightarrow> ch_cap c = retryFailureChannelBufferSize)"

lemma close_steps_caps:
  "s' \<in> set (close_steps s) \<Longrightarrow>
     ch_cap (st_pre_ch s') = ch_cap (st_pre_ch s) \<and> ch_cap (st_out_ch s') = ch_cap (st_out_ch s) \<and>
     ch_cap (st_fail_ch s') = ch_cap (st_fail_ch s) \<and>
     map_option ch_cap (st_retry_ch s') = map_option ch_cap (st_retry_ch s)"
  by (cases "st_closing s"; cases "the (st_closing s)"; cases "hd (the (st_closing s))"; cases "st_retry_ch s")
     (auto simp: close_steps_def split: if_splits)

lemma caps_inv_reachable: "cs_reachable P has_retry cap s \<Longrightarrow> caps_inv s"
proof (erule cs_reachable_invariant [where J = "\<lambda>_. True"],
    goal_cases known init disp retry ckpt fail consume emit end_sub cancel close closing)
  case (disp s s' m)
  from disp(5) show ?case by (cases rule: disp_steps_cases) (use disp(2) in \<open>auto simp: caps_inv_def\<close>)
next
  case (retry s s' answer)
  from retry(4) show ?case by (cases rule: retry_steps_cases) (use retry(2) in \<open>auto simp: caps_inv_def\<close>)
next
  case (ckpt s s')
  from ckpt(4) show ?case by (cases rule: ckpt_steps_cases) (use ckpt(2) in \<open>auto simp: caps_inv_def\<close>)
next
  case (fail s s')
  from fail(4) show ?case by (cases rule: fail_steps_cases) (use fail(2) in \<open>auto simp: caps_inv_def\<close>)
next
  case (closing s s')
  then show ?case
    using close_steps_caps [OF closing(4)] by (cases "st_retry_ch s") (auto simp: caps_inv_def)
qed (auto simp: caps_inv_def cs_init_def make_chan_def emit_steps_iff end_subscription_steps_iff close_begin_def
       split: if_splits)

text \<open>
  The work left: every item counts the steps it has before it. A failure on its way through the
  retry may turn into a block and a failure, so it counts for both.
\<close>

definition disp_load :: "string \<Rightarrow> cs_state \<Rightarrow> nat" where
  "disp_load n s =
     12 * length (ch_buf (st_events s n)) +
     (case st_disp s n of DispSendErr _ \<Rightarrow> 11 | DispSendBlk _ \<Rightarrow> 5 | _ \<Rightarrow> 0)"

definition retry_load :: "cs_state \<Rightarrow> nat" where
  "retry_load s =
     10 * length (retry_buf s) +
     (case st_retry s of RetryExec _ \<Rightarrow> 9 | RetrySend _ _ \<Rightarrow> 8 | RetryForward _ \<Rightarrow> 3 | _ \<Rightarrow> 0)"

definition ckpt_load :: "cs_state \<Rightarrow> nat" where
  "ckpt_load s =
     4 * length (ch_buf (st_pre_ch s)) + length (ch_buf (st_out_ch s)) +
     (case st_ckpt s of CkptSave _ \<Rightarrow> 3 | CkptSend _ \<Rightarrow> 2 | _ \<Rightarrow> 0)"

definition fail_load :: "cs_state \<Rightarrow> nat" where
  "fail_load s = 2 * length (ch_buf (st_fail_ch s)) + length (fail_hold s)"

definition load :: "cs_params \<Rightarrow> cs_state \<Rightarrow> nat" where
  "load P s = (\<Sum>n\<in>set (p_networks P). disp_load n s) + retry_load s + ckpt_load s + fail_load s"

lemmas load_defs = disp_load_def retry_load_def ckpt_load_def fail_load_def retry_buf_def fail_hold_def

lemma sum_disp_load:
  assumes "n \<in> set (p_networks P)" and "\<And>m. m \<noteq> n \<Longrightarrow> disp_load m s' = disp_load m s"
  shows "(\<Sum>m\<in>set (p_networks P). disp_load m s') + disp_load n s =
         (\<Sum>m\<in>set (p_networks P). disp_load m s) + disp_load n s'"
proof -
  have "(\<Sum>m\<in>set (p_networks P) - {n}. disp_load m s') = (\<Sum>m\<in>set (p_networks P) - {n}. disp_load m s)"
    using assms(2) by (intro sum.cong) auto
  then show ?thesis
    using sum.remove [of "set (p_networks P)" n "\<lambda>m. disp_load m s"]
      sum.remove [of "set (p_networks P)" n "\<lambda>m. disp_load m s'"] assms(1) by simp
qed

text \<open>While the service runs, each step of a goroutine that does not panic takes the load down.\<close>

lemma load_disp:
  assumes inv: "base_inv s" "\<not> st_done s" and n: "n \<in> set (p_networks P)"
    and step: "s' \<in> set (disp_steps n s)" and ok: "\<not> st_panic s'" "\<not> st_panic s"
  shows "load P s' < load P s"
proof -
  have other: "disp_load m s' = disp_load m s" if "m \<noteq> n" for m
    using step that by (cases rule: disp_steps_cases) (auto simp: disp_load_def)
  have "disp_load n s' + retry_load s' + ckpt_load s' + fail_load s' <
        disp_load n s + retry_load s + ckpt_load s + fail_load s"
    using step
  proof (cases rule: disp_steps_cases)
    case exit
    with inv show ?thesis by (auto simp: base_inv_def running_inv_def)
  next
    case (event ev xs)
    then show ?thesis by (auto simp: load_defs dispatch_event_def split: option.splits)
  qed (use ok in \<open>auto simp: load_defs\<close>)
  with sum_disp_load [OF n other] show ?thesis by (simp add: load_def)
qed

lemma load_retry:
  assumes inv: "base_inv s" "\<not> st_done s"
    and step: "s' \<in> set (retry_steps P answer s)" and ok: "\<not> st_panic s'" "\<not> st_panic s"
  shows "load P s' < load P s"
proof -
  have other: "disp_load m s' = disp_load m s" for m
    using step by (cases rule: retry_steps_cases) (auto simp: disp_load_def)
  have "retry_load s' + ckpt_load s' + fail_load s' < retry_load s + ckpt_load s + fail_load s"
    using step
  proof (cases rule: retry_steps_cases)
    case (exit c)
    with inv show ?thesis by (auto simp: base_inv_def running_inv_def open_inv_def all_open_def)
  qed (use ok inv in \<open>auto simp: load_defs after_execute_retry split: option.splits\<close>)
  then show ?thesis by (simp add: load_def other)
qed

lemma load_ckpt:
  assumes inv: "base_inv s" "\<not> st_done s"
    and step: "s' \<in> set (ckpt_steps P s)" and ok: "\<not> st_panic s'" "\<not> st_panic s"
  shows "load P s' < load P s"
proof -
  have other: "disp_load m s' = disp_load m s" for m
    using step by (cases rule: ckpt_steps_cases) (auto simp: disp_load_def)
  have "retry_load s' + ckpt_load s' + fail_load s' < retry_load s + ckpt_load s + fail_load s"
    using step
  proof (cases rule: ckpt_steps_cases)
    case exit
    with inv show ?thesis by (auto simp: base_inv_def running_inv_def open_inv_def all_open_def)
  qed (use ok inv in \<open>auto simp: load_defs\<close>)
  then show ?thesis by (simp add: load_def other)
qed

lemma load_fail:
  assumes inv: "base_inv s" "\<not> st_done s"
    and step: "s' \<in> set (fail_steps s)"
  shows "load P s' < load P s"
proof -
  have other: "disp_load m s' = disp_load m s" for m
    using step by (cases rule: fail_steps_cases) (auto simp: disp_load_def)
  have "retry_load s' + ckpt_load s' + fail_load s' < retry_load s + ckpt_load s + fail_load s"
    using step
  proof (cases rule: fail_steps_cases)
    case exit
    with inv show ?thesis by (auto simp: base_inv_def running_inv_def open_inv_def all_open_def)
  qed (auto simp: load_defs)
  then show ?thesis by (simp add: load_def other)
qed

lemma load_consume:
  "s' \<in> set (consume_steps s) \<Longrightarrow> load P s' < load P s"
  by (auto simp: consume_steps_iff load_def load_defs)

lemma load_decreases:
  assumes "cs_reachable P has_retry cap s" "\<not> st_done s" "work_step P s s'" "\<not> st_panic s'"
  shows "load P s' < load P s"
  using assms(3)
  by cases (use base_inv_reachable [OF assms(1)] assms(2,4) in
    \<open>blast intro: load_disp load_retry load_ckpt load_fail load_consume\<close>)+

subsection \<open>No deadlock\<close>

text \<open>The configurations in which no collaborator panics.\<close>

definition safe_params :: "cs_params \<Rightarrow> bool" where
  "safe_params P \<longleftrightarrow> \<not> p_exec_panics P \<and> (\<forall>h. \<not> p_save_panics P h)"

lemma running_no_panic:
  "cs_reachable P has_retry cap s \<Longrightarrow> \<not> st_done s \<Longrightarrow> safe_params P \<Longrightarrow> \<not> st_panic s"
  using no_panic_inv_reachable [of P has_retry cap s] base_inv_reachable [of P has_retry cap s]
  by (auto simp: no_panic_inv_def safe_params_def base_inv_def running_inv_def)

lemma work_step_running:
  "work_step P s s' \<Longrightarrow> st_done s' = st_done s \<and> st_emitted s' = st_emitted s"
  by (induction rule: work_step.induct)
     (auto elim!: disp_steps_cases retry_steps_cases ckpt_steps_cases fail_steps_cases
        simp: consume_steps_iff)

lemma ckpt_enabled:
  assumes "base_inv s" "caps_inv s" "\<not> st_done s" "ckpt_steps P s = []"
  shows "ch_buf (st_out_ch s) \<noteq> [] \<or> ckpt_load s = 0"
proof (rule disjCI)
  assume *: "ckpt_load s \<noteq> 0"
  show "ch_buf (st_out_ch s) \<noteq> []"
  proof
    assume out: "ch_buf (st_out_ch s) = []"
    have "\<not> ch_closed (st_out_ch s)" "st_ckpt s \<noteq> CkptExit" "0 < ch_cap (st_out_ch s)"
      using assms(1-3)
      by (auto simp: base_inv_def running_inv_def open_inv_def all_open_def caps_inv_def
          observedBlockChannelBufferSize_def)
    with * out assms(4) show False
      by (cases "st_ckpt s"; cases "ch_buf (st_pre_ch s)")
         (auto simp: ckpt_load_def ckpt_steps_def chflow_receive_def chflow_send_def split: if_splits)
  qed
qed

lemma fail_enabled:
  assumes "base_inv s" "\<not> st_done s" "fail_steps s = []"
  shows "fail_load s = 0"
proof -
  have "st_fail s \<noteq> FailExit" using assms(1,2) by (auto simp: base_inv_def running_inv_def)
  with assms(3) show ?thesis
    by (cases "st_fail s"; cases "ch_buf (st_fail_ch s)")
       (auto simp: fail_load_def fail_hold_def fail_steps_def chflow_receive_def split: if_splits)
qed

lemma retry_enabled:
  assumes "base_inv s" "caps_inv s" "\<not> st_done s" "retry_steps P (AllFailed []) s = []"
    and "ckpt_load s = 0" "fail_load s = 0"
  shows "retry_load s = 0"
proof (cases "st_retry_ch s")
  case None
  with assms(1) show ?thesis by (auto simp: base_inv_def tag_inv_def retry_load_def retry_buf_def)
next
  case (Some c)
  have "\<not> ch_closed (st_pre_ch s)" "\<not> ch_closed (st_fail_ch s)" "st_retry s \<noteq> RetryExit"
    "0 < ch_cap (st_pre_ch s)" "0 < ch_cap (st_fail_ch s)"
    using assms(1-3)
    by (auto simp: base_inv_def running_inv_def open_inv_def all_open_def caps_inv_def
        observedBlockChannelBufferSize_def dispatchFailureChannelBufferSize_def)
  moreover have "ch_buf (st_pre_ch s) = []" "ch_buf (st_fail_ch s) = []"
    using assms(5,6) by (auto simp: ckpt_load_def fail_load_def)
  ultimately show ?thesis
    using assms(4) Some
    by (cases "st_retry s"; cases "ch_buf c")
       (auto simp: retry_load_def retry_buf_def retry_steps_def chflow_receive_def chflow_send_def
          split: if_splits)
qed

lemma disp_enabled:
  assumes "base_inv s" "caps_inv s" "\<not> st_done s" "disp_steps n s = []"
    and "ckpt_load s = 0" "fail_load s = 0" "retry_load s = 0"
  shows "disp_load n s = 0"
proof -
  have "\<not> ch_closed (st_pre_ch s)" "\<not> ch_closed (st_fail_ch s)" "st_disp s n \<noteq> DispExit"
    "0 < ch_cap (st_pre_ch s)" "0 < ch_cap (st_fail_ch s)"
    "\<And>c. st_retry_ch s = Some c \<Longrightarrow> \<not> ch_closed c \<and> 0 < ch_cap c"
    using assms(1-3)
    by (auto simp: base_inv_def running_inv_def open_inv_def all_open_def caps_inv_def
        observedBlockChannelBufferSize_def dispatchFailureChannelBufferSize_def
        retryFailureChannelBufferSize_def)
  moreover have "ch_buf (st_pre_ch s) = []" "ch_buf (st_fail_ch s) = []" "retry_buf s = []"
    using assms(5-7) by (auto simp: ckpt_load_def fail_load_def retry_load_def)
  ultimately show ?thesis
    using assms(4)
    by (cases "st_disp s n"; cases "ch_buf (st_events s n)"; cases "st_retry_ch s")
       (auto simp: disp_load_def disp_steps_def errors_ch_def retry_buf_def chflow_receive_def
          chflow_send_def split: if_splits)
qed

lemma not_stuck:
  assumes reach: "cs_reachable P has_retry cap s" and run: "\<not> st_done s" and safe: "safe_params P"
    and stuck: "\<not> (\<exists>s'. work_step P s s')"
  shows "load P s = 0"
proof -
  note inv = base_inv_reachable [OF reach] caps_inv_reachable [OF reach]
  have np: "\<not> st_panic s" by (rule running_no_panic [OF reach run safe])
  have none: "(\<And>s'. s' \<in> set xs \<Longrightarrow> work_step P s s') \<Longrightarrow> xs = []" for xs
    using stuck by (cases xs) auto
  have "ckpt_steps P s = []" "fail_steps s = []" "retry_steps P (AllFailed []) s = []" "consume_steps s = []"
    by (rule none, erule work_step.intros(3) [OF np])
       (rule none, erule work_step.intros(4) [OF np],
        rule none, erule work_step.intros(2) [OF np],
        rule none, erule work_step.intros(5) [OF np])
  moreover have disp: "disp_steps n s = []" if "n \<in> set (p_networks P)" for n
    by (rule none, erule work_step.intros(1) [OF np that])
  moreover have "ch_buf (st_out_ch s) = []"
    using \<open>consume_steps s = []\<close> by (cases "ch_buf (st_out_ch s)") (simp_all add: consume_steps_def)
  ultimately have zero: "ckpt_load s = 0" "fail_load s = 0" "retry_load s = 0"
    using ckpt_enabled [OF inv run] fail_enabled [OF inv(1) run] retry_enabled [OF inv run] by blast+
  with disp disp_enabled [OF inv run] show ?thesis by (simp add: load_def)
qed

lemma work_step_reachable:
  "cs_reachable P has_retry cap s \<Longrightarrow> work_step P s s' \<Longrightarrow> cs_reachable P has_retry cap s'"
  by (rule cs_reachable.step [OF _ cs_step.work])

lemma drains:
  assumes "cs_reachable P has_retry cap s" "\<not> st_done s" "safe_params P"
  shows "\<exists>s'. (work_step P)\<^sup>*\<^sup>* s s' \<and> load P s' = 0"
  using assms
proof (induction "load P s" arbitrary: s rule: less_induct)
  case less
  show ?case
  proof (cases "\<exists>s'. work_step P s s'")
    case True
    then obtain s' where s': "work_step P s s'" by blast
    then have r: "cs_reachable P has_retry cap s'" "\<not> st_done s'"
      using less.prems work_step_running work_step_reachable by blast+
    with less.prems have "\<not> st_panic s'" by (blast dest: running_no_panic)
    then have "load P s' < load P s" using load_decreases less.prems s' by blast
    from less.hyps [OF this r less.prems(3)] s' show ?thesis by (meson converse_rtranclp_into_rtranclp)
  next
    case False
    then show ?thesis using not_stuck [OF less.prems] by blast
  qed
qed

lemma work_run_invariant:
  "(work_step P)\<^sup>*\<^sup>* s s' \<Longrightarrow> cs_reachable P has_retry cap s \<Longrightarrow>
     cs_reachable P has_retry cap s' \<and> st_done s' = st_done s \<and> st_emitted s' = st_emitted s"
  by (induction rule: rtranclp_induct) (auto dest: work_step_running intro: work_step_reachable)

text \<open>When no work is left, nothing is on its way.\<close>

lemma load_zero:
  assumes "load P s = 0" "n \<in> set (p_networks P)"
  shows "blocks_at n s = mset (of_net n (st_delivered s))"
    and "fails_at n s = mset (keys_of_net n (map fail_key (st_notified s @ st_resolved s)))"
proof -
  have *: "disp_load n s = 0" "retry_load s = 0" "ckpt_load s = 0" "fail_load s = 0"
    using assms by (auto simp: load_def)
  then show "blocks_at n s = mset (of_net n (st_delivered s))"
    by (auto simp: blocks_defs load_defs split: disp_pc.splits retry_pc.splits ckpt_pc.splits)
  from * show "fails_at n s = mset (keys_of_net n (map fail_key (st_notified s @ st_resolved s)))"
    by (auto simp: fails_at_def retry_fails_def disp_fails_def load_defs
        split: disp_pc.splits retry_pc.splits ckpt_pc.splits)
qed

end
