(* ===== verification/Json.thy ===== *)
theory Json
  imports Hex
begin

text \<open>
  What the repository uses of \<^verbatim>\<open>encoding/json\<close>. A document is its parsed tree; a
  \<^verbatim>\<open>json.RawMessage\<close> is \<open>json option\<close>, with \<open>None\<close> for the nil message of a response without
  a result. Decoding into a struct visits the members in the order of the document, keeps the
  first type mismatch and goes on, and stops at an error of an \<^verbatim>\<open>UnmarshalJSON\<close> method; what was
  decoded so far stays in the target. A key matches a field exactly or, failing that, up to ASCII
  case. The JSON literal \<^verbatim>\<open>null\<close> leaves a string, number or struct unchanged.
\<close>

section \<open>Documents\<close>

datatype json =
    JNull
  | JBool bool
  | JInt int
  | JReal string
  | JStr string
  | JArr "json list"
  | JObj "(string \<times> json) list"

section \<open>Decoding\<close>

text \<open>A decoding step leaves a value and the first mismatch, or stops at a method's error.\<close>

datatype 'a dec = Dec 'a "gerr option" | DecAbort 'a gerr

fun dec_result :: "'a dec \<Rightarrow> 'a \<times> gerr option" where
  "dec_result (Dec v e) = (v, e)"
| "dec_result (DecAbort v e) = (v, Some e)"

fun map_dec :: "('a \<Rightarrow> 'b) \<Rightarrow> 'a dec \<Rightarrow> 'b dec" where
  "map_dec f (Dec v e) = Dec (f v) e"
| "map_dec f (DecAbort v e) = DecAbort (f v) e"

definition first_err :: "gerr option \<Rightarrow> gerr option \<Rightarrow> gerr option" where
  "first_err a b = (case a of Some e \<Rightarrow> Some e | None \<Rightarrow> b)"

fun dec_string :: "json \<Rightarrow> string \<Rightarrow> string dec" where
  "dec_string (JStr s) old = Dec s None"
| "dec_string JNull old = Dec old None"
| "dec_string _ old = Dec old (Some ErrJsonType)"

fun dec_bool :: "json \<Rightarrow> bool \<Rightarrow> bool dec" where
  "dec_bool (JBool b) old = Dec b None"
| "dec_bool JNull old = Dec old None"
| "dec_bool _ old = Dec old (Some ErrJsonType)"

fun dec_int64 :: "json \<Rightarrow> int64 \<Rightarrow> int64 dec" where
  "dec_int64 (JInt i) old =
     (if - (2 ^ 63) \<le> i \<and> i < 2 ^ 63 then Dec (word_of_int i) None else Dec old (Some ErrJsonType))"
| "dec_int64 JNull old = Dec old None"
| "dec_int64 _ old = Dec old (Some ErrJsonType)"

fun dec_uint64 :: "json \<Rightarrow> int64 \<Rightarrow> int64 dec" where
  "dec_uint64 (JInt i) old =
     (if 0 \<le> i \<and> i < 2 ^ 64 then Dec (word_of_int i) None else Dec old (Some ErrJsonType))"
| "dec_uint64 JNull old = Dec old None"
| "dec_uint64 _ old = Dec old (Some ErrJsonType)"

text \<open>A pointer field: \<^verbatim>\<open>null\<close> sets it to nil, anything else decodes into a fresh target.\<close>

fun dec_pointer :: "(json \<Rightarrow> 'a dec) \<Rightarrow> json \<Rightarrow> 'a option \<Rightarrow> 'a option dec" where
  "dec_pointer f JNull old = Dec None None"
| "dec_pointer f j old = map_dec Some (f j)"

text \<open>
  A slice field. Elements start from their zero value; a nil slice and an empty one are both
  \<open>[]\<close>, since the code only ranges over the decoded slices and takes their lengths.
\<close>

fun dec_elems :: "(json \<Rightarrow> 'a dec) \<Rightarrow> json list \<Rightarrow> 'a list dec" where
  "dec_elems f [] = Dec [] None"
| "dec_elems f (j # js) =
     (case f j of
        DecAbort v e \<Rightarrow> DecAbort [v] e
      | Dec v e \<Rightarrow>
          (case dec_elems f js of
             Dec vs e' \<Rightarrow> Dec (v # vs) (first_err e e')
           | DecAbort vs e' \<Rightarrow> DecAbort (v # vs) e'))"

fun dec_list :: "(json \<Rightarrow> 'a dec) \<Rightarrow> json \<Rightarrow> 'a list \<Rightarrow> 'a list dec" where
  "dec_list f (JArr js) old = dec_elems f js"
| "dec_list f JNull old = Dec [] None"
| "dec_list f _ old = Dec old (Some ErrJsonType)"

text \<open>Structs: a table from the field names of the tags to the decoders of the fields.\<close>

type_synonym 'r fields = "(string \<times> (json \<Rightarrow> 'r \<Rightarrow> 'r dec)) list"

definition find_field :: "'r fields \<Rightarrow> string \<Rightarrow> (json \<Rightarrow> 'r \<Rightarrow> 'r dec) option" where
  "find_field fs k =
     (case map_of fs k of
        Some f \<Rightarrow> Some f
      | None \<Rightarrow> map_option snd (List.find (\<lambda>(n, _). equal_fold n k) fs))"

fun dec_members :: "'r fields \<Rightarrow> (string \<times> json) list \<Rightarrow> 'r \<Rightarrow> gerr option \<Rightarrow> 'r dec" where
  "dec_members fs [] r err = Dec r err"
| "dec_members fs ((k, j) # ms) r err =
     (case find_field fs k of
        None \<Rightarrow> dec_members fs ms r err
      | Some f \<Rightarrow>
          (case f j r of
             Dec r' e \<Rightarrow> dec_members fs ms r' (first_err err e)
           | DecAbort r' e \<Rightarrow> DecAbort r' e))"

fun dec_struct :: "'r fields \<Rightarrow> json \<Rightarrow> 'r \<Rightarrow> 'r dec" where
  "dec_struct fs (JObj ms) r = dec_members fs ms r None"
| "dec_struct fs JNull r = Dec r None"
| "dec_struct fs _ r = Dec r (Some ErrJsonType)"

text \<open>A field entry: the decoder of the field's type, applied through the field's update.\<close>

definition field ::
    "string \<Rightarrow> (json \<Rightarrow> 'f \<Rightarrow> 'f dec) \<Rightarrow> ('r \<Rightarrow> 'f) \<Rightarrow> (('f \<Rightarrow> 'f) \<Rightarrow> 'r \<Rightarrow> 'r) \<Rightarrow>
     string \<times> (json \<Rightarrow> 'r \<Rightarrow> 'r dec)" where
  "field name d get upd = (name, \<lambda>j r. map_dec (\<lambda>v. upd (\<lambda>_. v) r) (d j (get r)))"

text \<open>\<^verbatim>\<open>json.Unmarshal\<close> into a target that holds \<open>old\<close>: a nil message is a syntax error.\<close>

definition unmarshal :: "(json \<Rightarrow> 'a \<Rightarrow> 'a dec) \<Rightarrow> json option \<Rightarrow> 'a \<Rightarrow> 'a \<times> gerr option" where
  "unmarshal d data old =
     (case data of None \<Rightarrow> (old, Some ErrJsonEOF) | Some j \<Rightarrow> dec_result (d j old))"

text \<open>An array of encoded elements, some of which may be of the wrong type.\<close>

lemma dec_elems_some:
  "(\<And>x. x \<in> set xs \<Longrightarrow> f (g x) = Dec (h x) (if p x then Some e else None)) \<Longrightarrow>
     dec_elems f (map g xs) = Dec (map h xs) (if \<exists>x \<in> set xs. p x then Some e else None)"
  by (induction xs) (simp_all add: first_err_def)

lemma dec_elems_map:
  "(\<And>x. x \<in> set xs \<Longrightarrow> f (g x) = Dec (h x) None) \<Longrightarrow> dec_elems f (map g xs) = Dec (map h xs) None"
  using dec_elems_some [of xs f g h "\<lambda>_. False"] by simp

section \<open>Hex.MarshalJSON and Hex.UnmarshalJSON\<close>

definition hex_marshal :: "hex \<Rightarrow> json" where
  "hex_marshal h = JStr h"

text \<open>
  The method decodes into a local string first, so \<^verbatim>\<open>null\<close> reads as the empty string and is
  then refused by the validation.
\<close>

definition hex_unmarshal :: "json \<Rightarrow> hex \<Rightarrow> hex dec" where
  "hex_unmarshal data h =
     (case dec_result (dec_string data '''') of
        (s, Some e) \<Rightarrow> DecAbort h (ErrWrap ''invalid hex string'' e)
      | (s, None) \<Rightarrow>
          (case validate_hex s of
             Some e \<Rightarrow> DecAbort h e
           | None \<Rightarrow> Dec s None))"

lemma hex_unmarshal_ok:
  "dec_result (hex_unmarshal j old) = (h, None) \<longleftrightarrow> j = JStr h \<and> validate_hex h = None"
  by (cases j) (auto simp: hex_unmarshal_def validate_hex_def has_prefix_def split: option.splits)

lemma hex_unmarshal_err:
  "dec_result (hex_unmarshal j old) = (h, Some e) \<Longrightarrow> h = old"
  by (auto simp: hex_unmarshal_def split: option.splits prod.splits)

lemma unmarshal_hex_marshal:
  "validate_hex h = None \<Longrightarrow> unmarshal hex_unmarshal (Some (hex_marshal h)) old = (h, None)"
  by (simp add: unmarshal_def hex_marshal_def hex_unmarshal_ok)

lemma validate_hex_length: "validate_hex h = None \<Longrightarrow> 3 \<le> length h"
  by (cases h; cases "tl h"; cases "tl (tl h)")
     (auto simp: validate_hex_def has_prefix_def parse_uint_def split: if_splits)

end
