(* ===== verification/Jsonrpc.thy ===== *)
theory Jsonrpc
  imports Json
begin

text \<open>
  \<^verbatim>\<open>internal/pkg/transport/jsonrpc/client.go\<close> and \<^verbatim>\<open>internal/pkg/transport/http/client.go\<close>.
  The HTTP exchange and the generator of request identifiers are outside the repository and
  are arguments: \<open>http_do\<close> takes the endpoint and the body of the POST request and yields
  either the error of the exchange (or of a body that is not JSON) or the document received.
\<close>

section \<open>The HTTP client's configuration\<close>

text \<open>Durations are counted in nanoseconds.\<close>

definition second :: int where
  "second = 1000000000"

record http_config =
  hc_timeout :: int
  hc_retryWaitMin :: int
  hc_retryWaitMax :: int
  hc_retryMax :: int

definition http_default_config :: http_config where
  "http_default_config =
     \<lparr>hc_timeout = 5 * second, hc_retryWaitMin = 1 * second, hc_retryWaitMax = 5 * second,
      hc_retryMax = 2\<rparr>"

type_synonym http_option = "http_config \<Rightarrow> http_config"

definition http_new_client :: "http_option list \<Rightarrow> http_config" where
  "http_new_client opts = fold (\<lambda>opt cfg. opt cfg) opts http_default_config"

definition with_timeout :: "int \<Rightarrow> http_option" where
  "with_timeout d c = c\<lparr>hc_timeout := d\<rparr>"

definition with_retry_wait_min :: "int \<Rightarrow> http_option" where
  "with_retry_wait_min d c = c\<lparr>hc_retryWaitMin := d\<rparr>"

definition with_retry_wait_max :: "int \<Rightarrow> http_option" where
  "with_retry_wait_max d c = c\<lparr>hc_retryWaitMax := d\<rparr>"

definition with_retry_max :: "int \<Rightarrow> http_option" where
  "with_retry_max n c = c\<lparr>hc_retryMax := n\<rparr>"

section \<open>JSON-RPC responses\<close>

record rpc_error =
  re_code :: int64
  re_message :: string

record rpc_response =
  rr_jsonrpc :: string
  rr_error :: "rpc_error option"
  rr_result :: "json option"

definition zero_rpc_error :: rpc_error where
  "zero_rpc_error = \<lparr>re_code = 0, re_message = ''''\<rparr>"

definition zero_rpc_response :: rpc_response where
  "zero_rpc_response = \<lparr>rr_jsonrpc = '''', rr_error = None, rr_result = None\<rparr>"

definition rpc_error_fields :: "rpc_error fields" where
  "rpc_error_fields =
     [field ''code'' dec_int64 re_code re_code_update,
      field ''message'' dec_string re_message re_message_update]"

text \<open>A raw message keeps whatever value the member has, \<^verbatim>\<open>null\<close> included.\<close>

definition dec_raw :: "json \<Rightarrow> json option \<Rightarrow> json option dec" where
  "dec_raw j old = Dec (Some j) None"

definition rpc_response_fields :: "rpc_response fields" where
  "rpc_response_fields =
     [field ''jsonrpc'' dec_string rr_jsonrpc rr_jsonrpc_update,
      field ''error'' (dec_pointer (\<lambda>j. dec_struct rpc_error_fields j zero_rpc_error)) rr_error rr_error_update,
      field ''result'' dec_raw rr_result rr_result_update]"

fun fmt_dec_nat :: "nat \<Rightarrow> string" where
  "fmt_dec_nat n =
     (if n < 10 then [digit_char n] else fmt_dec_nat (n div 10) @ [digit_char (n mod 10)])"

declare fmt_dec_nat.simps [simp del]

definition fmt_dec :: "int \<Rightarrow> string" where
  "fmt_dec i = (if i < 0 then CHR ''-'' # fmt_dec_nat (nat (- i)) else fmt_dec_nat (nat i))"

definition rpc_err :: "rpc_response \<Rightarrow> gerr option" where
  "rpc_err r =
     (case rr_error r of
        None \<Rightarrow> None
      | Some e \<Rightarrow>
          Some (ErrWrap
            (''provider error: ['' @ fmt_dec (sint (re_code e)) @ ''] - '' @ re_message e)
            ErrProviderReturnedError))"

section \<open>Fetch\<close>

type_synonym 'w rpc = "string \<Rightarrow> json list \<Rightarrow> 'w \<Rightarrow> (json option \<times> gerr option) \<times> 'w"
type_synonym 'w http_exchange = "string \<Rightarrow> json \<Rightarrow> 'w \<Rightarrow> (gerr + json) \<times> 'w"

text \<open>A variadic call without arguments passes a nil slice, which is encoded as \<^verbatim>\<open>null\<close>.\<close>

definition rpc_params :: "json list \<Rightarrow> json" where
  "rpc_params params = (if params = [] then JNull else JArr params)"

definition rpc_request :: "string \<Rightarrow> string \<Rightarrow> json list \<Rightarrow> json" where
  "rpc_request rid method params =
     JObj [(''id'', JStr rid), (''jsonrpc'', JStr ''2.0''), (''method'', JStr method),
           (''params'', rpc_params params)]"

definition rpc_fetch ::
    "('w \<Rightarrow> string \<times> 'w) \<Rightarrow> 'w http_exchange \<Rightarrow> string \<Rightarrow> 'w rpc" where
  "rpc_fetch new_uuid http_do endpoint method params w =
     (case new_uuid w of
        (rid, w1) \<Rightarrow>
          (case http_do endpoint (rpc_request rid method params) w1 of
             (Inl e, w2) \<Rightarrow> ((None, Some e), w2)
           | (Inr doc, w2) \<Rightarrow>
               (case dec_result (dec_struct rpc_response_fields doc zero_rpc_response) of
                  (data, Some e) \<Rightarrow> ((None, Some e), w2)
                | (data, None) \<Rightarrow> ((rr_result data, rpc_err data), w2))))"

section \<open>Lemmas\<close>

lemma rpc_fetch_http_error:
  "new_uuid w = (rid, w1) \<Longrightarrow> http_do endpoint (rpc_request rid method params) w1 = (Inl e, w2) \<Longrightarrow>
   rpc_fetch new_uuid http_do endpoint method params w = ((None, Some e), w2)"
  by (simp add: rpc_fetch_def)

lemma rpc_fetch_document:
  "new_uuid w = (rid, w1) \<Longrightarrow> http_do endpoint (rpc_request rid method params) w1 = (Inr doc, w2) \<Longrightarrow>
   dec_result (dec_struct rpc_response_fields doc zero_rpc_response) = (data, None) \<Longrightarrow>
   rpc_fetch new_uuid http_do endpoint method params w = ((rr_result data, rpc_err data), w2)"
  by (simp add: rpc_fetch_def)

lemma rpc_err_provider: "rpc_err r = Some e \<Longrightarrow> errors_is e ErrProviderReturnedError"
  by (auto simp: rpc_err_def split: option.splits)

lemma find_field_response [simp]:
  "find_field rpc_response_fields ''error'' =
     Some (snd (field ''error'' (dec_pointer (\<lambda>j. dec_struct rpc_error_fields j zero_rpc_error))
       rr_error rr_error_update))"
  "find_field rpc_response_fields ''result'' =
     Some (snd (field ''result'' dec_raw rr_result rr_result_update))"
  "find_field rpc_response_fields ''jsonrpc'' =
     Some (snd (field ''jsonrpc'' dec_string rr_jsonrpc rr_jsonrpc_update))"
  by (simp_all add: find_field_def rpc_response_fields_def field_def)

lemma find_field_error [simp]:
  "find_field rpc_error_fields ''code'' = Some (snd (field ''code'' dec_int64 re_code re_code_update))"
  "find_field rpc_error_fields ''message'' = Some (snd (field ''message'' dec_string re_message re_message_update))"
  by (simp_all add: find_field_def rpc_error_fields_def field_def)

section \<open>Properties\<close>

text \<open>
  A JSON-RPC error object is what \<^verbatim>\<open>Fetch\<close> returns: for a response with an error object and
  any result next to it, the error is recognised by \<^verbatim>\<open>errors.Is(err, ErrProviderReturnedError)\<close>,
  and the raw result is handed back unchanged with it.
\<close>

theorem rpc_fetch_provider_error:
  assumes "new_uuid w = (rid, w1)"
    and "http_do endpoint (rpc_request rid method params) w1 =
           (Inr (JObj [(''jsonrpc'', JStr v), (''error'', JObj [(''code'', JInt c), (''message'', JStr m)]),
                       (''result'', res)]), w2)"
    and "- (2 ^ 63) \<le> c" "c < 2 ^ 63"
  shows "\<exists>e. rpc_fetch new_uuid http_do endpoint method params w = ((Some res, Some e), w2) \<and>
             errors_is e ErrProviderReturnedError"
proof -
  let ?data = "\<lparr>rr_jsonrpc = v, rr_error = Some \<lparr>re_code = word_of_int c, re_message = m\<rparr>, rr_result = Some res\<rparr>"
  have "dec_result (dec_struct rpc_response_fields (JObj [(''jsonrpc'', JStr v),
      (''error'', JObj [(''code'', JInt c), (''message'', JStr m)]), (''result'', res)]) zero_rpc_response)
      = (?data, None)"
    using assms(3,4) by (simp add: field_def dec_raw_def zero_rpc_response_def zero_rpc_error_def first_err_def)
  with assms(1,2) have "rpc_fetch new_uuid http_do endpoint method params w = ((Some res, rpc_err ?data), w2)"
    by (simp add: rpc_fetch_def)
  then show ?thesis by (auto simp: rpc_err_def)
qed

theorem rpc_fetch_provider_error_witness:
  "\<exists>e. rpc_fetch (\<lambda>w. (''id'', w))
      (\<lambda>ep body w. (Inr (JObj [(''jsonrpc'', JStr ''2.0''),
         (''error'', JObj [(''code'', JInt (- 32000)), (''message'', JStr ''busy'')]), (''result'', JNull)]), w))
      ''http://node'' ''eth_blockNumber'' [] () = ((Some JNull, Some e), ()) \<and>
    errors_is e ErrProviderReturnedError"
  by (rule rpc_fetch_provider_error [where rid = "''id''" and ?w1.0 = "()" and v = "''2.0''"
        and c = "- 32000" and m = "''busy''"]) simp_all

end
