(* ===== verification/Retry.thy ===== *)
theory Retry
  imports Jsonrpc
begin

text \<open>
  \<^verbatim>\<open>internal/pkg/resilience/retry/retry.go\<close>. The library function \<^verbatim>\<open>retry.Do\<close> is outside the
  repository and is the argument \<open>do_fn\<close>: it runs the operation, which acts on a state \<open>'s\<close>, and
  ends with nil, with the list of errors of the attempts (a \<^verbatim>\<open>retry.Error\<close>), or with some other
  error. \<^verbatim>\<open>Execute\<close> converts the last two with an unchecked type assertion. A Go slice of errors is
  \<open>gerr list option\<close>, because the caller distinguishes the nil slice (\<open>None\<close>) from an empty one.
\<close>

record retry_config =
  rc_attempts :: nat
  rc_delay :: int
  rc_maxDelay :: int

definition retry_default_config :: retry_config where
  "retry_default_config = \<lparr>rc_attempts = 3, rc_delay = 1 * second, rc_maxDelay = 5 * second\<rparr>"

type_synonym retry_option = "retry_config \<Rightarrow> retry_config"

definition retry_new :: "retry_option list \<Rightarrow> retry_config" where
  "retry_new opts = fold (\<lambda>opt cfg. opt cfg) opts retry_default_config"

definition with_attempts :: "nat \<Rightarrow> retry_option" where
  "with_attempts n c = c\<lparr>rc_attempts := n\<rparr>"

definition with_delay :: "int \<Rightarrow> retry_option" where
  "with_delay d c = c\<lparr>rc_delay := d\<rparr>"

definition with_max_delay :: "int \<Rightarrow> retry_option" where
  "with_max_delay d c = c\<lparr>rc_maxDelay := d\<rparr>"

datatype do_result = DoNil | DoErrors "gerr list" | DoPlain gerr

type_synonym 's operation = "'s \<Rightarrow> gerr option \<times> 's"
type_synonym 's do_fn = "retry_config \<Rightarrow> 's operation \<Rightarrow> 's \<Rightarrow> do_result \<times> 's"

definition retry_execute ::
    "'s do_fn \<Rightarrow> retry_config \<Rightarrow> 's operation \<Rightarrow> 's \<Rightarrow> gerr list option outcome \<times> 's" where
  "retry_execute do_fn cfg operation s =
     (case do_fn cfg operation s of
        (DoNil, s') \<Rightarrow> (Val (Some []), s')
      | (DoErrors es, s') \<Rightarrow> (Val (Some es), s')
      | (DoPlain e, s') \<Rightarrow> (Panic, s'))"

text \<open>
  \<^verbatim>\<open>Execute\<close> of the repository's retrier never returns the nil slice, whatever the library and
  the operation do: a caller that tests the result against nil takes every call for a failure.
\<close>

theorem retry_execute_never_nil: "fst (retry_execute do_fn cfg operation s) \<noteq> Val None"
  by (auto simp: retry_execute_def split: prod.splits do_result.splits)

lemma retry_execute_Val: "fst (retry_execute do_fn cfg operation s) = Val r \<Longrightarrow> r \<noteq> None"
  by (auto simp: retry_execute_def split: prod.splits do_result.splits)

lemma retry_execute_success:
  "do_fn cfg operation s = (DoNil, s') \<Longrightarrow> retry_execute do_fn cfg operation s = (Val (Some []), s')"
  by (simp add: retry_execute_def)

end
