(* ===== verification/Pipeline_Props.thy ===== *)
theory Pipeline_Props
  imports Pipeline_Live Retry
begin

text \<open>
  What the running chainstream service guarantees, from the invariants of \<open>Pipeline_Inv\<close> and
  \<open>Pipeline_Live\<close>, and concrete runs of it. A run is a list of moves; \<open>exec_moves\<close> executes it.
\<close>

section \<open>Executable runs\<close>

text \<open>A move names the goroutine (or the environment's action) and which of its next states is taken.\<close>

datatype move =
    MDisp string nat
  | MRetry exec_answer nat
  | MCkpt nat
  | MFail nat
  | MConsume
  | MEmit string blockchain_event
  | MEnd string
  | MCancel
  | MClose
  | MClosing

definition pick :: "nat \<Rightarrow> 'a list \<Rightarrow> 'a option" where
  "pick i xs = (case drop i xs of [] \<Rightarrow> None | x # _ \<Rightarrow> Some x)"

fun apply_move :: "cs_params \<Rightarrow> move \<Rightarrow> cs_state \<Rightarrow> cs_state option" where
  "apply_move P (MDisp n i) s = (if n \<in> set (p_networks P) then pick i (disp_steps n s) else None)"
| "apply_move P (MRetry a i) s = pick i (retry_steps P a s)"
| "apply_move P (MCkpt i) s = pick i (ckpt_steps P s)"
| "apply_move P (MFail i) s = pick i (fail_steps s)"
| "apply_move P MConsume s = pick 0 (consume_steps s)"
| "apply_move P (MEmit n ev) s = (if n \<in> set (p_networks P) then pick 0 (emit_steps n ev s) else None)"
| "apply_move P (MEnd n) s = pick 0 (end_subscription_steps n s)"
| "apply_move P MCancel s = Some (s\<lparr>st_done := True\<rparr>)"
| "apply_move P MClose s = (if st_closing s = None then Some (close_begin s) else None)"
| "apply_move P MClosing s = pick 0 (close_steps s)"

fun exec_moves :: "cs_params \<Rightarrow> move list \<Rightarrow> cs_state \<Rightarrow> cs_state option" where
  "exec_moves P [] s = Some s"
| "exec_moves P (m # ms) s =
     (if st_panic s then None
      else case apply_move P m s of None \<Rightarrow> None | Some s' \<Rightarrow> exec_moves P ms s')"

lemma pick_set: "pick i xs = Some x \<Longrightarrow> x \<in> set xs"
  by (auto simp: pick_def dest: in_set_dropD [of _ i] split: list.splits) (metis in_set_dropD list.set_intros(1))

lemma apply_move_step: "\<not> st_panic s \<Longrightarrow> apply_move P m s = Some s' \<Longrightarrow> cs_step P s s'"
  by (cases m) (auto dest!: pick_set intro: cs_step.intros work_step.intros split: if_splits)

lemma exec_moves_reachable:
  "exec_moves P ms s = Some s' \<Longrightarrow> cs_reachable P has_retry cap s \<Longrightarrow> cs_reachable P has_retry cap s'"
  by (induction P ms s rule: exec_moves.induct)
     (auto intro: cs_reachable.step apply_move_step split: if_splits option.splits)

lemma exec_from_init:
  "exec_moves P ms (cs_init has_retry cap) = Some s \<Longrightarrow> cs_reachable P has_retry cap s"
  by (rule exec_moves_reachable [OF _ cs_reachable.init])

section \<open>The runs of the witnesses\<close>

text \<open>
  One network; the retrier is the repository's, or one that returns the nil slice. The first run
  emits one good block and delivers it. The second one emits a failure, which the retry recovers.
\<close>

definition eth_net :: string where
  "eth_net = ''ethereum''"

definition demo_params :: "gerr list option \<Rightarrow> cs_params" where
  "demo_params ok =
     \<lparr>p_networks = [eth_net], p_ok_result = ok, p_exec_panics = False, p_save_panics = (\<lambda>_. False)\<rparr>"

definition demo_cap :: "string \<Rightarrow> nat" where
  "demo_cap n = 200"

definition demo_block :: cs_block where
  "demo_block = \<lparr>blk_height = ''0x1'', blk_hash = ''h'', blk_transactions = []\<rparr>"

definition good_event :: blockchain_event where
  "good_event = \<lparr>ev_height = ''0x1'', ev_block = demo_block, ev_err = None\<rparr>"

definition bad_event :: blockchain_event where
  "bad_event = \<lparr>ev_height = ''0x1'', ev_block = zero_block, ev_err = Some (ErrExternal ''timeout'')\<rparr>"

definition delivery_run :: "move list" where
  "delivery_run =
     [MEmit eth_net good_event, MDisp eth_net 0, MDisp eth_net 0, MCkpt 0, MCkpt 0, MCkpt 0, MConsume]"

definition recovery_run :: "move list" where
  "recovery_run =
     [MEmit eth_net bad_event, MDisp eth_net 0, MDisp eth_net 0,
      MRetry ExecPanics 0, MRetry (Fetched demo_block) 0, MRetry ExecPanics 0, MRetry ExecPanics 0,
      MCkpt 0, MCkpt 0, MCkpt 0, MConsume, MFail 0, MFail 0]"

lemmas demo_defs = demo_params_def eth_net_def demo_block_def good_event_def bad_event_def
  delivery_run_def recovery_run_def

lemma demo_safe: "safe_params (demo_params ok)"
  by (simp add: safe_params_def demo_params_def)

text \<open>The end of the first run, as far as the witnesses look at it.\<close>

lemma case_option_ex: "case_option False Q x \<Longrightarrow> \<exists>s. x = Some s \<and> Q s"
  by (cases x) auto

lemma delivery_run_end:
  "\<exists>s. exec_moves (demo_params (Some [])) delivery_run (cs_init False demo_cap) = Some s \<and>
       \<not> st_done s \<and> st_closing s = None \<and> st_retry_ch s = None \<and>
       st_delivered s = [\<lparr>ob_network = eth_net, ob_block = demo_block\<rparr>] \<and>
       st_emitted s eth_net = [good_event] \<and> st_saved s = [(eth_net, ''0x1'')] \<and>
       ch_buf (st_out_ch s) = []"
  by (rule case_option_ex) code_simp

lemma recovery_run_end:
  "\<exists>s. exec_moves (demo_params (Some [])) recovery_run (cs_init True demo_cap) = Some s \<and>
       \<not> st_done s \<and> load (demo_params (Some [])) s = 0 \<and>
       st_delivered s = [\<lparr>ob_network = eth_net, ob_block = demo_block\<rparr>] \<and>
       st_emitted s eth_net = [bad_event] \<and>
       map fail_key (st_notified s) = [(eth_net, ''0x1'')]"
  by (rule case_option_ex) code_simp

section \<open>Sends and closes\<close>

text \<open>A goroutine is at a send to the channel that \<^verbatim>\<open>closeFunc\<close> closes in the step \<open>c\<close>.\<close>

definition sends :: "cs_params \<Rightarrow> cs_state \<Rightarrow> closer \<Rightarrow> bool" where
  "sends P s c \<longleftrightarrow>
     (case c of
        CloseBlocks \<Rightarrow>
          (\<exists>n \<in> set (p_networks P). case st_disp s n of DispSendBlk b \<Rightarrow> True | _ \<Rightarrow> False) \<or>
          st_retry_ch s \<noteq> None \<and> (case st_retry s of RetrySend f b \<Rightarrow> True | _ \<Rightarrow> False)
      | CloseOut \<Rightarrow> (case st_ckpt s of CkptSend b \<Rightarrow> True | _ \<Rightarrow> False)
      | CloseRetry \<Rightarrow>
          st_retry_ch s \<noteq> None \<and>
          (\<exists>n \<in> set (p_networks P). case st_disp s n of DispSendErr f \<Rightarrow> True | _ \<Rightarrow> False)
      | CloseFailures \<Rightarrow>
          st_retry_ch s = None \<and>
            (\<exists>n \<in> set (p_networks P). case st_disp s n of DispSendErr f \<Rightarrow> True | _ \<Rightarrow> False) \<or>
          st_retry_ch s \<noteq> None \<and> (case st_retry s of RetryForward f \<Rightarrow> True | _ \<Rightarrow> False))"

lemma sends_iff:
  "sends P s CloseBlocks \<longleftrightarrow>
     (\<exists>n \<in> set (p_networks P). \<exists>b. st_disp s n = DispSendBlk b) \<or>
     st_retry_ch s \<noteq> None \<and> (\<exists>f b. st_retry s = RetrySend f b)"
  "sends P s CloseOut \<longleftrightarrow> (\<exists>b. st_ckpt s = CkptSend b)"
  "sends P s CloseRetry \<longleftrightarrow> st_retry_ch s \<noteq> None \<and> (\<exists>n \<in> set (p_networks P). \<exists>f. st_disp s n = DispSendErr f)"
  "sends P s CloseFailures \<longleftrightarrow>
     st_retry_ch s = None \<and> (\<exists>n \<in> set (p_networks P). \<exists>f. st_disp s n = DispSendErr f) \<or>
     st_retry_ch s \<noteq> None \<and> (\<exists>f. st_retry s = RetryForward f)"
proof -
  have at: "(case d of DispSendBlk b \<Rightarrow> True | _ \<Rightarrow> False) = (\<exists>b. d = DispSendBlk b)"
    "(case d of DispSendErr f \<Rightarrow> True | _ \<Rightarrow> False) = (\<exists>f. d = DispSendErr f)" for d
    by (cases d; simp)+
  moreover have "(case r of RetrySend f b \<Rightarrow> True | _ \<Rightarrow> False) = (\<exists>f b. r = RetrySend f b)"
    "(case r of RetryForward f \<Rightarrow> True | _ \<Rightarrow> False) = (\<exists>f. r = RetryForward f)" for r
    by (cases r; simp)+
  moreover have "(case k of CkptSend b \<Rightarrow> True | _ \<Rightarrow> False) = (\<exists>b. k = CkptSend b)" for k
    by (cases k; simp)
  ultimately show "sends P s CloseBlocks \<longleftrightarrow>
     (\<exists>n \<in> set (p_networks P). \<exists>b. st_disp s n = DispSendBlk b) \<or>
     st_retry_ch s \<noteq> None \<and> (\<exists>f b. st_retry s = RetrySend f b)"
  "sends P s CloseOut \<longleftrightarrow> (\<exists>b. st_ckpt s = CkptSend b)"
  "sends P s CloseRetry \<longleftrightarrow> st_retry_ch s \<noteq> None \<and> (\<exists>n \<in> set (p_networks P). \<exists>f. st_disp s n = DispSendErr f)"
  "sends P s CloseFailures \<longleftrightarrow>
     st_retry_ch s = None \<and> (\<exists>n \<in> set (p_networks P). \<exists>f. st_disp s n = DispSendErr f) \<or>
     st_retry_ch s \<noteq> None \<and> (\<exists>f. st_retry s = RetryForward f)"
    by (simp_all add: sends_def)
qed

lemma disp_panics:
  "\<not> st_panic s \<Longrightarrow> (\<exists>s' \<in> set (disp_steps n s). st_panic s') \<longleftrightarrow>
     (\<exists>b. st_disp s n = DispSendBlk b) \<and> closed CloseBlocks s \<or>
     (\<exists>f. st_disp s n = DispSendErr f) \<and> (if st_retry_ch s = None then closed CloseFailures s else closed CloseRetry s)"
  by (cases "st_disp s n"; cases "st_retry_ch s")
     (auto simp: disp_steps_def chflow_send_def errors_ch_def set_errors_ch_def split: option.splits)

lemma retry_panics:
  "\<not> st_panic s \<Longrightarrow> \<not> p_exec_panics P \<Longrightarrow> (\<exists>a. \<exists>s' \<in> set (retry_steps P a s). st_panic s') \<longleftrightarrow>
     st_retry_ch s \<noteq> None \<and>
     ((\<exists>f b. st_retry s = RetrySend f b) \<and> closed CloseBlocks s \<or>
      (\<exists>f. st_retry s = RetryForward f) \<and> closed CloseFailures s)"
  by (cases "st_retry s"; cases "st_retry_ch s")
     (auto simp: retry_steps_def chflow_send_def Let_def split: option.splits exec_answer.splits)

lemma ckpt_panics:
  "\<not> st_panic s \<Longrightarrow> \<forall>h. \<not> p_save_panics P h \<Longrightarrow> (\<exists>s' \<in> set (ckpt_steps P s). st_panic s') \<longleftrightarrow>
     (\<exists>b. st_ckpt s = CkptSend b) \<and> closed CloseOut s"
  by (cases "st_ckpt s") (auto simp: ckpt_steps_def chflow_send_def split: option.splits)

lemma panics_iff:
  assumes "\<not> st_panic s" and "safe_params P" and "closing_inv s"
  shows "(\<exists>s'. cs_step P s s' \<and> st_panic s') \<longleftrightarrow> (\<exists>c. sends P s c \<and> closed c s)"
proof -
  note safe = assms(2) [unfolded safe_params_def]
  have fail: "\<not> st_panic s'" if "s' \<in> set (fail_steps s)" for s'
    using that assms(1) by (cases rule: fail_steps_cases) auto
  have close: "\<not> st_panic s'" if s': "s' \<in> set (close_steps s)" for s'
  proof -
    obtain c cs where "st_closing s = Some (c # cs)"
      using s' by (cases "st_closing s"; cases "the (st_closing s)") (simp_all add: close_steps_def)
    from closing_step [OF assms(3) this] obtain s1 where "close_steps s = [s1]" "st_panic s1 = st_panic s" by metis
    with s' assms(1) show ?thesis by simp
  qed
  have "(\<exists>s'. cs_step P s s' \<and> st_panic s') \<longleftrightarrow>
      (\<exists>n \<in> set (p_networks P). \<exists>s' \<in> set (disp_steps n s). st_panic s') \<or>
      (\<exists>a. \<exists>s' \<in> set (retry_steps P a s). st_panic s') \<or> (\<exists>s' \<in> set (ckpt_steps P s). st_panic s')" (is "_ \<longleftrightarrow> ?R")
  proof
    assume "\<exists>s'. cs_step P s s' \<and> st_panic s'"
    then obtain s' where s': "cs_step P s s'" "st_panic s'" by blast
    then show ?R
    proof (cases rule: cs_step.cases)
      case work
      then show ?thesis
        by (cases rule: work_step.cases) (use s'(2) assms(1) fail in \<open>auto simp: consume_steps_iff\<close>)
    qed (use s'(2) assms(1) close in \<open>auto simp: emit_steps_iff end_subscription_steps_iff close_begin_def\<close>)
  next
    assume ?R
    then show "\<exists>s'. cs_step P s s' \<and> st_panic s'"
      using assms(1) by (blast intro: cs_step.work work_step.intros)
  qed
  also have "\<dots> \<longleftrightarrow> (\<exists>c. sends P s c \<and> closed c s)"
  proof -
    have ex: "(\<exists>c. Q c) \<longleftrightarrow> Q CloseBlocks \<or> Q CloseOut \<or> Q CloseRetry \<or> Q CloseFailures" for Q
      by (metis closer.exhaust)
    show ?thesis
      unfolding ex disp_panics [OF assms(1)] retry_panics [OF assms(1) conjunct1 [OF safe]]
        ckpt_panics [OF assms(1) conjunct2 [OF safe]]
      unfolding sends_iff by (cases "st_retry_ch s"; simp) blast+
  qed
  finally show ?thesis .
qed

text \<open>\<^verbatim>\<open>closeFunc\<close> runs to its end while the goroutines stand still.\<close>

lemma closing_run_through:
  "st_closing s = Some cs \<Longrightarrow> closing_inv s \<Longrightarrow> \<not> st_panic s \<Longrightarrow>
     \<exists>s'. (cs_step P)\<^sup>*\<^sup>* s s' \<and> \<not> st_panic s' \<and> st_closing s' = Some [] \<and> (\<forall>d. closed d s' \<longleftrightarrow> d \<in> set cs \<or> closed d s) \<and>
       (\<forall>d. sends P s' d = sends P s d)"
proof (induction cs arbitrary: s)
  case (Cons c cs)
  obtain s1 where s1: "close_steps s = [s1]" "st_closing s1 = Some cs" "st_panic s1 = st_panic s"
    "\<And>d. closed d s1 \<longleftrightarrow> d = c \<or> closed d s" "st_retry_ch s1 = None \<longleftrightarrow> st_retry_ch s = None"
    using closing_step [OF Cons.prems(2,1)] by metis
  have step: "cs_step P s s1" using Cons.prems(3) s1(1) by (intro cs_step.closing) simp_all
  have "sends P s1 d = sends P s d" for d
    using close_steps_frame [of s1 s] s1(1,5) by (cases d) (simp_all add: sends_def)
  moreover obtain s' where "(cs_step P)\<^sup>*\<^sup>* s1 s'" "\<not> st_panic s'" "st_closing s' = Some []"
    "\<forall>d. closed d s' \<longleftrightarrow> d \<in> set cs \<or> closed d s1" "\<forall>d. sends P s' d = sends P s1 d"
    using Cons.IH [OF s1(2) closing_inv_step [OF step Cons.prems(2)]] s1(3) Cons.prems(3) by auto
  ultimately show ?case using step s1(4) by (intro exI [of _ s']) (auto intro: converse_rtranclp_into_rtranclp)
qed auto

section \<open>Runs that end badly\<close>

text \<open>
  The first ends with a dispatcher about to send a block. In the second, the context is cancelled after the checkpoint of
  a block was saved, and before the block was sent.
\<close>

definition sending_run :: "move list" where
  "sending_run = [MEmit eth_net good_event, MDisp eth_net 0]"

definition shutdown_run :: "move list" where
  "shutdown_run =
     [MEmit eth_net good_event, MDisp eth_net 0, MDisp eth_net 0, MCkpt 0, MCkpt 0, MCancel, MCkpt 0]"

lemma sending_run_end:
  "\<exists>s. exec_moves (demo_params (Some [])) sending_run (cs_init True demo_cap) = Some s \<and>
       \<not> st_panic s \<and> st_closing s = None \<and> sends (demo_params (Some [])) s CloseBlocks"
  by (rule case_option_ex) code_simp

lemma shutdown_run_end:
  "\<exists>s. exec_moves (demo_params (Some [])) shutdown_run (cs_init True demo_cap) = Some s \<and>
       st_saved s = [(eth_net, ''0x1'')] \<and> st_emitted s eth_net = [good_event] \<and>
       st_ckpt s = CkptExit \<and> ch_buf (st_out_ch s) = [] \<and> st_delivered s = []"
  by (rule case_option_ex) code_simp

lemma exited_step:
  "cs_step P s s' \<Longrightarrow> st_ckpt s = CkptExit \<Longrightarrow> ch_buf (st_out_ch s) = [] \<Longrightarrow>
     st_ckpt s' = CkptExit \<and> ch_buf (st_out_ch s') = [] \<and> st_delivered s' = st_delivered s"
proof (induction rule: cs_step.induct)
  case (work s s')
  then show ?case
    by (cases rule: work_step.cases)
       (auto elim!: disp_steps_cases retry_steps_cases fail_steps_cases
          simp: consume_steps_iff ckpt_steps_def)
next
  case (closing s s')
  then show ?case using close_steps_frame by fastforce
qed (auto simp: emit_steps_iff end_subscription_steps_iff close_begin_def)

lemma exited_run:
  "(cs_step P)\<^sup>*\<^sup>* s s' \<Longrightarrow> st_ckpt s = CkptExit \<Longrightarrow> ch_buf (st_out_ch s) = [] \<Longrightarrow>
     st_ckpt s' = CkptExit \<and> ch_buf (st_out_ch s') = [] \<and> st_delivered s' = st_delivered s"
  by (induction rule: rtranclp_induct) (auto dest: exited_step)

section \<open>Properties\<close>

text \<open>
  C20. Nothing panics before \<^verbatim>\<open>Close\<close>: in every state the service can reach before \<^verbatim>\<open>Close\<close> was
  called, with collaborators that do not panic themselves, no goroutine has sent to a closed
  channel, and every channel is open.
\<close>

theorem pipeline_no_panic:
  assumes "cs_reachable P has_retry cap s" and "safe_params P" and "st_closing s = None"
  shows "\<not> st_panic s \<and> all_open s"
  using no_panic_inv_reachable [OF assms(1)] base_inv_reachable [OF assms(1)] assms(2,3)
  by (simp add: no_panic_inv_def safe_params_def base_inv_def open_inv_def)

theorem pipeline_no_panic_witness:
  "\<exists>s. exec_moves (demo_params (Some [])) delivery_run (cs_init False demo_cap) = Some s \<and>
       \<not> st_panic s \<and> all_open s"
  using delivery_run_end exec_from_init demo_safe pipeline_no_panic by blast

text \<open>
  C18. Per network, blocks come out in the order the client emitted them and without a gap: in a
  service without retry, also while it shuts down, what the consumer received of a network is a
  prefix of the blocks of that network's successful events.
\<close>

theorem pipeline_fifo:
  assumes "cs_reachable P has_retry cap s" and "st_retry_ch s = None"
  shows "\<exists>rest. ok_blocks n (st_emitted s n) = of_net n (st_delivered s) @ rest"
  using delivered_in_line [OF assms, of n] by metis

theorem pipeline_fifo_witness:
  "\<exists>s rest. exec_moves (demo_params (Some [])) delivery_run (cs_init False demo_cap) = Some s \<and>
     ok_blocks eth_net (st_emitted s eth_net) = of_net eth_net (st_delivered s) @ rest"
  using delivery_run_end exec_from_init pipeline_fifo by blast

text \<open>
  C8. The checkpoint log describes the output: at any time, \<^verbatim>\<open>SaveCheckpoint\<close> has been called once
  for each block delivered, in the order of delivery, then for each block in the output channel
  and for at most one more: the block about to be sent or, after the end of the goroutine, one
  that was dropped. No block is delivered before its checkpoint.
\<close>

theorem pipeline_checkpoint_log:
  assumes "cs_reachable P has_retry cap s"
  shows "\<exists>extra. st_saved s = map block_key (st_delivered s @ ch_buf (st_out_ch s) @ extra) \<and>
                 length extra \<le> 1 \<and> (extra = ckpt_saved s \<or> st_ckpt s = CkptExit)"
proof -
  have "length (ckpt_saved s) \<le> 1" by (simp add: ckpt_saved_def split: ckpt_pc.splits)
  moreover have "length [b] \<le> 1" for b :: observed_block by simp
  ultimately show ?thesis using saved_inv_reachable [OF assms] unfolding saved_inv_def by blast
qed

theorem pipeline_checkpoint_log_witness:
  "\<exists>s extra. exec_moves (demo_params (Some [])) delivery_run (cs_init False demo_cap) = Some s \<and>
     st_saved s = map block_key (st_delivered s @ ch_buf (st_out_ch s) @ extra) \<and> length extra \<le> 1"
  using delivery_run_end exec_from_init pipeline_checkpoint_log by blast

text \<open>
  C19. Nothing is invented or duplicated, also during and after the shutdown: the consumer
  receives each block at most as often as a client emitted it in a successful event or a retry
  fetched it, and the notifier is called for a height of a network at most as often as the client
  reported a failure there.
\<close>

theorem pipeline_no_duplicates:
  assumes "cs_reachable P has_retry cap s"
  shows "mset (of_net n (st_delivered s)) \<subseteq>#
           mset (ok_blocks n (st_emitted s n)) + mset (of_net n (st_recovered s)) \<and>
         mset (keys_of_net n (map fail_key (st_notified s))) \<subseteq># mset (failed_keys n (st_emitted s n))"
proof -
  have "mset (of_net n (st_delivered s)) \<subseteq># blocks_at n s"
    by (simp add: blocks_at_def add.assoc)
  moreover have "mset (keys_of_net n (map fail_key (st_notified s))) \<subseteq># fails_at n s"
    by (simp add: fails_at_def add.assoc)
  ultimately show ?thesis
    using blocks_inv_reachable [OF assms, of n] fails_inv_reachable [OF assms, of n]
    unfolding blocks_inv_def fails_inv_def blocks_in_def fails_in_def by (meson subset_mset.order_trans)
qed

theorem pipeline_no_duplicates_witness:
  "\<exists>s. exec_moves (demo_params (Some [])) delivery_run (cs_init False demo_cap) = Some s \<and>
       st_delivered s \<noteq> [] \<and>
       mset (of_net eth_net (st_delivered s)) \<subseteq>#
         mset (ok_blocks eth_net (st_emitted s eth_net)) + mset (of_net eth_net (st_recovered s))"
  using delivery_run_end exec_from_init pipeline_no_duplicates
  by (metis (no_types, lifting) list.distinct(1))

text \<open>
  C7. No deadlock and no livelock: as long as the context is not done, every step of a goroutine or
  of the consumer takes the work left strictly down, and while there is work left one of them can
  make a step, whatever the fill of the channels.
\<close>

theorem pipeline_no_deadlock:
  assumes "cs_reachable P has_retry cap s" and "\<not> st_done s" and "safe_params P"
  shows "(\<forall>s'. work_step P s s' \<longrightarrow> load P s' < load P s) \<and>
         (load P s \<noteq> 0 \<longrightarrow> (\<exists>s'. work_step P s s'))"
proof -
  have "load P s' < load P s" if "work_step P s s'" for s'
  proof -
    have "\<not> st_panic s'"
      using running_no_panic [OF work_step_reachable [OF assms(1) that] _ assms(3)]
        work_step_running [OF that] assms(2) by simp
    then show ?thesis by (rule load_decreases [OF assms(1,2) that])
  qed
  moreover have "\<exists>s'. work_step P s s'" if "load P s \<noteq> 0"
    by (rule ccontr) (use not_stuck [OF assms] that in simp)
  ultimately show ?thesis by simp
qed

theorem pipeline_no_deadlock_witness:
  "\<exists>s. exec_moves (demo_params (Some [])) [MEmit eth_net good_event] (cs_init True demo_cap) = Some s \<and>
       load (demo_params (Some [])) s \<noteq> 0 \<and> (\<exists>s'. work_step (demo_params (Some [])) s s')"
proof -
  have "\<exists>s. exec_moves (demo_params (Some [])) [MEmit eth_net good_event] (cs_init True demo_cap) = Some s \<and>
            \<not> st_done s \<and> load (demo_params (Some [])) s \<noteq> 0"
    by (rule case_option_ex) code_simp
  then show ?thesis using pipeline_no_deadlock [OF exec_from_init _ demo_safe] by blast
qed

text \<open>
  C6. Everything is delivered: from every running state, the goroutines and the consumer can
  empty the service, and whenever they have, the consumer has received exactly the blocks of the
  successful events and the recovered ones, and exactly the failed heights were notified or
  resolved by the retry.
\<close>

theorem pipeline_drains:
  assumes "cs_reachable P has_retry cap s" and "\<not> st_done s" and "safe_params P"
  shows "(\<exists>s'. (work_step P)\<^sup>*\<^sup>* s s' \<and> load P s' = 0) \<and>
    (\<forall>s' n. (work_step P)\<^sup>*\<^sup>* s s' \<and> load P s' = 0 \<and> n \<in> set (p_networks P) \<longrightarrow>
       mset (of_net n (st_delivered s')) =
         mset (ok_blocks n (st_emitted s n)) + mset (of_net n (st_recovered s')) \<and>
       mset (keys_of_net n (map fail_key (st_notified s' @ st_resolved s'))) =
         mset (failed_keys n (st_emitted s n)))"
proof (intro conjI allI impI; (elim conjE)?)
  show "\<exists>s'. (work_step P)\<^sup>*\<^sup>* s s' \<and> load P s' = 0" by (rule drains [OF assms])
next
  fix s' n
  assume run: "(work_step P)\<^sup>*\<^sup>* s s'" and zero: "load P s' = 0" and n: "n \<in> set (p_networks P)"
  have s': "cs_reachable P has_retry cap s'" "\<not> st_done s'" "st_emitted s' = st_emitted s"
    using work_run_invariant [OF run assms(1)] assms(2) by auto
  show "mset (of_net n (st_delivered s')) =
          mset (ok_blocks n (st_emitted s n)) + mset (of_net n (st_recovered s'))"
    using blocks_inv_reachable [OF s'(1), of n] s'(2,3) load_zero(1) [OF zero n]
    by (simp add: blocks_inv_def blocks_in_def)
  show "mset (keys_of_net n (map fail_key (st_notified s' @ st_resolved s'))) =
          mset (failed_keys n (st_emitted s n))"
    using fails_inv_reachable [OF s'(1), of n] s'(2,3) load_zero(2) [OF zero n]
    by (simp add: fails_inv_def fails_in_def)
qed

theorem pipeline_drains_witness:
  "\<exists>s'. (work_step (demo_params (Some [])))\<^sup>*\<^sup>* (cs_init True demo_cap) s' \<and> load (demo_params (Some [])) s' = 0"
proof -
  have "\<not> st_done (cs_init True demo_cap)" by (simp add: cs_init_def)
  from pipeline_drains [OF cs_reachable.init this demo_safe] show ?thesis by blast
qed

text \<open>
  C25. A recovered block is reported as a failure all the same: with a retrier that answers as the
  repository's does when the operation succeeds, no failure is ever resolved, and when the running
  service has nothing left to do, the notifier has been called for every failed height, although
  the blocks of those that a retry fetched were delivered.
\<close>

theorem pipeline_recovered_still_notified:
  assumes "cs_reachable P has_retry cap s" and "\<not> st_done s" and "load P s = 0"
    and "fst (retry_execute do_fn cfg operation w) = Val (p_ok_result P)" and "n \<in> set (p_networks P)"
  shows "mset (keys_of_net n (map fail_key (st_notified s))) = mset (failed_keys n (st_emitted s n)) \<and>
         mset (of_net n (st_recovered s)) \<subseteq># mset (of_net n (st_delivered s))"
proof -
  have "st_resolved s = []"
    using resolved_inv_reachable [OF assms(1)] retry_execute_Val [OF assms(4)]
    by (simp add: resolved_inv_def)
  then have "mset (keys_of_net n (map fail_key (st_notified s))) = mset (failed_keys n (st_emitted s n))"
    using fails_inv_reachable [OF assms(1), of n] assms(2) load_zero(2) [OF assms(3,5)]
    by (simp add: fails_inv_def fails_in_def)
  moreover have "mset (of_net n (st_recovered s)) \<subseteq># mset (of_net n (st_delivered s))"
    using blocks_inv_reachable [OF assms(1), of n] assms(2) load_zero(1) [OF assms(3,5)]
    by (simp add: blocks_inv_def blocks_in_def)
  ultimately show ?thesis by blast
qed

theorem pipeline_recovered_still_notified_witness:
  "\<exists>s. exec_moves (demo_params (Some [])) recovery_run (cs_init True demo_cap) = Some s \<and>
       st_delivered s = [\<lparr>ob_network = eth_net, ob_block = demo_block\<rparr>] \<and>
       mset (keys_of_net eth_net (map fail_key (st_notified s))) = {# (eth_net, ''0x1'') #}"
proof -
  obtain s where s: "exec_moves (demo_params (Some [])) recovery_run (cs_init True demo_cap) = Some s"
    "\<not> st_done s" "load (demo_params (Some [])) s = 0" "st_emitted s eth_net = [bad_event]"
    "st_delivered s = [\<lparr>ob_network = eth_net, ob_block = demo_block\<rparr>]"
    using recovery_run_end by blast
  have "fst (retry_execute (\<lambda>_ _ w. (DoNil, w)) retry_default_config (\<lambda>w. (None, w)) ()) =
        Val (p_ok_result (demo_params (Some [])))"
    by (simp add: retry_execute_def demo_params_def)
  from pipeline_recovered_still_notified [OF exec_from_init [OF s(1)] s(2,3) this, of eth_net] s(1,4,5)
  show ?thesis by (simp add: demo_params_def bad_event_def)
qed

text \<open>
  C31. What panics. With collaborators that do not panic, a step panics exactly when a goroutine is at a send to a
  channel that is closed; in particular no channel is closed twice. And \<^verbatim>\<open>Close\<close> brings this about: from any
  state before it in which a goroutine is at a send, \<^verbatim>\<open>closeFunc\<close> can run to its end first, and then the send finds
  its channel closed. \<^verbatim>\<open>select\<close> may take it.
\<close>

theorem close_panics_senders:
  assumes "cs_reachable P has_retry cap s" and "safe_params P" and "\<not> st_panic s"
  shows "((\<exists>s'. cs_step P s s' \<and> st_panic s') \<longleftrightarrow> (\<exists>c. sends P s c \<and> closed c s)) \<and>
    (\<forall>c. st_closing s = None \<and> sends P s c \<longrightarrow>
       \<not> closed c s \<and>
       (\<exists>s1. (cs_step P)\<^sup>*\<^sup>* s s1 \<and> \<not> st_panic s1 \<and> st_closing s1 = Some [] \<and> sends P s1 c \<and> closed c s1))"
proof (intro conjI allI impI; (elim conjE)?)
  note inv = closing_inv_reachable [OF assms(1)]
  show "(\<exists>s'. cs_step P s s' \<and> st_panic s') \<longleftrightarrow> (\<exists>c. sends P s c \<and> closed c s)" by (rule panics_iff [OF assms(3,2) inv])
  fix c
  assume c: "st_closing s = None" "sends P s c"
  then show "\<not> closed c s" using inv by (simp add: closing_inv_def all_open_closed)
  let ?s = "close_begin s"
  have step: "cs_step P s ?s" using assms(3) c(1) by (rule cs_step.close)
  have same: "sends P ?s c" using c(2) by (cases c) (simp_all add: sends_def close_begin_def)
  have left: "c \<in> set (the (st_closing ?s))" using c(2) by (cases c) (simp_all add: sends_def close_begin_def)
  obtain s1 where "(cs_step P)\<^sup>*\<^sup>* ?s s1" "\<not> st_panic s1" "st_closing s1 = Some []"
    "\<forall>d. closed d s1 \<longleftrightarrow> d \<in> set (the (st_closing ?s)) \<or> closed d ?s" "\<forall>d. sends P s1 d = sends P ?s d"
    using closing_run_through [of ?s "the (st_closing ?s)" P] closing_inv_step [OF step inv] assms(3)
    by (auto simp: close_begin_def)
  with step same left show
    "\<exists>s1. (cs_step P)\<^sup>*\<^sup>* s s1 \<and> \<not> st_panic s1 \<and> st_closing s1 = Some [] \<and> sends P s1 c \<and> closed c s1"
    by (intro exI [of _ s1]) (auto intro: converse_rtranclp_into_rtranclp)
qed

theorem close_panics_senders_witness:
  "\<exists>s s1. cs_reachable (demo_params (Some [])) True demo_cap s \<and> st_closing s = None \<and>
     (cs_step (demo_params (Some [])))\<^sup>*\<^sup>* s s1 \<and> st_closing s1 = Some [] \<and>
     sends (demo_params (Some [])) s1 CloseBlocks \<and> closed CloseBlocks s1"
  using sending_run_end exec_from_init demo_safe close_panics_senders by meson

text \<open>
  C26. A shutdown can lose a block for good: there is a reachable state in which the checkpoint of an
  emitted block has been saved and from which no continuation whatsoever delivers it. A restart
  from the checkpoint begins behind it.
\<close>

theorem checkpointed_block_lost:
  "\<exists>P s. safe_params P \<and> cs_reachable P True demo_cap s \<and> st_saved s = [(eth_net, ''0x1'')] \<and>
         ok_blocks eth_net (st_emitted s eth_net) = [\<lparr>ob_network = eth_net, ob_block = demo_block\<rparr>] \<and>
         \<not> (\<exists>s'. (cs_step P)\<^sup>*\<^sup>* s s' \<and> st_delivered s' \<noteq> [])"
proof -
  obtain s where s: "exec_moves (demo_params (Some [])) shutdown_run (cs_init True demo_cap) = Some s"
    "st_saved s = [(eth_net, ''0x1'')]" "st_emitted s eth_net = [good_event]" "st_ckpt s = CkptExit"
    "ch_buf (st_out_ch s) = []" "st_delivered s = []"
    using shutdown_run_end by blast
  have "ok_blocks eth_net (st_emitted s eth_net) = [\<lparr>ob_network = eth_net, ob_block = demo_block\<rparr>]"
    using s(3) by (simp add: good_event_def)
  with s exec_from_init [OF s(1)] demo_safe exited_run show ?thesis by metis
qed

end
