(* ===== verification/Chainstream_Service.thy ===== *)
theory Chainstream_Service
  imports Pipeline_Props
begin

text \<open>
  The service object of \<^verbatim>\<open>internal/chainstream\<close>: the interfaces it depends on, \<^verbatim>\<open>New\<close> and its
  options, \<^verbatim>\<open>Start\<close> with \<^verbatim>\<open>launchAllNetworkSubscriptions\<close>, and \<^verbatim>\<open>Close\<close>. A Go interface is a record
  of the operations, each over the state \<open>'w\<close> of everything outside the service. The running
  goroutines are the state machine of theory \<open>Pipeline\<close>; here a call of \<^verbatim>\<open>closeFunc\<close> runs to its end.
\<close>

section \<open>The interfaces\<close>

record 'w checkpoint_storage =
  cks_save :: "string \<Rightarrow> hex \<Rightarrow> 'w \<Rightarrow> (gerr option \<times> 'w) outcome"
  cks_load :: "string \<Rightarrow> 'w \<Rightarrow> (hex \<times> gerr option) \<times> 'w"

text \<open>\<^verbatim>\<open>Subscribe\<close> yields an error or a channel, of which \<^verbatim>\<open>Start\<close> needs the capacity only.\<close>

record 'w blockchain =
  bc_fetch_block_by_height :: "hex \<Rightarrow> 'w \<Rightarrow> ((cs_block \<times> gerr option) \<times> 'w) outcome"
  bc_subscribe :: "hex \<Rightarrow> 'w \<Rightarrow> (gerr + nat) \<times> 'w"

record 'w failure_notifier =
  fn_notify :: "dispatch_failure \<Rightarrow> 'w \<Rightarrow> gerr option \<times> 'w"

record 'w retrier =
  rt_execute :: "'w operation \<Rightarrow> 'w \<Rightarrow> gerr list option outcome \<times> 'w"

section \<open>The default collaborators\<close>

definition nop_save_checkpoint :: "string \<Rightarrow> hex \<Rightarrow> 'w \<Rightarrow> (gerr option \<times> 'w) outcome" where
  "nop_save_checkpoint network height w = Val (None, w)"

definition nop_load_latest_checkpoint :: "string \<Rightarrow> 'w \<Rightarrow> (hex \<times> gerr option) \<times> 'w" where
  "nop_load_latest_checkpoint network w = (('''', Some ErrNoCheckpointFound), w)"

definition nop_checkpoint :: "'w checkpoint_storage" where
  "nop_checkpoint = \<lparr>cks_save = nop_save_checkpoint, cks_load = nop_load_latest_checkpoint\<rparr>"

definition log_notify_dispatch_failure :: "dispatch_failure \<Rightarrow> 'w \<Rightarrow> gerr option \<times> 'w" where
  "log_notify_dispatch_failure failure w = (None, w)"

definition log_failure_notifier :: "'w failure_notifier" where
  "log_failure_notifier = \<lparr>fn_notify = log_notify_dispatch_failure\<rparr>"

section \<open>New\<close>

record 'w cs_config =
  cfg_retry :: "'w retrier option"
  cfg_checkpoint :: "'w checkpoint_storage"
  cfg_notifier :: "'w failure_notifier"

type_synonym 'w cs_option = "'w cs_config \<Rightarrow> 'w cs_config"

definition cs_with_notifier :: "'w failure_notifier \<Rightarrow> 'w cs_option" where
  "cs_with_notifier n c = c\<lparr>cfg_notifier := n\<rparr>"

definition cs_with_retry :: "'w retrier \<Rightarrow> 'w cs_option" where
  "cs_with_retry r c = c\<lparr>cfg_retry := Some r\<rparr>"

definition cs_with_checkpoint :: "'w checkpoint_storage \<Rightarrow> 'w cs_option" where
  "cs_with_checkpoint s c = c\<lparr>cfg_checkpoint := s\<rparr>"

text \<open>\<open>svc_close\<close>: the channels that the stored \<^verbatim>\<open>closeFunc\<close> closes over, or \<open>None\<close> for a nil one.\<close>

record 'w cs_service =
  svc_started :: bool
  svc_close :: "cs_state option"
  svc_networks :: "(string \<times> 'w blockchain) list"
  svc_storage :: "'w checkpoint_storage"
  svc_notifier :: "'w failure_notifier"
  svc_retry :: "'w retrier option"

definition cs_new :: "(string \<times> 'w blockchain) list \<Rightarrow> 'w cs_option list \<Rightarrow> 'w cs_service" where
  "cs_new networks opts =
     (let cfg = fold (\<lambda>opt c. opt c) opts
        \<lparr>cfg_retry = None, cfg_checkpoint = nop_checkpoint, cfg_notifier = log_failure_notifier\<rparr> in
      \<lparr>svc_started = False, svc_close = None, svc_networks = networks,
       svc_storage = cfg_checkpoint cfg, svc_notifier = cfg_notifier cfg, svc_retry = cfg_retry cfg\<rparr>)"

section \<open>launchAllNetworkSubscriptions\<close>

definition start_height :: "hex \<Rightarrow> hex outcome" where
  "start_height h = (if hex_is_empty h then Val h else hex_add h 1)"

text \<open>
  The loop, over the networks in the order of the iteration. The result is the error that ended
  it, if any, and the subscriptions made so far: network, start height, capacity of the channel.
\<close>

fun launch_all ::
    "'w checkpoint_storage \<Rightarrow> (string \<times> 'w blockchain) list \<Rightarrow> 'w \<Rightarrow>
     (gerr option \<times> (string \<times> hex \<times> nat) list \<times> 'w) outcome" where
  "launch_all storage [] w = Val (None, [], w)"
| "launch_all storage ((network, client) # rest) w =
     (case cks_load storage network w of
        ((h, err), w1) \<Rightarrow>
          if (case err of Some e \<Rightarrow> \<not> errors_is e ErrNoCheckpointFound | None \<Rightarrow> False)
          then Val (err, [], w1)
          else
            bind_outcome (start_height h) (\<lambda>sh.
              case bc_subscribe client sh w1 of
                (Inl e, w2) \<Rightarrow> Val (Some e, [], w2)
              | (Inr cap, w2) \<Rightarrow>
                  bind_outcome (launch_all storage rest w2) (\<lambda>(r, launched, w3).
                    Val (r, (network, sh, cap) # launched, w3))))"

section \<open>Start and Close\<close>

fun close_all :: "closer list \<Rightarrow> cs_state \<Rightarrow> cs_state outcome" where
  "close_all [] s = Val (s\<lparr>st_closing := Some []\<rparr>)"
| "close_all (c # cs) s = bind_outcome (close_one c s) (close_all cs)"

text \<open>\<^verbatim>\<open>closeFunc\<close> without interruption: cancel, then the channels one after the other.\<close>

definition run_close :: "cs_state \<Rightarrow> cs_state outcome" where
  "run_close s = close_all (the (st_closing (close_begin s))) (close_begin s)"

definition launched_caps :: "(string \<times> hex \<times> nat) list \<Rightarrow> string \<Rightarrow> nat" where
  "launched_caps launched n = (case map_of launched n of Some (sh, cap) \<Rightarrow> cap | None \<Rightarrow> 0)"

definition cs_start ::
    "((string \<times> 'w blockchain) list \<Rightarrow> (string \<times> 'w blockchain) list) \<Rightarrow> 'w cs_service \<Rightarrow> 'w \<Rightarrow>
     ((gerr + cs_state) \<times> 'w cs_service \<times> 'w) outcome" where
  "cs_start ord s w =
     (if svc_started s then Val (Inl ChainstreamAlreadyStarted, s, w)
      else
        bind_outcome (launch_all (svc_storage s) (ord (svc_networks s)) w) (\<lambda>(err, launched, w').
          let st = cs_init (svc_retry s \<noteq> None) (launched_caps launched) in
          case err of
            Some e \<Rightarrow> bind_outcome (run_close st) (\<lambda>st'. Val (Inl e, s\<lparr>svc_close := Some st'\<rparr>, w'))
          | None \<Rightarrow> Val (Inr st, s\<lparr>svc_close := Some st, svc_started := True\<rparr>, w')))"

definition cs_close :: "'w cs_service \<Rightarrow> 'w cs_service outcome" where
  "cs_close s =
     bind_outcome (case svc_close s of None \<Rightarrow> Val () | Some st \<Rightarrow> bind_outcome (run_close st) (\<lambda>_. Val ()))
       (\<lambda>_. Val (s\<lparr>svc_started := False, svc_close := None\<rparr>))"

section \<open>Lemmas\<close>

definition all_closed :: "cs_state \<Rightarrow> bool" where
  "all_closed s \<longleftrightarrow>
     st_done s \<and> ch_closed (st_pre_ch s) \<and> ch_closed (st_out_ch s) \<and> ch_closed (st_fail_ch s) \<and>
     (\<forall>c. st_retry_ch s = Some c \<longrightarrow> ch_closed c)"

lemma run_close_open: "all_open s \<Longrightarrow> \<exists>s'. run_close s = Val s' \<and> all_closed s'"
  by (cases "st_retry_ch s") (auto simp: run_close_def close_begin_def all_open_def all_closed_def)

lemma run_close_closed: "ch_closed (st_pre_ch s) \<Longrightarrow> run_close s = Panic"
  by (simp add: run_close_def close_begin_def)

lemma cs_init_open: "all_open (cs_init r cap)"
  by (simp add: all_open_def cs_init_def make_chan_def)

text \<open>What \<^verbatim>\<open>launchAllNetworkSubscriptions\<close> did for one network.\<close>

definition launched_ok :: "'w checkpoint_storage \<Rightarrow> string \<times> hex \<times> nat \<Rightarrow> bool" where
  "launched_ok storage l \<longleftrightarrow>
     (case l of (n, sh, cap) \<Rightarrow>
       \<exists>w h err w'. cks_load storage n w = ((h, err), w') \<and>
         (\<forall>e. err = Some e \<longrightarrow> errors_is e ErrNoCheckpointFound) \<and> start_height h = Val sh)"

lemma launch_all_ok:
  "launch_all storage nets w = Val (r, launched, w') \<Longrightarrow>
     list_all (launched_ok storage) launched \<and>
     (r = None \<longrightarrow> map fst launched = map fst nets) \<and>
     (r \<noteq> None \<longrightarrow> (\<exists>k < length nets. map fst launched = map fst (take k nets)))"
proof (induction storage nets w arbitrary: r launched w' rule: launch_all.induct)
  case (2 storage network client rest w)
  obtain h err w1 where load: "cks_load storage network w = ((h, err), w1)"
    by (metis surj_pair)
  show ?case
  proof (cases "case err of Some e \<Rightarrow> \<not> errors_is e ErrNoCheckpointFound | None \<Rightarrow> False")
    case True
    with 2(2) load show ?thesis by (auto split: option.splits)
  next
    case False
    with 2(2) load obtain sh where sh: "start_height h = Val sh"
      by (cases "start_height h") auto
    from False have err: "\<forall>e. err = Some e \<longrightarrow> errors_is e ErrNoCheckpointFound" by (cases err) auto
    obtain sub w2 where sub: "bc_subscribe client sh w1 = (sub, w2)" by (metis surj_pair)
    show ?thesis
    proof (cases sub)
      case (Inl e)
      with 2(2) load False sh sub show ?thesis by auto
    next
      case (Inr cap)
      with 2(2) load False sh sub obtain ls where
        rest: "launch_all storage rest w2 = Val (r, ls, w')" "launched = (network, sh, cap) # ls"
        by (auto simp: bind_outcome_Val_iff)
      have "launched_ok storage (network, sh, cap)"
        using load sh err by (auto simp: launched_ok_def)
      moreover have "list_all (launched_ok storage) ls \<and> (r = None \<longrightarrow> map fst ls = map fst rest) \<and>
          (r \<noteq> None \<longrightarrow> (\<exists>k < length rest. map fst ls = map fst (take k rest)))"
        by (rule 2(1) [OF load [symmetric] refl False sub [symmetric] Inr rest(1)])
      ultimately show ?thesis using rest(2) by fastforce
    qed
  qed
qed simp

lemma cs_start_success:
  assumes "cs_start ord s w = Val (Inr st, s', w')"
  obtains launched where "\<not> svc_started s" "launch_all (svc_storage s) (ord (svc_networks s)) w = Val (None, launched, w')"
    "st = cs_init (svc_retry s \<noteq> None) (launched_caps launched)"
    "s' = s\<lparr>svc_close := Some st, svc_started := True\<rparr>"
  using assms by (auto simp: cs_start_def bind_outcome_Val_iff Let_def split: if_splits option.splits)

lemma cs_start_failure:
  assumes "cs_start ord s w = Val (Inl e, s', w')" "\<not> svc_started s"
  obtains st where "all_closed st" "s' = s\<lparr>svc_close := Some st\<rparr>"
proof -
  from assms obtain launched st where
    "run_close (cs_init (svc_retry s \<noteq> None) (launched_caps launched)) = Val st"
    "s' = s\<lparr>svc_close := Some st\<rparr>"
    by (auto simp: cs_start_def bind_outcome_Val_iff Let_def split: if_splits option.splits)
  with that run_close_open [OF cs_init_open] show ?thesis by (metis outcome.inject)
qed

lemma cs_started_close:
  assumes "cs_start ord s w = Val (Inr st, s', w')"
  shows "cs_close s' = Val (s\<lparr>svc_started := False, svc_close := None\<rparr>)"
proof -
  obtain launched where l: "st = cs_init (svc_retry s \<noteq> None) (launched_caps launched)"
    "s' = s\<lparr>svc_close := Some st, svc_started := True\<rparr>"
    by (rule cs_start_success [OF assms])
  have "all_open st" using l(1) by (simp add: cs_init_open)
  then obtain st' where "run_close st = Val st'" using run_close_open by blast
  with l(2) show ?thesis by (simp add: cs_close_def)
qed

section \<open>Witness services\<close>

definition steady_client :: "unit blockchain" where
  "steady_client =
     \<lparr>bc_fetch_block_by_height = (\<lambda>h w. Val ((zero_block, None), w)), bc_subscribe = (\<lambda>h w. (Inr 200, w))\<rparr>"

definition broken_client :: "unit blockchain" where
  "broken_client = steady_client\<lparr>bc_subscribe := (\<lambda>h w. (Inl (ErrExternal ''dial''), w))\<rparr>"

definition demo_service :: "unit blockchain \<Rightarrow> unit cs_service" where
  "demo_service c = cs_new [(eth_net, c)] []"

lemma demo_service_start:
  "cs_start (\<lambda>xs. xs) (demo_service steady_client) () =
     Val (Inr (cs_init False (launched_caps [(eth_net, '''', 200)])),
          demo_service steady_client\<lparr>svc_close := Some (cs_init False (launched_caps [(eth_net, '''', 200)])),
            svc_started := True\<rparr>, ())"
  by (simp add: demo_service_def cs_start_def cs_new_def nop_checkpoint_def nop_load_latest_checkpoint_def
      steady_client_def start_height_def hex_is_empty_def Let_def)

lemma demo_service_start_fails:
  "\<exists>s'. cs_start (\<lambda>xs. xs) (demo_service broken_client) () = Val (Inl (ErrExternal ''dial''), s', ())"
  using run_close_open [OF cs_init_open, of False "launched_caps []"]
  by (auto simp: demo_service_def cs_start_def cs_new_def nop_checkpoint_def nop_load_latest_checkpoint_def
      broken_client_def steady_client_def start_height_def hex_is_empty_def Let_def)

section \<open>Properties\<close>

text \<open>
  A successful \<^verbatim>\<open>Start\<close> subscribes to every registered network exactly once, in whatever order
  the map is iterated, each at the height behind the checkpoint that the storage returned for it (or
  at the empty height when there is none), and leaves the goroutines in the initial state of the
  pipeline.
\<close>

theorem start_subscribes_all:
  assumes "cs_start ord s w = Val (Inr st, s', w')" and "permuting ord"
  shows "\<exists>launched. st = cs_init (svc_retry s \<noteq> None) (launched_caps launched) \<and>
           mset (map fst launched) = mset (map fst (svc_networks s)) \<and>
           list_all (launched_ok (svc_storage s)) launched \<and> svc_started s' \<and> svc_close s' = Some st"
proof -
  obtain launched where l: "launch_all (svc_storage s) (ord (svc_networks s)) w = Val (None, launched, w')"
    "st = cs_init (svc_retry s \<noteq> None) (launched_caps launched)"
    "s' = s\<lparr>svc_close := Some st, svc_started := True\<rparr>"
    by (rule cs_start_success [OF assms(1)])
  have "mset (map fst (ord (svc_networks s))) = mset (map fst (svc_networks s))"
    using assms(2) by (simp add: permuting_mset)
  with l launch_all_ok [OF l(1)] show ?thesis by (intro exI [of _ launched]) simp
qed

theorem start_subscribes_all_witness:
  "\<exists>launched. mset (map fst launched) = {#eth_net#} \<and>
     list_all (launched_ok (nop_checkpoint :: unit checkpoint_storage)) launched"
proof -
  have "svc_networks (demo_service steady_client) = [(eth_net, steady_client)]"
    "svc_storage (demo_service steady_client) = nop_checkpoint"
    by (simp_all add: demo_service_def cs_new_def)
  moreover obtain launched where
    "mset (map fst launched) = mset (map fst (svc_networks (demo_service steady_client)))"
    "list_all (launched_ok (svc_storage (demo_service steady_client))) launched"
    using start_subscribes_all [OF demo_service_start permuting_id] by blast
  ultimately show ?thesis by (intro exI [of _ launched]) simp
qed

text \<open>
  The life cycle of a service that started: a second \<^verbatim>\<open>Start\<close> is refused and changes nothing,
  and \<^verbatim>\<open>Close\<close> returns, with the service as fresh as before, so that it can be started again.
\<close>

theorem service_lifecycle:
  assumes "cs_start ord s w = Val (Inr st, s', w')"
  shows "cs_start ord' s' w2 = Val (Inl ChainstreamAlreadyStarted, s', w2) \<and>
         cs_close s' = Val (s\<lparr>svc_started := False, svc_close := None\<rparr>)"
proof -
  have "svc_started s'" by (rule cs_start_success [OF assms]) simp
  then show ?thesis by (simp add: cs_start_def cs_started_close [OF assms])
qed

theorem service_lifecycle_witness:
  "\<exists>st s'. cs_start (\<lambda>xs. xs) (demo_service steady_client) () = Val (Inr st, s', ()) \<and>
     cs_close s' = Val (demo_service steady_client)"
  using demo_service_start service_lifecycle [OF demo_service_start]
  by (auto simp: demo_service_def cs_new_def Let_def)

text \<open>
  C32. After a failed \<^verbatim>\<open>Start\<close>, \<^verbatim>\<open>Close\<close> panics: \<^verbatim>\<open>Start\<close> has run \<^verbatim>\<open>closeFunc\<close> and leaves it in
  the field, and \<^verbatim>\<open>Close\<close> runs it again, on closed channels. Whatever the error of the start was.
\<close>

theorem failed_start_close_panics:
  assumes "cs_start ord s w = Val (Inl e, s', w')" and "\<not> svc_started s"
  shows "cs_close s' = Panic"
proof -
  obtain st where "all_closed st" "s' = s\<lparr>svc_close := Some st\<rparr>"
    by (rule cs_start_failure [OF assms])
  then show ?thesis by (simp add: cs_close_def run_close_closed all_closed_def)
qed

theorem failed_start_close_panics_witness:
  "\<exists>s'. cs_start (\<lambda>xs. xs) (demo_service broken_client) () = Val (Inl (ErrExternal ''dial''), s', ()) \<and>
        cs_close s' = Panic"
proof -
  have "\<not> svc_started (demo_service broken_client)" by (simp add: demo_service_def cs_new_def Let_def)
  moreover obtain s' where
    "cs_start (\<lambda>xs. xs) (demo_service broken_client) () = Val (Inl (ErrExternal ''dial''), s', ())"
    using demo_service_start_fails by blast
  ultimately show ?thesis using failed_start_close_panics by fast
qed

end
