(* ===== verification/Poller.thy ===== *)
theory Poller
  imports Chain_Types
begin

text \<open>
  The polling loop of the blockchain clients. \<^verbatim>\<open>pollNewBlocks\<close> and \<^verbatim>\<open>Subscribe\<close> have the same
  body in \<^verbatim>\<open>internal/infra/blockchain/ethereum/block.go\<close> and \<^verbatim>\<open>.../solana/block.go\<close>; they differ
  in the calls that fetch the latest height and a block. Those two calls are arguments here, over
  a state \<open>'w\<close> of the world outside (the node, the network), and the clients instantiate them.
  The locale \<open>block_source\<close> is the law the loop needs of the first call.
\<close>

type_synonym 'w latest_fn = "'w \<Rightarrow> (hex \<times> gerr option) \<times> 'w"
type_synonym 'w block_fn = "hex \<Rightarrow> 'w \<Rightarrow> (cs_block \<times> gerr option) \<times> 'w"

section \<open>The loop\<close>

text \<open>
  One iteration: fetch the block at \<open>h\<close> and send one event, with the block as far as it was
  decoded and the error of the fetch.
\<close>

definition poll_one :: "'w block_fn \<Rightarrow> hex \<Rightarrow> 'w \<Rightarrow> blockchain_event \<times> 'w" where
  "poll_one get_block h w =
     (case get_block h w of
        ((blk, err), w') \<Rightarrow> (\<lparr>ev_height = h, ev_block = blk, ev_err = err\<rparr>, w'))"

text \<open>
  \<^verbatim>\<open>for h := fromHeight; h.Int() <= latestHeight.Int(); h = h.Add(1)\<close>. The comparison is on
  \<^verbatim>\<open>int64\<close> and the increment wraps, so the loop may not end: \<open>None\<close> is the run that does not.
  The events sent so far are accumulated in \<open>acc\<close>.
\<close>

partial_function (option) poll_loop ::
    "'w block_fn \<Rightarrow> hex \<Rightarrow> hex \<Rightarrow> 'w \<Rightarrow> blockchain_event list \<Rightarrow>
     (blockchain_event list \<times> 'w) outcome option" where
  "poll_loop get_block latest h w acc =
     (case hex_int h of
        Panic \<Rightarrow> Some Panic
      | Val hv \<Rightarrow>
          (case hex_int latest of
             Panic \<Rightarrow> Some Panic
           | Val lv \<Rightarrow>
               if sint hv \<le> sint lv then
                 (case poll_one get_block h w of
                    (ev, w') \<Rightarrow>
                      (case hex_add h 1 of
                         Panic \<Rightarrow> Some Panic
                       | Val h' \<Rightarrow> poll_loop get_block latest h' w' (acc @ [ev])))
               else Some (Val (acc, w))))"

definition poll_new_blocks ::
    "'w latest_fn \<Rightarrow> 'w block_fn \<Rightarrow> hex \<Rightarrow> 'w \<Rightarrow>
     (blockchain_event list \<times> hex \<times> 'w) outcome option" where
  "poll_new_blocks get_latest get_block frm w =
     (case get_latest w of
        ((latest, Some err), w') \<Rightarrow>
          Some (Val ([\<lparr>ev_height = frm, ev_block = zero_block, ev_err = Some err\<rparr>], frm, w'))
      | ((latest, None), w') \<Rightarrow>
          if frm \<ge> latest then Some (Val ([], frm, w'))
          else
            (case poll_loop get_block latest frm w' [] of
               None \<Rightarrow> None
             | Some Panic \<Rightarrow> Some Panic
             | Some (Val (evs, w'')) \<Rightarrow>
                 Some (bind_outcome (hex_add latest 1) (\<lambda>nxt. Val (evs, nxt, w'')))))"

text \<open>
  \<^verbatim>\<open>Subscribe\<close>: the start height, then rounds of polling. The context is looked at only after
  a poll, so the goroutine makes at least one; \<open>subscribe_rounds n\<close> is a run of \<open>n\<close> polls.
\<close>

definition subscribe_init :: "'w latest_fn \<Rightarrow> hex \<Rightarrow> 'w \<Rightarrow> (gerr + hex) \<times> 'w" where
  "subscribe_init get_latest frm w =
     (if hex_is_empty frm then
        (case get_latest w of
           ((h, Some err), w') \<Rightarrow> (Inl err, w')
         | ((h, None), w') \<Rightarrow> (Inr h, w'))
      else (Inr frm, w))"

fun subscribe_rounds ::
    "'w latest_fn \<Rightarrow> 'w block_fn \<Rightarrow> nat \<Rightarrow> hex \<Rightarrow> 'w \<Rightarrow>
     (blockchain_event list \<times> hex \<times> 'w) outcome option" where
  "subscribe_rounds get_latest get_block 0 frm w = Some (Val ([], frm, w))"
| "subscribe_rounds get_latest get_block (Suc n) frm w =
     (case poll_new_blocks get_latest get_block frm w of
        None \<Rightarrow> None
      | Some Panic \<Rightarrow> Some Panic
      | Some (Val (evs, nxt, w')) \<Rightarrow>
          (case subscribe_rounds get_latest get_block n nxt w' of
             None \<Rightarrow> None
           | Some Panic \<Rightarrow> Some Panic
           | Some (Val (evs', nxt', w'')) \<Rightarrow> Some (Val (evs @ evs', nxt', w''))))"

section \<open>What the loop emits\<close>

text \<open>An event is honest if it carries what some call of \<open>get_block\<close> at its height returned.\<close>

definition honest_event :: "'w block_fn \<Rightarrow> blockchain_event \<Rightarrow> bool" where
  "honest_event get_block ev \<longleftrightarrow>
     (\<exists>w w'. get_block (ev_height ev) w = ((ev_block ev, ev_err ev), w'))"

text \<open>The heights from \<open>h\<close>, which reads as \<open>i\<close>, up to \<open>j\<close>.\<close>

definition heights_upto :: "hex \<Rightarrow> int \<Rightarrow> int \<Rightarrow> hex list" where
  "heights_upto h i j =
     (if i \<le> j then h # map (\<lambda>k. hex_from_int (word_of_int k)) [i + 1..j] else [])"

lemma poll_one_honest:
  "poll_one get_block h w = (ev, w') \<Longrightarrow> ev_height ev = h \<and> honest_event get_block ev"
  unfolding poll_one_def honest_event_def by (auto split: prod.splits) blast

lemma hex_add_Val: "hex_int h = Val v \<Longrightarrow> hex_add h n = Val (hex_from_int (v + n))"
  by (simp add: hex_add_def)

lemma hex_int_Val_iff: "(\<exists>v. hex_int h = Val v) \<longleftrightarrow> 2 \<le> length h"
  by (auto simp: hex_int_def)

lemma heights_upto_step:
  "i \<le> j \<Longrightarrow> heights_upto h i j = h # heights_upto (hex_from_int (word_of_int (i + 1))) (i + 1) j"
  by (auto simp: heights_upto_def upto.simps [of "i + 1" j])

lemma poll_loop_complete:
  assumes "hex_int h = Val v" "hex_int latest = Val l" "sint l < 2 ^ 63 - 1"
  shows "\<exists>evs w'. poll_loop get_block latest h w acc = Some (Val (acc @ evs, w')) \<and>
           map ev_height evs = heights_upto h (sint v) (sint l) \<and>
           list_all (honest_event get_block) evs"
  using assms
proof (induction "nat (sint l + 1 - sint v)" arbitrary: h v w acc rule: less_induct)
  case less
  show ?case
  proof (cases "sint v \<le> sint l")
    case False
    then show ?thesis
      using less.prems by (subst poll_loop.simps) (simp add: heights_upto_def)
  next
    case True
    obtain ev w1 where one: "poll_one get_block h w = (ev, w1)" by (cases "poll_one get_block h w")
    have inc: "sint (v + 1) = sint v + 1"
      using True less.prems(3) by (intro sint_inc64) linarith
    then have dec: "nat (sint l + 1 - sint (v + 1)) < nat (sint l + 1 - sint v)"
      using True by simp
    have next_h: "word_of_int (sint v + 1) = v + 1"
      using inc word_of_int_sint64 [of "v + 1"] by simp
    obtain evs w' where rec:
      "poll_loop get_block latest (hex_from_int (v + 1)) w1 (acc @ [ev]) = Some (Val ((acc @ [ev]) @ evs, w'))"
      "map ev_height evs = heights_upto (hex_from_int (v + 1)) (sint (v + 1)) (sint l)"
      "list_all (honest_event get_block) evs"
      using less.hyps [OF dec hex_int_hex_from_int_raw less.prems(2,3)] by blast
    have "poll_loop get_block latest h w acc = Some (Val (acc @ (ev # evs), w'))"
      using True less.prems(1,2) one rec(1) by (subst poll_loop.simps) (simp add: hex_add_Val)
    moreover have "map ev_height (ev # evs) = heights_upto h (sint v) (sint l)"
      using True rec(2) poll_one_honest [OF one] by (simp add: heights_upto_step inc next_h)
    moreover have "list_all (honest_event get_block) (ev # evs)"
      using rec(3) poll_one_honest [OF one] by simp
    ultimately show ?thesis by blast
  qed
qed

text \<open>With the largest \<^verbatim>\<open>int64\<close> as the latest height every increment stays in range of the test.\<close>

lemma poll_loop_max_diverges:
  assumes "hex_int latest = Val l" "sint l = 2 ^ 63 - 1" "2 \<le> length h"
  shows "poll_loop get_block latest h w acc = None"
proof (rule ccontr)
  assume "poll_loop get_block latest h w acc \<noteq> None"
  then obtain r where ret: "poll_loop get_block latest h w acc = Some r" by blast
  have "\<not> (hex_int latest = Val l \<and> 2 \<le> length h)"
  proof (rule poll_loop.raw_induct
      [where P = "\<lambda>g lat h w acc r. \<not> (hex_int lat = Val l \<and> 2 \<le> length h)", OF _ ret])
    fix f :: "'a block_fn \<Rightarrow> hex \<Rightarrow> hex \<Rightarrow> 'a \<Rightarrow> blockchain_event list \<Rightarrow>
        (blockchain_event list \<times> 'a) outcome option"
    fix g lat h w acc r
    assume IH: "\<And>g lat h w acc r. f g lat h w acc = Some r \<Longrightarrow> \<not> (hex_int lat = Val l \<and> 2 \<le> length h)"
      and eq: "(case hex_int h of
        Val hv \<Rightarrow>
          (case hex_int lat of
             Val lv \<Rightarrow>
               if sint hv \<le> sint lv then
                 (case poll_one g h w of
                    (ev, w') \<Rightarrow>
                      (case hex_add h 1 of
                         Val h' \<Rightarrow> f g lat h' w' (acc @ [ev])
                       | Panic \<Rightarrow> Some Panic))
               else Some (Val (acc, w))
           | Panic \<Rightarrow> Some Panic)
      | Panic \<Rightarrow> Some Panic) = Some r"
    show "\<not> (hex_int lat = Val l \<and> 2 \<le> length h)"
    proof
      assume lat: "hex_int lat = Val l \<and> 2 \<le> length h"
      then obtain v where v: "hex_int h = Val v" using hex_int_Val_iff by blast
      have "sint v \<le> sint l" using assms(2) sint_bounds64 [of v] by simp
      with eq lat v have "\<exists>w' ev. f g lat (hex_from_int (v + 1)) w' (acc @ [ev]) = Some r"
        by (auto simp: hex_add_Val split: prod.splits)
      moreover have "2 \<le> length (hex_from_int (v + 1))" by (simp add: hex_from_int_def)
      ultimately show False using IH lat by blast
    qed
  qed
  with assms show False by blast
qed

section \<open>The interface the loop relies on\<close>

locale block_source =
  fixes get_latest :: "'w latest_fn" and get_block :: "'w block_fn"
  assumes latest_len: "get_latest w = ((h, None), w') \<Longrightarrow> 2 \<le> length h"
begin

abbreviation "poll \<equiv> poll_new_blocks get_latest get_block"
abbreviation "rounds \<equiv> subscribe_rounds get_latest get_block"

lemma latest_reads: "get_latest w = ((h, None), w') \<Longrightarrow> \<exists>v. hex_int h = Val v"
  by (simp add: hex_int_Val_iff latest_len)

lemma poll_complete:
  assumes latest: "get_latest w = ((latest, None), w1)" "hex_int latest = Val l" "sint l < 2 ^ 63 - 1"
    and frm: "hex_int frm = Val v" "frm < latest"
  shows "\<exists>evs w2. poll frm w = Some (Val (evs, hex_from_int (l + 1), w2)) \<and>
           map ev_height evs = heights_upto frm (sint v) (sint l) \<and>
           list_all (honest_event get_block) evs"
proof -
  obtain evs w2 where "poll_loop get_block latest frm w1 [] = Some (Val (evs, w2))"
    "map ev_height evs = heights_upto frm (sint v) (sint l)" "list_all (honest_event get_block) evs"
    using poll_loop_complete [OF frm(1) latest(2,3), of get_block w1 "[]"] by auto
  then show ?thesis
    using latest frm by (auto simp: poll_new_blocks_def hex_add_Val not_le)
qed

lemma poll_caught_up:
  "get_latest w = ((latest, None), w1) \<Longrightarrow> latest \<le> frm \<Longrightarrow> poll frm w = Some (Val ([], frm, w1))"
  by (simp add: poll_new_blocks_def)

lemma poll_latest_error:
  "get_latest w = ((latest, Some e), w1) \<Longrightarrow>
   poll frm w = Some (Val ([\<lparr>ev_height = frm, ev_block = zero_block, ev_err = Some e\<rparr>], frm, w1))"
  by (simp add: poll_new_blocks_def)

lemma poll_diverges:
  assumes "get_latest w = ((latest, None), w1)" "hex_int latest = Val l" "sint l = 2 ^ 63 - 1"
    and "2 \<le> length frm" "frm < latest"
  shows "poll frm w = None"
  using assms poll_loop_max_diverges [of latest l frm get_block w1 "[]"]
  by (simp add: poll_new_blocks_def not_le)

lemma poll_cases:
  assumes "2 \<le> length frm" and ret: "poll frm w = Some r"
  shows "\<exists>evs nxt w'. r = Val (evs, nxt, w') \<and> 2 \<le> length nxt"
proof -
  obtain latest err w1 where lat: "get_latest w = ((latest, err), w1)" by (metis surj_pair)
  show ?thesis
  proof (cases "err = None \<and> frm < latest")
    case False
    with lat ret assms(1) show ?thesis
      by (cases err) (auto simp: poll_new_blocks_def not_less)
  next
    case True
    then obtain v l where v: "hex_int frm = Val v" and l: "hex_int latest = Val l"
      using lat latest_reads assms(1) hex_int_Val_iff by blast
    have "sint l < 2 ^ 63 - 1"
    proof (rule ccontr)
      assume "\<not> sint l < 2 ^ 63 - 1"
      then have "sint l = 2 ^ 63 - 1" using sint_bounds64 [of l] by simp
      then have "poll frm w = None"
        using poll_diverges lat True l assms(1) by blast
      with ret show False by simp
    qed
    with poll_complete [OF _ l _ v] True lat
    obtain evs w2 where "poll frm w = Some (Val (evs, hex_from_int (l + 1), w2))" by blast
    with ret show ?thesis by (auto simp: hex_from_int_def)
  qed
qed

lemma rounds_no_panic:
  "2 \<le> length frm \<Longrightarrow> rounds n frm w \<noteq> Some Panic"
proof (induction n arbitrary: frm w)
  case 0
  then show ?case by simp
next
  case (Suc n)
  show ?case
  proof (cases "poll frm w")
    case None
    then show ?thesis by simp
  next
    case (Some r)
    with poll_cases [OF Suc.prems] obtain evs nxt w' where
      r: "poll frm w = Some (Val (evs, nxt, w'))" "2 \<le> length nxt" by blast
    with Suc.IH [of nxt w'] show ?thesis
      by (auto split: option.splits outcome.splits)
  qed
qed

end

section \<open>Several rounds against a node whose head does not move back\<close>

text \<open>The canonical string of a height given as an integer.\<close>

abbreviation hex_of :: "int \<Rightarrow> hex" where
  "hex_of i \<equiv> hex_from_int (word_of_int i)"

text \<open>
  The documented behaviour of a healthy node: it answers with the canonical string of its head,
  below the largest \<^verbatim>\<open>int64\<close>, and no call moves the head back.
\<close>

definition monotone_head :: "'w latest_fn \<Rightarrow> 'w block_fn \<Rightarrow> ('w \<Rightarrow> int) \<Rightarrow> bool" where
  "monotone_head get_latest get_block head \<longleftrightarrow>
     (\<forall>w. 0 \<le> head w \<and> head w < 2 ^ 63 - 1 \<and>
        fst (get_latest w) = (hex_of (head w), None) \<and> head w \<le> head (snd (get_latest w)) \<and>
        (\<forall>h. head w \<le> head (snd (get_block h w))))"

lemma hex_int_hex_of:
  "0 \<le> i \<Longrightarrow> i < 2 ^ 63 \<Longrightarrow> hex_int (hex_of i) = Val (word_of_int i) \<and> sint (word_of_int i :: int64) = i"
  by (simp add: hex_int_hex_from_int_raw sint_of_int64)

lemma heights_upto_hex_of:
  "heights_upto (hex_of i) i j = map hex_of [i..j]"
  by (auto simp: heights_upto_def upto.simps [of i j])

lemma poll_loop_head:
  assumes mono: "\<And>h w. head w \<le> head (snd (get_block h w))"
    and ret: "poll_loop get_block latest h w acc = Some r"
  shows "r = Val (evs, w') \<Longrightarrow> head w \<le> (head w' :: int)"
proof -
  have "\<forall>evs w'. (\<forall>h w. head w \<le> head (snd (get_block h w))) \<longrightarrow> r = Val (evs, w') \<longrightarrow> head w \<le> head w'"
  proof (rule poll_loop.raw_induct
      [where P = "\<lambda>g lat h w acc r. \<forall>evs w'. (\<forall>h w. head w \<le> head (snd (g h w))) \<longrightarrow>
          r = Val (evs, w') \<longrightarrow> head w \<le> head w'", OF _ ret])
    fix f :: "'a block_fn \<Rightarrow> hex \<Rightarrow> hex \<Rightarrow> 'a \<Rightarrow> blockchain_event list \<Rightarrow>
        (blockchain_event list \<times> 'a) outcome option"
    fix g lat h w acc r
    assume IH: "\<And>g lat h w acc r. f g lat h w acc = Some r \<Longrightarrow>
        \<forall>evs w'. (\<forall>h w. head w \<le> head (snd (g h w))) \<longrightarrow> r = Val (evs, w') \<longrightarrow> head w \<le> head w'"
      and eq: "(case hex_int h of
        Val hv \<Rightarrow>
          (case hex_int lat of
             Val lv \<Rightarrow>
               if sint hv \<le> sint lv then
                 (case poll_one g h w of
                    (ev, w') \<Rightarrow>
                      (case hex_add h 1 of
                         Val h' \<Rightarrow> f g lat h' w' (acc @ [ev])
                       | Panic \<Rightarrow> Some Panic))
               else Some (Val (acc, w))
           | Panic \<Rightarrow> Some Panic)
      | Panic \<Rightarrow> Some Panic) = Some r"
    show "\<forall>evs w'. (\<forall>h w. head w \<le> head (snd (g h w))) \<longrightarrow> r = Val (evs, w') \<longrightarrow> head w \<le> head w'"
    proof (intro allI impI)
      fix evs w'
      assume g: "\<forall>h w. head w \<le> head (snd (g h w))" and r: "r = Val (evs, w')"
      obtain ev w1 where one: "poll_one g h w = (ev, w1)" by (cases "poll_one g h w")
      then have "head w \<le> head w1"
        using g by (auto simp: poll_one_def split: prod.splits) (metis snd_conv)
      moreover have "w' = w \<or> (\<exists>h' acc'. f g lat h' w1 acc' = Some r)"
        using eq one r by (auto split: outcome.splits if_splits)
      then have "w' = w \<or> head w1 \<le> head w'"
        using IH g r by metis
      ultimately show "head w \<le> head w'" by auto
    qed
  qed
  with mono show "r = Val (evs, w') \<Longrightarrow> head w \<le> head w'" by blast
qed

context block_source
begin

lemma poll_monotone:
  assumes node: "monotone_head get_latest get_block head"
    and i: "0 \<le> i" "i \<le> head w + 1"
  shows "\<exists>evs j w'. poll (hex_of i) w = Some (Val (evs, hex_of j, w')) \<and>
           i \<le> j \<and> j \<le> head w' + 1 \<and> map ev_height evs = map hex_of [i..j - 1] \<and>
           list_all (honest_event get_block) evs \<and>
           j = (if hex_of i < hex_of (head w) then head w + 1 else i)"
proof -
  let ?l = "head w"
  from node have l: "0 \<le> ?l" "?l < 2 ^ 63 - 1" by (auto simp: monotone_head_def)
  from node obtain w1 where lat: "get_latest w = ((hex_of ?l, None), w1)" and w1: "?l \<le> head w1"
    unfolding monotone_head_def by (metis prod.collapse)
  show ?thesis
  proof (cases "hex_of i < hex_of ?l")
    case False
    then have "poll (hex_of i) w = Some (Val ([], hex_of i, w1))"
      using poll_caught_up [OF lat] by (simp add: not_less)
    then show ?thesis using i w1 False by (intro exI [of _ "[]"] exI [of _ i]) auto
  next
    case True
    have vi: "hex_int (hex_of i) = Val (word_of_int i)" "sint (word_of_int i :: int64) = i"
      using hex_int_hex_of [of i] i l by auto
    have vl: "hex_int (hex_of ?l) = Val (word_of_int ?l)" "sint (word_of_int ?l :: int64) = ?l"
      using hex_int_hex_of [of ?l] l by auto
    obtain evs w2 where evs: "poll_loop get_block (hex_of ?l) (hex_of i) w1 [] = Some (Val (evs, w2))"
      "map ev_height evs = heights_upto (hex_of i) i ?l" "list_all (honest_event get_block) evs"
      using poll_loop_complete [OF vi(1) vl(1), of get_block w1 "[]"] vi(2) vl(2) l by auto
    have "head w1 \<le> head w2"
      using node by (intro poll_loop_head [OF _ evs(1) refl]) (auto simp: monotone_head_def)
    moreover have "poll (hex_of i) w = Some (Val (evs, hex_of (?l + 1), w2))"
      using lat evs(1) True [folded not_le] by (simp add: poll_new_blocks_def hex_add_Val [OF vl(1)])
    ultimately show ?thesis
      using evs(2,3) i w1 True by (intro exI [of _ evs] exI [of _ "?l + 1"] exI [of _ w2])
        (auto simp: heights_upto_hex_of)
  qed
qed

text \<open>With as many digits as the head, the next start is no lower than the head.\<close>

lemma same_width_reaches:
  assumes "0 \<le> i" "0 \<le> l" "i \<le> l + 1" "l < 2 ^ 63 - 1" and "length (hex_of i) = length (hex_of l)"
  shows "l \<le> (if hex_of i < hex_of l then l + 1 else i)"
proof -
  have "sint (word_of_int i :: int64) = i" "sint (word_of_int l :: int64) = l"
    using hex_int_hex_of [of i] hex_int_hex_of [of l] assms(1-4) by auto
  then show ?thesis
    using hex_order_same_width [of "word_of_int i" "word_of_int l"] assms(1,2,5) by (auto simp: not_less)
qed

text \<open>One more round, behind the others.\<close>

lemma rounds_snoc:
  "rounds n frm w = Some (Val (evs, nxt, w1)) \<Longrightarrow> poll nxt w1 = Some (Val (evs', nxt', w2)) \<Longrightarrow>
     rounds (Suc n) frm w = Some (Val (evs @ evs', nxt', w2))"
proof (induction n arbitrary: frm w evs)
  case (Suc n)
  from Suc.prems(1) obtain es k v es' where "poll frm w = Some (Val (es, k, v))"
    "rounds n k v = Some (Val (es', nxt, w1))" "evs = es @ es'"
    by (auto split: option.splits outcome.splits)
  with Suc.IH [OF this(2) Suc.prems(2)] show ?case by simp
qed simp

lemma rounds_exactly_once:
  assumes node: "monotone_head get_latest get_block head"
    and i: "0 \<le> i" "i \<le> head w + 1"
  shows "\<exists>evs j w'. rounds n (hex_of i) w = Some (Val (evs, hex_of j, w')) \<and>
           i \<le> j \<and> j \<le> head w' + 1 \<and> map ev_height evs = map hex_of [i..j - 1] \<and>
           list_all (honest_event get_block) evs"
  using i
proof (induction n arbitrary: i w)
  case 0
  then show ?case by auto
next
  case (Suc n)
  obtain evs k w1 where one: "poll (hex_of i) w = Some (Val (evs, hex_of k, w1))"
    "i \<le> k" "k \<le> head w1 + 1" "map ev_height evs = map hex_of [i..k - 1]"
    "list_all (honest_event get_block) evs"
    using poll_monotone [OF node Suc.prems] by blast
  with Suc.prems obtain evs' j w2 where rest: "rounds n (hex_of k) w1 = Some (Val (evs', hex_of j, w2))"
    "k \<le> j" "j \<le> head w2 + 1" "map ev_height evs' = map hex_of [k..j - 1]"
    "list_all (honest_event get_block) evs'"
    using Suc.IH [of k w1] by auto
  have "[i..j - 1] = [i..k - 1] @ [k..j - 1]"
    using upto_split1 [of i k "j - 1"] one(2) rest(2) by (cases "k \<le> j - 1") auto
  with one rest show ?case
    by (intro exI [of _ "evs @ evs'"] exI [of _ j] exI [of _ w2]) auto
qed

text \<open>The last round, seen from the start it has and the head it asks for.\<close>

lemma rounds_reach_head:
  assumes node: "monotone_head get_latest get_block head"
    and i: "0 \<le> i" "i \<le> head w + 1"
  shows "\<exists>evs0 j0 w0 evs j w'. rounds n (hex_of i) w = Some (Val (evs0, hex_of j0, w0)) \<and>
           rounds (Suc n) (hex_of i) w = Some (Val (evs, hex_of j, w')) \<and>
           i \<le> j0 \<and> j0 \<le> j \<and> j \<le> head w' + 1 \<and> map ev_height evs = map hex_of [i..j - 1] \<and>
           list_all (honest_event get_block) evs \<and>
           j = (if hex_of j0 < hex_of (head w0) then head w0 + 1 else j0) \<and>
           (length (hex_of j0) = length (hex_of (head w0)) \<longrightarrow> head w0 \<le> j)"
proof -
  obtain evs0 j0 w0 where first: "rounds n (hex_of i) w = Some (Val (evs0, hex_of j0, w0))"
    "i \<le> j0" "j0 \<le> head w0 + 1" "map ev_height evs0 = map hex_of [i..j0 - 1]" "list_all (honest_event get_block) evs0"
    using rounds_exactly_once [OF node i] by blast
  have j0: "0 \<le> j0" using first(2) i(1) by simp
  obtain evs1 j w' where last: "poll (hex_of j0) w0 = Some (Val (evs1, hex_of j, w'))" "j0 \<le> j" "j \<le> head w' + 1"
    "map ev_height evs1 = map hex_of [j0..j - 1]" "list_all (honest_event get_block) evs1"
    "j = (if hex_of j0 < hex_of (head w0) then head w0 + 1 else j0)"
    using poll_monotone [OF node j0 first(3)] by blast
  have "0 \<le> head w0" "head w0 < 2 ^ 63 - 1" using node by (simp_all add: monotone_head_def)
  then have "length (hex_of j0) = length (hex_of (head w0)) \<Longrightarrow> head w0 \<le> j"
    using same_width_reaches [OF j0 _ first(3)] last(6) by simp
  moreover have "[i..j - 1] = [i..j0 - 1] @ [j0..j - 1]"
    using upto_split1 [of i j0 "j - 1"] first(2) last(2) by (cases "j0 \<le> j - 1") auto
  ultimately show ?thesis
    using first last rounds_snoc [OF first(1) last(1)]
    by (intro exI [of _ evs0] exI [of _ j0] exI [of _ w0] exI [of _ "evs0 @ evs1"] exI [of _ j] exI [of _ w']) simp
qed

end

end
