(* ===== verification/Checkpoints.thy ===== *)
theory Checkpoints
  imports Chainstream_Service Poller
begin

text \<open>
  The contract of \<^verbatim>\<open>chainstream.CheckpointStorage\<close> as a locale, with what the service gets from
  it: after a run whose checkpoints were all saved, the next \<^verbatim>\<open>Start\<close> begins behind the highest one.
  The theories of the storages interpret it. \<open>latest\<close> is the height a storage holds for a network,
  \<open>norm\<close> how it identifies networks; heights are the canonical strings of non-negative numbers.
\<close>

section \<open>A log of checkpoints\<close>

text \<open>The calls of \<^verbatim>\<open>SaveCheckpoint\<close> in the order of a log, and whether all of them succeeded.\<close>

fun save_log :: "'w checkpoint_storage \<Rightarrow> (string \<times> hex) list \<Rightarrow> 'w \<Rightarrow> (bool \<times> 'w) outcome" where
  "save_log store [] w = Val (True, w)"
| "save_log store ((network, height) # rest) w =
     bind_outcome (cks_save store network height w) (\<lambda>(err, w1).
       bind_outcome (save_log store rest w1) (\<lambda>(ok, w2). Val (err = None \<and> ok, w2)))"

definition hex_log :: "(string \<times> int) list \<Rightarrow> (string \<times> hex) list" where
  "hex_log = map (\<lambda>(n, i). (n, hex_of i))"

definition log_of :: "(string \<Rightarrow> 'k) \<Rightarrow> string \<Rightarrow> (string \<times> int) list \<Rightarrow> int list" where
  "log_of norm n log = map snd (filter (\<lambda>(m, i). norm m = norm n) log)"

text \<open>The heights are in their range; every network is saved in ascending order.\<close>

definition heights_log :: "(string \<times> int) list \<Rightarrow> bool" where
  "heights_log log \<longleftrightarrow> (\<forall>(n, i) \<in> set log. 0 \<le> i \<and> i < 2 ^ 63 - 1)"

definition ascending_log :: "(string \<Rightarrow> 'k) \<Rightarrow> (string \<times> int) list \<Rightarrow> bool" where
  "ascending_log norm log \<longleftrightarrow> (\<forall>n. sorted (log_of norm n log)) \<and> heights_log log"

lemma log_of_simps [simp]:
  "log_of norm n [] = []"
  "log_of norm n ((m, i) # log) = (if norm m = norm n then [i] else []) @ log_of norm n log"
  by (simp_all add: log_of_def)

lemma hex_log_simps [simp]: "hex_log [] = []" "hex_log ((n, i) # log) = (n, hex_of i) # hex_log log"
  by (simp_all add: hex_log_def)

lemma heights_log_Cons [simp]:
  "heights_log ((n, i) # log) \<longleftrightarrow> 0 \<le> i \<and> i < 2 ^ 63 - 1 \<and> heights_log log"
  by (simp add: heights_log_def)

lemma heights_log_range: "heights_log log \<Longrightarrow> i \<in> set (log_of norm n log) \<Longrightarrow> 0 \<le> i \<and> i < 2 ^ 63 - 1"
  by (auto simp: heights_log_def log_of_def)

lemma all_space_0x: "\<not> all_space (48 # 120 # xs)"
  by (cases xs) (simp_all add: ascii_space_def utf8_space2_def utf8_space3_def)

lemma hex_of_not_empty: "0 \<le> i \<Longrightarrow> i < 2 ^ 63 \<Longrightarrow> \<not> hex_is_empty (hex_of i)"
  by (simp add: hex_is_empty_def hex_from_int_nonneg sint_of_int64 all_space_0x)

lemma start_behind:
  assumes "0 \<le> i" and "i < 2 ^ 63 - 1"
  shows "start_height (hex_of i) = Val (hex_of (i + 1))"
  using assms hex_of_not_empty [of i] hex_int_hex_of [of i] by (simp add: start_height_def hex_add_def)

section \<open>The contract\<close>

text \<open>\<open>kept o i\<close> is the height that is held after \<open>i\<close> was saved over \<open>o\<close>.\<close>

locale checkpoint_store =
  fixes store :: "'w checkpoint_storage"
    and latest :: "'w \<Rightarrow> string \<Rightarrow> int option"
    and norm :: "string \<Rightarrow> string"
    and kept :: "int option \<Rightarrow> int \<Rightarrow> int"
  assumes save_total: "0 \<le> i \<Longrightarrow> i < 2 ^ 63 \<Longrightarrow> cks_save store n (hex_of i) w \<noteq> Panic"
    and save_ok: "cks_save store n (hex_of i) w = Val (None, w') \<Longrightarrow> 0 \<le> i \<Longrightarrow> i < 2 ^ 63 \<Longrightarrow>
        latest w' m = (if norm m = norm n then Some (kept (latest w n) i) else latest w m)"
    and latest_norm: "norm m = norm n \<Longrightarrow> latest w m = latest w n"
    and kept_higher: "(\<And>j. prev = Some j \<Longrightarrow> j \<le> i) \<Longrightarrow> kept prev i = i"
    and kept_one: "kept prev i = i \<or> prev = Some (kept prev i)"
    and load_ok: "cks_load store n w = ((h, None), w') \<Longrightarrow> latest w n = Some i \<Longrightarrow> h = hex_of i"
    and load_not_found: "cks_load store n w = ((h, Some e), w') \<Longrightarrow> errors_is e ErrNoCheckpointFound \<Longrightarrow>
        latest w n = None \<and> h = ''''"
    and load_frame: "cks_load store n w = (r, w') \<Longrightarrow> latest w' = latest w"
begin

lemma save_log_total: "heights_log log \<Longrightarrow> save_log store (hex_log log) w \<noteq> Panic"
proof (induction log arbitrary: w)
  case (Cons a log)
  obtain n i where a: "a = (n, i)" by (cases a)
  with Cons.prems have i: "0 \<le> i" "i < 2 ^ 63" and rest: "heights_log log" by simp_all
  show ?case
    using save_total [OF i, of n w] Cons.IH [OF rest]
    by (auto simp: a bind_outcome_Panic_iff split: prod.splits)
qed simp

text \<open>What is held after a log of a network, of which each save succeeded.\<close>

definition kept_all :: "int list \<Rightarrow> int option \<Rightarrow> int option" where
  "kept_all = fold (\<lambda>i prev. Some (kept prev i))"

lemma kept_all_simps: "kept_all [] prev = prev" "kept_all (i # is) prev = kept_all is (Some (kept prev i))"
  by (simp_all add: kept_all_def)

lemma save_log_latest:
  "save_log store (hex_log log) w = Val (True, w') \<Longrightarrow> heights_log log \<Longrightarrow>
     latest w' n = kept_all (log_of norm n log) (latest w n)"
proof (induction log arbitrary: w)
  case (Cons a log)
  obtain m i where a: "a = (m, i)" by (cases a)
  with Cons.prems(1) obtain w1 where
    save: "cks_save store m (hex_of i) w = Val (None, w1)" and rest: "save_log store (hex_log log) w1 = Val (True, w')"
    by (auto simp: bind_outcome_Val_iff split: prod.splits)
  from Cons.prems(2) a have i: "0 \<le> i" "i < 2 ^ 63" "heights_log log" by simp_all
  from Cons.IH [OF rest i(3)] save_ok [OF save i(1,2), of n] latest_norm [of m n w] show ?case
    by (simp add: a kept_all_def)
qed (simp add: kept_all_def)

lemma kept_all_member: "kept_all is prev = Some x \<Longrightarrow> x \<in> set is \<or> prev = Some x"
  by (induction "is" arbitrary: prev) (use kept_one in \<open>fastforce simp: kept_all_def\<close>)+

lemma kept_all_None: "kept_all is prev = None \<Longrightarrow> is = [] \<and> prev = None"
proof (induction "is" arbitrary: prev)
  case (Cons i "is")
  then show ?case using Cons.IH [of "Some (kept prev i)"] by (simp add: kept_all_def)
qed (simp add: kept_all_def)

lemma kept_all_ascending:
  "sorted is \<Longrightarrow> (\<And>j. prev = Some j \<Longrightarrow> \<forall>i \<in> set is. j \<le> i) \<Longrightarrow>
     kept_all is prev = (if is = [] then prev else Some (last is))"
proof (induction "is" arbitrary: prev)
  case (Cons i "is")
  then have "kept prev i = i" by (intro kept_higher) auto
  with Cons.IH [of "Some i"] Cons.prems show ?case by (auto simp: kept_all_def)
qed (simp add: kept_all_def)

text \<open>The height at which the next \<^verbatim>\<open>Start\<close> subscribes: behind the one that is held.\<close>

lemma resume_behind:
  assumes "save_log store (hex_log log) w = Val (True, w')" and "heights_log log"
    and x: "kept_all (log_of norm n log) (latest w n) = Some x" "0 \<le> x" "x < 2 ^ 63 - 1"
    and "cks_load store n w' = ((h, None), w'')"
  shows "start_height h = Val (hex_of (x + 1))"
proof -
  have "latest w' n = Some x" using save_log_latest [OF assms(1,2)] x(1) by simp
  then have h: "h = hex_of x" by (rule load_ok [OF assms(6)])
  show ?thesis unfolding h using start_behind x(2,3) by simp
qed

lemma resume_height:
  assumes "save_log store (hex_log log) w = Val (True, w')" and "heights_log log"
    and "\<And>j. latest w n = Some j \<Longrightarrow> 0 \<le> j \<and> j < 2 ^ 63 - 1"
    and "log_of norm n log \<noteq> []" and "cks_load store n w' = ((h, None), w'')"
  shows "\<exists>x. kept_all (log_of norm n log) (latest w n) = Some x \<and> start_height h = Val (hex_of (x + 1))"
proof -
  obtain x where x: "kept_all (log_of norm n log) (latest w n) = Some x"
    using kept_all_None assms(4) by fastforce
  then have "0 \<le> x" "x < 2 ^ 63 - 1"
    using kept_all_member [OF x] heights_log_range [OF assms(2)] assms(3) by blast+
  with resume_behind [OF assms(1,2) x _ _ assms(5)] x show ?thesis by blast
qed

end

end
