(* ===== verification/Walletwatch.thy ===== *)
theory Walletwatch
  imports Hex Collections "HOL-Library.Multiset"
begin

text \<open>
  \<^verbatim>\<open>internal/walletwatch\<close>: the interfaces, the service with its options, the grouping of a
  block's transactions by watched wallet, and the processing of a block. The orders in which Go
  ranges over maps are arguments, one per \<^verbatim>\<open>range\<close> of the source.
\<close>

section \<open>Types and interfaces\<close>

record ww_transaction =
  wtx_hash :: string
  wtx_from :: string
  wtx_to :: string

record ww_block =
  wb_network :: string
  wb_height :: hex
  wb_hash :: string
  wb_transactions :: "ww_transaction list"

definition zero_transaction :: ww_transaction where
  "zero_transaction = \<lparr>wtx_hash = '''', wtx_from = '''', wtx_to = ''''\<rparr>"

record 'w idempotency_guard =
  ig_claim :: "string \<Rightarrow> string \<Rightarrow> int \<Rightarrow> 'w \<Rightarrow> gerr option \<times> 'w"
  ig_mark :: "string \<Rightarrow> string \<Rightarrow> 'w \<Rightarrow> gerr option \<times> 'w"

record 'w watch_storage =
  ws_filter :: "string \<Rightarrow> string list \<Rightarrow> 'w \<Rightarrow> (gerr + string list) \<times> 'w"

record 'w tx_notifier =
  tn_notify :: "string \<Rightarrow> string \<Rightarrow> ww_transaction list \<Rightarrow> 'w \<Rightarrow> gerr option \<times> 'w"

definition nop_claim :: "string \<Rightarrow> string \<Rightarrow> int \<Rightarrow> 'w \<Rightarrow> gerr option \<times> 'w" where
  "nop_claim network blockHash ttl w = (None, w)"

definition nop_mark :: "string \<Rightarrow> string \<Rightarrow> 'w \<Rightarrow> gerr option \<times> 'w" where
  "nop_mark network blockHash w = (None, w)"

definition nop_guard :: "'w idempotency_guard" where
  "nop_guard = \<lparr>ig_claim = nop_claim, ig_mark = nop_mark\<rparr>"

section \<open>New\<close>

text \<open>Five minutes, in nanoseconds.\<close>

definition defaultMaxProcessingTime :: int where
  "defaultMaxProcessingTime = 5 * 60 * 1000000000"

record 'w ww_config =
  wc_maxProcessingTime :: int
  wc_guard :: "'w idempotency_guard"

type_synonym 'w ww_option = "'w ww_config \<Rightarrow> 'w ww_config"

definition ww_with_max_processing_time :: "int \<Rightarrow> 'w ww_option" where
  "ww_with_max_processing_time d c = c\<lparr>wc_maxProcessingTime := d\<rparr>"

definition ww_with_guard :: "'w idempotency_guard \<Rightarrow> 'w ww_option" where
  "ww_with_guard g c = c\<lparr>wc_guard := g\<rparr>"

record 'w ww_service =
  wsv_maxProcessingTime :: int
  wsv_guard :: "'w idempotency_guard"
  wsv_storage :: "'w watch_storage"
  wsv_notifier :: "'w tx_notifier"

definition ww_new :: "'w watch_storage \<Rightarrow> 'w tx_notifier \<Rightarrow> 'w ww_option list \<Rightarrow> 'w ww_service" where
  "ww_new ws tn opts =
     (let cfg = fold (\<lambda>opt c. opt c) opts
        \<lparr>wc_maxProcessingTime = defaultMaxProcessingTime, wc_guard = nop_guard\<rparr> in
      \<lparr>wsv_maxProcessingTime = wc_maxProcessingTime cfg, wsv_guard = wc_guard cfg,
       wsv_storage = ws, wsv_notifier = tn\<rparr>)"

section \<open>getTransactionsByWallet\<close>

text \<open>
  The iteration orders: of \<^verbatim>\<open>walletsSet.ToSlice()\<close>, of \<^verbatim>\<open>ToIter()\<close> in the \<open>k\<close>-th round of the loop
  over the watched wallets, and of the resulting map.
\<close>

record iter_orders =
  io_slice :: "string list \<Rightarrow> string list"
  io_hashes :: "nat \<Rightarrow> string list \<Rightarrow> string list"
  io_wallets :: "(string \<times> ww_transaction list) list \<Rightarrow> (string \<times> ww_transaction list) list"

record tx_index =
  ix_wallets :: "string goset"
  ix_txs :: "(string \<times> ww_transaction) list"
  ix_by_wallet :: "(string, string goset) default_map"

definition empty_index :: tx_index where
  "empty_index =
     \<lparr>ix_wallets = new_set [], ix_txs = [], ix_by_wallet = new_default_map (\<lambda>_. new_set [])\<rparr>"

text \<open>
  \<^verbatim>\<open>transactionsByWallet.Get(w).Add(hash)\<close>: \<^verbatim>\<open>Get\<close> returns the set stored in the map, a Go map
  itself, and \<^verbatim>\<open>Add\<close> changes it in place.
\<close>

definition add_hash :: "string \<Rightarrow> string \<Rightarrow> (string, string goset) default_map \<Rightarrow> (string, string goset) default_map" where
  "add_hash wallet h d = (case dm_get d wallet of (s, d') \<Rightarrow> dm_set d' wallet (set_add s [h]))"

definition index_tx :: "ww_transaction \<Rightarrow> tx_index \<Rightarrow> tx_index" where
  "index_tx tx ix =
     \<lparr>ix_wallets = set_add (ix_wallets ix) [wtx_from tx, wtx_to tx],
      ix_txs = AList.update (wtx_hash tx) tx (ix_txs ix),
      ix_by_wallet = add_hash (wtx_to tx) (wtx_hash tx) (add_hash (wtx_from tx) (wtx_hash tx) (ix_by_wallet ix))\<rparr>"

definition index_txs :: "ww_transaction list \<Rightarrow> tx_index" where
  "index_txs txs = fold index_tx txs empty_index"

definition lookup_tx :: "(string \<times> ww_transaction) list \<Rightarrow> string \<Rightarrow> ww_transaction" where
  "lookup_tx m h = (case map_of m h of Some tx \<Rightarrow> tx | None \<Rightarrow> zero_transaction)"

text \<open>The two nested loops of step 3. The outer one threads \<^verbatim>\<open>transactionsByWallet\<close>, which \<^verbatim>\<open>Get\<close> fills.\<close>

definition append_tx ::
    "(string \<times> ww_transaction) list \<Rightarrow> string \<Rightarrow> string \<Rightarrow> (string, ww_transaction list) default_map \<Rightarrow>
     (string, ww_transaction list) default_map" where
  "append_tx m address txHash d =
     (case dm_get d address of (txs, d') \<Rightarrow> dm_set d' address (txs @ [lookup_tx m txHash]))"

fun match_wallets ::
    "(nat \<Rightarrow> string list \<Rightarrow> string list) \<Rightarrow> (string \<times> ww_transaction) list \<Rightarrow> nat \<Rightarrow> string list \<Rightarrow>
     (string, string goset) default_map \<Rightarrow> (string, ww_transaction list) default_map \<Rightarrow>
     (string, ww_transaction list) default_map" where
  "match_wallets ord m k [] byWallet matching = matching"
| "match_wallets ord m k (address # rest) byWallet matching =
     (case dm_get byWallet address of (hashes, byWallet') \<Rightarrow>
        match_wallets ord m (Suc k) rest byWallet'
          (fold (append_tx m address) (set_to_iter (ord k) hashes) matching))"

definition get_transactions_by_wallet ::
    "iter_orders \<Rightarrow> 'w watch_storage \<Rightarrow> string \<Rightarrow> ww_transaction list \<Rightarrow> 'w \<Rightarrow>
     (gerr + (string \<times> ww_transaction list) list) \<times> 'w" where
  "get_transactions_by_wallet ord storage network txs w =
     (let ix = index_txs txs in
      case ws_filter storage network (set_to_slice (io_slice ord) (ix_wallets ix)) w of
        (Inl err, w') \<Rightarrow> (Inl err, w')
      | (Inr watched, w') \<Rightarrow>
          (Inr (dm_to_map (match_wallets (io_hashes ord) (ix_txs ix) 0 watched (ix_by_wallet ix)
                  (new_default_map (\<lambda>_. [])))), w'))"

section \<open>Processing a block\<close>

fun notify_wallets ::
    "'w tx_notifier \<Rightarrow> string \<Rightarrow> (string \<times> ww_transaction list) list \<Rightarrow> 'w \<Rightarrow> gerr option \<times> 'w" where
  "notify_wallets notifier network [] w = (None, w)"
| "notify_wallets notifier network ((wallet, txs) # rest) w =
     (case tn_notify notifier network wallet txs w of
        (Some err, w') \<Rightarrow> (Some err, w')
      | (None, w') \<Rightarrow> notify_wallets notifier network rest w')"

definition notify_watched_wallet_transactions ::
    "iter_orders \<Rightarrow> 'w ww_service \<Rightarrow> string \<Rightarrow> ww_transaction list \<Rightarrow> 'w \<Rightarrow> gerr option \<times> 'w" where
  "notify_watched_wallet_transactions ord s network txs w =
     (case get_transactions_by_wallet ord (wsv_storage s) network txs w of
        (Inl err, w') \<Rightarrow> (Some err, w')
      | (Inr matching, w') \<Rightarrow> notify_wallets (wsv_notifier s) network (io_wallets ord matching) w')"

text \<open>A failing \<^verbatim>\<open>MarkBlockTxWatchComplete\<close> is logged only.\<close>

definition notify_watched_transactions ::
    "iter_orders \<Rightarrow> 'w ww_service \<Rightarrow> ww_block \<Rightarrow> 'w \<Rightarrow> gerr option \<times> 'w" where
  "notify_watched_transactions ord s block w =
     (case ig_claim (wsv_guard s) (wb_network block) (wb_hash block) (wsv_maxProcessingTime s) w of
        (Some err, w1) \<Rightarrow> (Some err, w1)
      | (None, w1) \<Rightarrow>
          (case notify_watched_wallet_transactions ord s (wb_network block) (wb_transactions block) w1 of
             (Some err, w2) \<Rightarrow> (Some err, w2)
           | (None, w2) \<Rightarrow>
               (case ig_mark (wsv_guard s) (wb_network block) (wb_hash block) w2 of
                  (err, w3) \<Rightarrow> (None, w3))))"

section \<open>What the index holds\<close>

definition involves :: "string \<Rightarrow> ww_transaction \<Rightarrow> bool" where
  "involves a tx \<longleftrightarrow> wtx_from tx = a \<or> wtx_to tx = a"

text \<open>The hashes of the transactions that involve \<open>a\<close>, and the last transaction with a hash.\<close>

definition hashes_of :: "string \<Rightarrow> ww_transaction list \<Rightarrow> string set" where
  "hashes_of a txs = wtx_hash ` {tx \<in> set txs. involves a tx}"

fun last_tx :: "ww_transaction list \<Rightarrow> string \<Rightarrow> ww_transaction option" where
  "last_tx [] h = None"
| "last_tx (tx # txs) h =
     (case last_tx txs h of Some t \<Rightarrow> Some t | None \<Rightarrow> if wtx_hash tx = h then Some tx else None)"

definition the_tx :: "ww_transaction list \<Rightarrow> string \<Rightarrow> ww_transaction" where
  "the_tx txs h = (case last_tx txs h of Some t \<Rightarrow> t | None \<Rightarrow> zero_transaction)"

lemma add_hash_simps [simp]:
  "dm_view (add_hash a h d) = (dm_view d)(a := set_add (dm_view d a) [h])"
  "dm_default (add_hash a h d) = dm_default d"
  by (simp_all add: add_hash_def split_beta)

lemma hashes_of_simps [simp]:
  "hashes_of a [] = {}"
  "hashes_of a (tx # txs) = (if involves a tx then {wtx_hash tx} else {}) \<union> hashes_of a txs"
  by (auto simp: hashes_of_def)

lemma finite_hashes_of [simp]: "finite (hashes_of a txs)"
  by (simp add: hashes_of_def)

lemma index_tx_simps [simp]:
  "ix_wallets (index_tx tx ix) = set_add (ix_wallets ix) [wtx_from tx, wtx_to tx]"
  "ix_txs (index_tx tx ix) = AList.update (wtx_hash tx) tx (ix_txs ix)"
  "ix_by_wallet (index_tx tx ix) =
     add_hash (wtx_to tx) (wtx_hash tx) (add_hash (wtx_from tx) (wtx_hash tx) (ix_by_wallet ix))"
  by (simp_all add: index_tx_def)

lemma index_fold:
  shows "set (ix_wallets (fold index_tx txs ix)) = set (ix_wallets ix) \<union> wtx_from ` set txs \<union> wtx_to ` set txs"
    and "distinct (ix_wallets ix) \<Longrightarrow> distinct (ix_wallets (fold index_tx txs ix))"
    and "map_of (ix_txs (fold index_tx txs ix)) h =
           (case last_tx txs h of Some t \<Rightarrow> Some t | None \<Rightarrow> map_of (ix_txs ix) h)"
    and "set (dm_view (ix_by_wallet (fold index_tx txs ix)) a) =
           set (dm_view (ix_by_wallet ix) a) \<union> hashes_of a txs"
    and "(\<And>a. distinct (dm_view (ix_by_wallet ix) a)) \<Longrightarrow> distinct (dm_view (ix_by_wallet (fold index_tx txs ix)) a)"
proof (induction txs arbitrary: ix)
  case (Cons tx txs)
  { case 1 show ?case by (simp add: Cons.IH(1)) auto }
  { case 2 then show ?case by (simp add: Cons.IH(2)) }
  { case 3 show ?case by (simp add: Cons.IH(3) update_conv split: option.splits) }
  { case 4 show ?case by (simp add: Cons.IH(4)) (auto simp: involves_def) }
  { case 5 then show ?case by (simp add: Cons.IH(5)) }
qed (simp_all)

lemma index_txs_facts:
  "set (ix_wallets (index_txs txs)) = wtx_from ` set txs \<union> wtx_to ` set txs"
  "distinct (ix_wallets (index_txs txs))"
  "lookup_tx (ix_txs (index_txs txs)) = the_tx txs"
  "mset (dm_view (ix_by_wallet (index_txs txs)) a) = mset_set (hashes_of a txs)"
proof -
  show "set (ix_wallets (index_txs txs)) = wtx_from ` set txs \<union> wtx_to ` set txs"
    by (simp add: index_txs_def index_fold empty_index_def)
  show "distinct (ix_wallets (index_txs txs))"
    unfolding index_txs_def by (rule index_fold) (simp add: empty_index_def)
  show "lookup_tx (ix_txs (index_txs txs)) = the_tx txs"
    by (rule ext) (simp add: lookup_tx_def the_tx_def index_txs_def index_fold empty_index_def split: option.splits)
  have "set (dm_view (ix_by_wallet (index_txs txs)) a) = hashes_of a txs"
    by (simp add: index_txs_def index_fold empty_index_def)
  moreover have "distinct (dm_view (ix_by_wallet (index_txs txs)) a)"
    unfolding index_txs_def by (rule index_fold) (simp add: empty_index_def)
  ultimately show "mset (dm_view (ix_by_wallet (index_txs txs)) a) = mset_set (hashes_of a txs)"
    by (metis mset_set_set)
qed

section \<open>What the matching yields\<close>

lemma append_tx_simps [simp]:
  "dm_lookup (append_tx m a h d) = (dm_lookup d)(a \<mapsto> dm_view d a @ [lookup_tx m h])"
  "dm_view (append_tx m a h d) = (dm_view d)(a := dm_view d a @ [lookup_tx m h])"
  "dm_default (append_tx m a h d) = dm_default d"
  "dm_wf d \<Longrightarrow> dm_wf (append_tx m a h d)"
  by (simp_all add: append_tx_def split_beta dm_get_lookup)

lemma append_fold:
  "dm_lookup (fold (append_tx m a) hs d) =
     (if hs = [] then dm_lookup d else (dm_lookup d)(a \<mapsto> dm_view d a @ map (lookup_tx m) hs))"
  "dm_default (fold (append_tx m a) hs d) = dm_default d"
  "dm_wf d \<Longrightarrow> dm_wf (fold (append_tx m a) hs d)"
  by (induction hs arbitrary: d) (simp_all add: fun_eq_iff)

lemma match_wallets_wf: "dm_wf d \<Longrightarrow> dm_wf (match_wallets ord m k ws byWallet d)"
  by (induction ws arbitrary: k byWallet d) (simp_all add: split_beta append_fold)

lemma match_wallets_lookup:
  assumes "distinct ws" and "\<And>k. permuting (ord k)"
    and "\<And>a. a \<in> set ws \<Longrightarrow> dm_lookup d a = None" and "dm_default d = (\<lambda>_. [])"
  shows "if a \<in> set ws \<and> dm_view byWallet a \<noteq> []
         then \<exists>ts. dm_lookup (match_wallets ord m k ws byWallet d) a = Some ts \<and>
                   mset ts = image_mset (lookup_tx m) (mset (dm_view byWallet a))
         else dm_lookup (match_wallets ord m k ws byWallet d) a = dm_lookup d a"
  using assms(1,3,4)
proof (induction ws arbitrary: k byWallet d)
  case (Cons w ws)
  let ?hs = "ord k (dm_view byWallet w)"
  let ?d = "fold (append_tx m w) ?hs d"
  have hs: "mset ?hs = mset (dm_view byWallet w)" "?hs = [] \<longleftrightarrow> dm_view byWallet w = []"
    using assms(2) [of k] by (simp_all add: permuting_mset) (metis mset_zero_iff permuting_mset)
  have view: "dm_view d w = []" using Cons.prems by (simp add: dm_view_def)
  have d: "dm_lookup ?d = (if ?hs = [] then dm_lookup d else (dm_lookup d)(w \<mapsto> map (lookup_tx m) ?hs))"
    by (simp add: append_fold view)
  have rest: "match_wallets ord m k (w # ws) byWallet d =
      match_wallets ord m (Suc k) ws (snd (dm_get byWallet w)) ?d"
    by (simp add: split_beta set_to_iter_def)
  have prems: "distinct ws" "\<And>a. a \<in> set ws \<Longrightarrow> dm_lookup ?d a = None" "dm_default ?d = (\<lambda>_. [])"
    using Cons.prems by (auto simp: d append_fold)
  have IH: "if a \<in> set ws \<and> dm_view byWallet a \<noteq> []
        then \<exists>ts. dm_lookup (match_wallets ord m (Suc k) ws (snd (dm_get byWallet w)) ?d) a = Some ts \<and>
                  mset ts = image_mset (lookup_tx m) (mset (dm_view byWallet a))
        else dm_lookup (match_wallets ord m (Suc k) ws (snd (dm_get byWallet w)) ?d) a = dm_lookup ?d a"
    using Cons.IH [OF prems, where k = "Suc k" and byWallet = "snd (dm_get byWallet w)"]
    unfolding dm_get_view .
  show ?case
  proof (cases "a = w")
    case True
    with IH Cons.prems(1)
    have "dm_lookup (match_wallets ord m k (w # ws) byWallet d) a = dm_lookup ?d a"
      unfolding rest by simp
    with True d hs show ?thesis by (auto simp: Cons.prems(2))
  next
    case False
    then have "dm_lookup ?d a = dm_lookup d a" by (simp add: d)
    with IH False show ?thesis unfolding rest by (auto split: if_splits)
  qed
qed simp

definition fair_orders :: "iter_orders \<Rightarrow> bool" where
  "fair_orders ord \<longleftrightarrow>
     permuting (io_slice ord) \<and> (\<forall>k. permuting (io_hashes ord k)) \<and> permuting (io_wallets ord)"

text \<open>The result for each wallet, in terms of the hashes and the last transaction with each.\<close>

lemma get_transactions_spec:
  assumes res: "get_transactions_by_wallet ord storage network txs w = (Inr m, w')" and ord: "fair_orders ord"
  obtains addrs watched where
    "ws_filter storage network addrs w = (Inr watched, w')" "distinct addrs"
    "set addrs = wtx_from ` set txs \<union> wtx_to ` set txs" "distinct (map fst m)"
    "\<And>a. distinct watched \<Longrightarrow>
       if a \<in> set watched \<and> hashes_of a txs \<noteq> {}
       then \<exists>ts. map_of m a = Some ts \<and> mset ts = image_mset (the_tx txs) (mset_set (hashes_of a txs))
       else map_of m a = None"
proof -
  let ?ix = "index_txs txs"
  let ?addrs = "io_slice ord (ix_wallets ?ix)"
  let ?d = "new_default_map (\<lambda>_. []) :: (string, ww_transaction list) default_map"
  from res obtain watched where f: "ws_filter storage network ?addrs w = (Inr watched, w')"
    and m: "m = dm_data (match_wallets (io_hashes ord) (ix_txs ?ix) 0 watched (ix_by_wallet ?ix) ?d)"
    by (auto simp: get_transactions_by_wallet_def Let_def set_to_slice_def set_to_iter_def dm_to_map_def
        split: prod.splits sum.splits)
  have addrs: "distinct ?addrs" "set ?addrs = wtx_from ` set txs \<union> wtx_to ` set txs"
    using ord index_txs_facts(1,2) [of txs] by (simp_all add: fair_orders_def iter_facts)
  have wf: "distinct (map fst m)"
    using match_wallets_wf [OF dm_wf_new] unfolding m dm_wf_def .
  have view: "dm_view (ix_by_wallet ?ix) a \<noteq> [] \<longleftrightarrow> hashes_of a txs \<noteq> {}" for a
    using index_txs_facts(4) [of txs a] by (metis finite_hashes_of mset_set_empty_iff mset_zero_iff)
  have "if a \<in> set watched \<and> hashes_of a txs \<noteq> {}
        then \<exists>ts. map_of m a = Some ts \<and> mset ts = image_mset (the_tx txs) (mset_set (hashes_of a txs))
        else map_of m a = None" if "distinct watched" for a
    using match_wallets_lookup [of watched "io_hashes ord" ?d a "ix_by_wallet ?ix" "ix_txs ?ix" 0] that ord
    unfolding m view index_txs_facts(3,4) by (auto simp: fair_orders_def)
  with f addrs wf that show ?thesis by blast
qed

lemma last_tx_Some: "last_tx txs h = Some t \<Longrightarrow> t \<in> set txs \<and> wtx_hash t = h"
  by (induction txs) (auto split: option.splits if_splits)

lemma last_tx_None: "last_tx txs h = None \<longleftrightarrow> h \<notin> wtx_hash ` set txs"
  by (induction txs) (auto split: option.splits)

lemma the_tx_unique:
  assumes "distinct (map wtx_hash txs)" "t \<in> set txs"
  shows "the_tx txs (wtx_hash t) = t"
proof -
  obtain t' where t': "last_tx txs (wtx_hash t) = Some t'"
    using assms(2) last_tx_None [of txs "wtx_hash t"] by (cases "last_tx txs (wtx_hash t)") auto
  with last_tx_Some [OF t'] assms have "t' = t" by (auto simp: distinct_map inj_on_def)
  with t' show ?thesis by (simp add: the_tx_def)
qed

text \<open>
  What a wallet is told of a block: for each hash of a transaction that involves it, the last transaction of the
  block with that hash. With distinct hashes these are its transactions.
\<close>

definition indexed_for :: "string \<Rightarrow> ww_transaction list \<Rightarrow> ww_transaction multiset" where
  "indexed_for a txs = image_mset (the_tx txs) (mset_set (hashes_of a txs))"

lemma unique_hashes:
  assumes "distinct (map wtx_hash txs)"
  shows "indexed_for a txs = mset (filter (involves a) txs)"
proof -
  let ?T = "{t \<in> set txs. involves a t}"
  have inj: "inj_on wtx_hash ?T" using assms by (auto simp: distinct_map inj_on_def)
  have "image_mset (the_tx txs) (mset_set (hashes_of a txs)) =
        image_mset (the_tx txs) (image_mset wtx_hash (mset_set ?T))"
    by (simp add: hashes_of_def image_mset_mset_set [OF inj])
  also have "\<dots> = image_mset id (mset_set ?T)"
    unfolding image_mset.compositionality using assms by (intro image_mset_cong) (auto simp: the_tx_unique)
  also have "\<dots> = mset (filter (involves a) txs)"
    using assms by (simp add: distinct_map mset_set_set [symmetric] conj_commute flip: set_filter)
  finally show ?thesis unfolding indexed_for_def .
qed

lemma hashes_of_empty: "hashes_of a txs = {} \<longleftrightarrow> filter (involves a) txs = []"
  by (auto simp: hashes_of_def filter_empty_conv)

lemma get_transactions_ok:
  "(\<And>addrs. \<exists>hits w'. ws_filter storage network addrs w = (Inr hits, w')) \<Longrightarrow>
     \<exists>m w'. get_transactions_by_wallet ord storage network txs w = (Inr m, w')"
  unfolding get_transactions_by_wallet_def Let_def by (metis (no_types, lifting) case_prod_conv sum.simps(6))

section \<open>The contract of a wallet storage, for the matching\<close>

text \<open>
  The storage answers with the addresses of the request that are watched, once each, and a request
  changes nothing. \<open>watched\<close> holds networks as \<open>norm\<close> spells them.
\<close>

locale watch_source =
  fixes watch :: "'w watch_storage"
    and watched :: "'w \<Rightarrow> (string \<times> string) set"
    and norm :: "string \<Rightarrow> string"
    and inv :: "'w \<Rightarrow> bool"
  assumes filter_frame: "inv w \<Longrightarrow> ws_filter watch n addrs w = (f, w') \<Longrightarrow> inv w' \<and> watched w' = watched w"
    and filter_ok: "inv w \<Longrightarrow> ws_filter watch n addrs w = (Inr hits, w') \<Longrightarrow> distinct addrs \<Longrightarrow>
        distinct hits \<and> set hits = {a \<in> set addrs. (norm n, a) \<in> watched w}"
begin

text \<open>Who is notified of a block, and of what.\<close>

lemma matching_indexed:
  assumes res: "get_transactions_by_wallet ord watch n txs w = (Inr m, w')" and ord: "fair_orders ord" and inv: "inv w"
  shows "distinct (map fst m)" and "if (norm n, a) \<in> watched w \<and> filter (involves a) txs \<noteq> []
         then \<exists>ts. map_of m a = Some ts \<and> mset ts = indexed_for a txs
         else map_of m a = None"
proof -
  obtain addrs ws where s: "ws_filter watch n addrs w = (Inr ws, w')" "distinct addrs"
    "set addrs = wtx_from ` set txs \<union> wtx_to ` set txs" "distinct (map fst m)"
    "\<And>a. distinct ws \<Longrightarrow>
       if a \<in> set ws \<and> hashes_of a txs \<noteq> {}
       then \<exists>ts. map_of m a = Some ts \<and> mset ts = image_mset (the_tx txs) (mset_set (hashes_of a txs))
       else map_of m a = None"
    by (rule get_transactions_spec [OF res ord]) blast
  have f: "distinct ws" "set ws = {a \<in> set addrs. (norm n, a) \<in> watched w}"
    using filter_ok [OF inv s(1,2)] by auto
  have "a \<in> set addrs" if "filter (involves a) txs \<noteq> []"
    using that s(3) by (auto simp: filter_empty_conv involves_def)
  with f s(5) [OF f(1), of a] show "if (norm n, a) \<in> watched w \<and> filter (involves a) txs \<noteq> []
         then \<exists>ts. map_of m a = Some ts \<and> mset ts = indexed_for a txs
         else map_of m a = None"
    unfolding hashes_of_empty indexed_for_def by (auto split: if_splits)
  show "distinct (map fst m)" by (rule s(4))
qed

text \<open>The same when the hashes of the transactions are distinct.\<close>

lemma matching_exact:
  assumes res: "get_transactions_by_wallet ord watch n txs w = (Inr m, w')" and ord: "fair_orders ord"
    and hashes: "distinct (map wtx_hash txs)" and inv: "inv w"
  shows "distinct (map fst m)" and "if (norm n, a) \<in> watched w \<and> filter (involves a) txs \<noteq> []
         then \<exists>ts. map_of m a = Some ts \<and> mset ts = mset (filter (involves a) txs)
         else map_of m a = None"
  using matching_indexed [OF res ord inv] unfolding unique_hashes [OF hashes] .

lemma matching_frame:
  "inv w \<Longrightarrow> get_transactions_by_wallet ord watch n txs w = (r, w') \<Longrightarrow> inv w' \<and> watched w' = watched w"
  using filter_frame [of w n "set_to_slice (io_slice ord) (ix_wallets (index_txs txs))"]
  by (auto simp: get_transactions_by_wallet_def Let_def split: prod.splits sum.splits)

end

section \<open>Material of the examples\<close>

definition demo_tx :: "string \<Rightarrow> string \<Rightarrow> string \<Rightarrow> ww_transaction" where
  "demo_tx h a b = \<lparr>wtx_hash = h, wtx_from = a, wtx_to = b\<rparr>"

definition plain_orders :: iter_orders where
  "plain_orders = \<lparr>io_slice = (\<lambda>xs. xs), io_hashes = (\<lambda>_ xs. xs), io_wallets = (\<lambda>xs. xs)\<rparr>"

lemma fair_plain [simp]: "fair_orders plain_orders"
  by (simp add: fair_orders_def plain_orders_def)

definition watch_all :: "unit watch_storage" where
  "watch_all = \<lparr>ws_filter = (\<lambda>n addrs w. (Inr (remdups addrs), w))\<rparr>"

section \<open>Property\<close>

text \<open>
  C30. Transactions of a block that share a hash, as the several transfers of one Solana transaction
  do, are confused: the index keeps the last one with the hash, so a watched wallet of the first is
  notified of a transaction that does not involve it, and not of its own.
\<close>

theorem shared_hash_misattributed:
  assumes "get_transactions_by_wallet ord storage network [demo_tx h a b, demo_tx h c d] w = (Inr m, w')"
    and "fair_orders ord" and "a \<noteq> c" and "a \<noteq> d"
    and "\<And>addrs hits w'. ws_filter storage network addrs w = (Inr hits, w') \<Longrightarrow>
           distinct hits \<and> (a \<in> set addrs \<longrightarrow> a \<in> set hits)"
  shows "map_of m a = Some [demo_tx h c d] \<and> \<not> involves a (demo_tx h c d)"
proof -
  let ?txs = "[demo_tx h a b, demo_tx h c d]"
  obtain addrs ws where s: "ws_filter storage network addrs w = (Inr ws, w')"
    "set addrs = wtx_from ` set ?txs \<union> wtx_to ` set ?txs"
    "\<And>a. distinct ws \<Longrightarrow>
       if a \<in> set ws \<and> hashes_of a ?txs \<noteq> {}
       then \<exists>ts. map_of m a = Some ts \<and> mset ts = image_mset (the_tx ?txs) (mset_set (hashes_of a ?txs))
       else map_of m a = None"
    by (rule get_transactions_spec [OF assms(1,2)]) blast
  have "a \<in> set addrs" by (simp add: s(2) demo_tx_def)
  then have ws: "distinct ws" "a \<in> set ws" using assms(5) [OF s(1)] by blast+
  have h: "hashes_of a ?txs = {h}" and t: "the_tx ?txs h = demo_tx h c d"
    using assms(3,4) by (simp_all add: demo_tx_def involves_def the_tx_def)
  from s(3) [OF ws(1), of a, unfolded h] ws(2) have "\<exists>ts. map_of m a = Some ts \<and> mset ts = {#demo_tx h c d#}"
    by (simp add: t del: last_tx.simps)
  then show ?thesis using assms(3,4) by (auto simp: demo_tx_def involves_def)
qed

theorem shared_hash_misattributed_witness:
  "\<exists>m w'. get_transactions_by_wallet plain_orders watch_all ''SOLANA''
       [demo_tx ''sig'' ''A'' ''B'', demo_tx ''sig'' ''C'' ''D''] () = (Inr m, w') \<and>
     map_of m ''A'' = Some [demo_tx ''sig'' ''C'' ''D'']"
proof -
  obtain m w' where g: "get_transactions_by_wallet plain_orders watch_all ''SOLANA''
       [demo_tx ''sig'' ''A'' ''B'', demo_tx ''sig'' ''C'' ''D''] () = (Inr m, w')"
    using get_transactions_ok [of watch_all "''SOLANA''" "()"] by (auto simp: watch_all_def)
  have "map_of m ''A'' = Some [demo_tx ''sig'' ''C'' ''D''] \<and> \<not> involves ''A'' (demo_tx ''sig'' ''C'' ''D'')"
    by (rule shared_hash_misattributed [OF g]) (auto simp: watch_all_def)
  with g show ?thesis by blast
qed

end
