(* ===== verification/Idempotency.thy ===== *)
theory Idempotency
  imports Walletwatch
begin

text \<open>
  The contract of \<^verbatim>\<open>walletwatch.IdempotencyGuard\<close> as a locale, over runs in which any number of
  workers claim and complete blocks while time passes. The theories of the storages interpret it.
  \<open>held w k b\<close>: nobody can claim the block with key \<open>k\<close> before time \<open>b\<close>.
\<close>

section \<open>Runs and their traces\<close>

text \<open>A successful claim with its time and its duration, and a successful completion.\<close>

datatype 'k guard_event = Claimed 'k int int | Completed 'k

text \<open>
  A worker completes a block only after a claim of that block, its own or, when that has expired,
  somebody else's. Claims are for a positive duration.
\<close>

inductive guard_run ::
    "'w idempotency_guard \<Rightarrow> ('w \<Rightarrow> 'w \<Rightarrow> bool) \<Rightarrow> (string \<Rightarrow> string \<Rightarrow> 'k) \<Rightarrow> ('w \<Rightarrow> int) \<Rightarrow>
     'w \<Rightarrow> 'k guard_event list \<Rightarrow> 'w \<Rightarrow> bool" for g pass key now w0 where
  start: "guard_run g pass key now w0 [] w0"
| claim: "guard_run g pass key now w0 evs w \<Longrightarrow> 0 < ttl \<Longrightarrow> ig_claim g n h ttl w = (r, w') \<Longrightarrow>
    guard_run g pass key now w0
      (evs @ (if r = None then [Claimed (key n h) (now w) ttl] else [])) w'"
| mark: "guard_run g pass key now w0 evs w \<Longrightarrow> Claimed (key n h) t ttl \<in> set evs \<Longrightarrow> ig_mark g n h w = (r, w') \<Longrightarrow>
    guard_run g pass key now w0 (evs @ (if r = None then [Completed (key n h)] else [])) w'"
| time: "guard_run g pass key now w0 evs w \<Longrightarrow> pass w w' \<Longrightarrow> guard_run g pass key now w0 evs w'"

text \<open>
  What two events in this order may be: claims of the same block are apart by the duration of the
  first, and a completed block is not claimed again.
\<close>

fun compatible :: "'k guard_event \<Rightarrow> 'k guard_event \<Rightarrow> bool" where
  "compatible (Claimed k t d) (Claimed k' t' d') = (k = k' \<longrightarrow> t + d \<le> t')"
| "compatible (Completed k) (Claimed k' t' d') = (k \<noteq> k')"
| "compatible _ (Completed k') = True"

definition exclusive_trace :: "'k guard_event list \<Rightarrow> bool" where
  "exclusive_trace evs \<longleftrightarrow> sorted_wrt compatible evs"

section \<open>The contract\<close>

locale guard_contract =
  fixes g :: "'w idempotency_guard"
    and pass :: "'w \<Rightarrow> 'w \<Rightarrow> bool"
    and key :: "string \<Rightarrow> string \<Rightarrow> 'k"
    and now :: "'w \<Rightarrow> int"
    and inv :: "'w \<Rightarrow> bool"
    and held :: "'w \<Rightarrow> 'k \<Rightarrow> int \<Rightarrow> bool"
    and known :: "'w \<Rightarrow> 'k \<Rightarrow> bool"
  assumes claim_inv: "inv w \<Longrightarrow> ig_claim g n h ttl w = (r, w') \<Longrightarrow> inv w'"
    and mark_inv: "inv w \<Longrightarrow> ig_mark g n h w = (r, w') \<Longrightarrow> inv w'"
    and pass_inv: "inv w \<Longrightarrow> pass w w' \<Longrightarrow> inv w'"
    and claim_keeps: "inv w \<Longrightarrow> ig_claim g n h ttl w = (r, w') \<Longrightarrow>
        (held w k b \<longrightarrow> held w' k b) \<and> (known w k \<longrightarrow> known w' k)"
    and mark_keeps: "inv w \<Longrightarrow> ig_mark g n h w = (r, w') \<Longrightarrow>
        (held w k b \<longrightarrow> held w' k b) \<and> (known w k \<longrightarrow> known w' k)"
    and pass_keeps: "inv w \<Longrightarrow> pass w w' \<Longrightarrow>
        (held w k b \<longrightarrow> held w' k b) \<and> (known w k \<longrightarrow> known w' k)"
    and claim_excludes: "inv w \<Longrightarrow> ig_claim g n h ttl w = (None, w') \<Longrightarrow> held w (key n h) b \<Longrightarrow> b \<le> now w"
    and claim_holds: "inv w \<Longrightarrow> 0 < ttl \<Longrightarrow> ig_claim g n h ttl w = (None, w') \<Longrightarrow>
        held w' (key n h) (now w + ttl) \<and> known w' (key n h)"
    and mark_holds: "inv w \<Longrightarrow> known w (key n h) \<Longrightarrow> ig_mark g n h w = (None, w') \<Longrightarrow> held w' (key n h) b"
begin

definition consistent :: "'k guard_event list \<Rightarrow> 'w \<Rightarrow> bool" where
  "consistent evs w \<longleftrightarrow>
     inv w \<and> sorted_wrt compatible evs \<and>
     (\<forall>k t d. Claimed k t d \<in> set evs \<longrightarrow> held w k (t + d) \<and> known w k) \<and>
     (\<forall>k b. Completed k \<in> set evs \<longrightarrow> held w k b)"

lemma consistent_run:
  "guard_run g pass key now w0 evs w \<Longrightarrow> inv w0 \<Longrightarrow> consistent evs w"
proof (induction rule: guard_run.induct)
  case start
  then show ?case by (simp add: consistent_def)
next
  case (claim evs w ttl n h r w')
  then have c: "consistent evs w" by simp
  then have i: "inv w" by (simp add: consistent_def)
  note keeps = claim_keeps [OF i claim.hyps(3)] and i' = claim_inv [OF i claim.hyps(3)]
  show ?case
  proof (cases r)
    case None
    have ex: "held w (key n h) b \<Longrightarrow> b \<le> now w" for b
      using claim_excludes [OF i] claim.hyps(3) None by blast
    have "compatible e (Claimed (key n h) (now w) ttl)" if "e \<in> set evs" for e
    proof (cases e)
      case (Claimed k t d)
      with c that ex show ?thesis by (auto simp: consistent_def)
    next
      case (Completed k)
      have "k \<noteq> key n h"
      proof
        assume "k = key n h"
        with c that Completed have "held w (key n h) (now w + 1)" by (simp add: consistent_def)
        from ex [OF this] show False by simp
      qed
      with Completed show ?thesis by simp
    qed
    with c keeps i' claim_holds [OF i claim.hyps(2), of n h w'] claim.hyps(3) None show ?thesis
      by (auto simp: consistent_def sorted_wrt_append)
  next
    case (Some e)
    with c keeps i' show ?thesis by (auto simp: consistent_def)
  qed
next
  case (mark evs w n h t ttl r w')
  then have c: "consistent evs w" by simp
  then have i: "inv w" by (simp add: consistent_def)
  note keeps = mark_keeps [OF i mark.hyps(3)] and i' = mark_inv [OF i mark.hyps(3)]
  have "known w (key n h)" using c mark.hyps(2) by (auto simp: consistent_def)
  then have "r = None \<Longrightarrow> held w' (key n h) b" for b
    using mark_holds [OF i] mark.hyps(3) by blast
  moreover have "compatible e (Completed (key n h))" for e by (cases e) auto
  ultimately show ?case using c keeps i' by (auto simp: consistent_def sorted_wrt_append)
next
  case (time evs w w')
  then have c: "consistent evs w" by simp
  then have i: "inv w" by (simp add: consistent_def)
  show ?case
    using c pass_keeps [OF i time.hyps(2)] pass_inv [OF i time.hyps(2)] by (auto simp: consistent_def)
qed

lemma run_exclusive:
  "inv w0 \<Longrightarrow> guard_run g pass key now w0 evs w \<Longrightarrow> exclusive_trace evs"
  using consistent_run by (auto simp: consistent_def exclusive_trace_def)

end

section \<open>A guard on a part of the world\<close>

definition guard_on :: "('w \<Rightarrow> 'v) \<Rightarrow> ('v \<Rightarrow> 'w \<Rightarrow> 'w) \<Rightarrow> 'v idempotency_guard \<Rightarrow> 'w idempotency_guard" where
  "guard_on get put g =
     \<lparr>ig_claim = (\<lambda>n h ttl. on_part get put (ig_claim g n h ttl)), ig_mark = (\<lambda>n h. on_part get put (ig_mark g n h))\<rparr>"

text \<open>
  The contract carries over to the part, with network and hash as the key, and with anything that keeps what is
  held as what may happen meanwhile.
\<close>

lemma guard_contract_on:
  assumes c: "guard_contract g pass key now ok held known" and p: "part get put"
    and calm: "\<And>w w' n h b. calm w w' \<Longrightarrow> ok (get w) \<Longrightarrow>
      ok (get w') \<and> (held (get w) (key n h) b \<longrightarrow> held (get w') (key n h) b) \<and>
      (known (get w) (key n h) \<longrightarrow> known (get w') (key n h))"
  shows "guard_contract (guard_on get put g) calm Pair (\<lambda>w. now (get w)) (\<lambda>w. ok (get w))
    (\<lambda>w (n, h). held (get w) (key n h)) (\<lambda>w (n, h). known (get w) (key n h))"
proof -
  note laws = guard_contract.claim_inv [OF c] guard_contract.mark_inv [OF c] guard_contract.claim_keeps [OF c]
    guard_contract.mark_keeps [OF c] guard_contract.claim_excludes [OF c] guard_contract.claim_holds [OF c]
    guard_contract.mark_holds [OF c]
  show ?thesis
    by unfold_locales
       (use p calm in \<open>auto simp: guard_on_def on_part_iff part_def dest: laws\<close>)
qed

end
