(* ===== verification/Walletregistry.thy ===== *)
theory Walletregistry
  imports Walletwatch
begin

text \<open>
  \<^verbatim>\<open>internal/walletregistry\<close> and the part of \<^verbatim>\<open>internal/pkg/validator\<close> that it uses. The library
  behind the validator is outside the repository: what it reports for a struct, a list of field
  errors or some other error, is an argument of \<^verbatim>\<open>Validate\<close>; for a \<^verbatim>\<open>WalletIdentifier\<close> the tags
  say which fields are reported. The contract of the wallet storages, for the registry and for
  \<^verbatim>\<open>walletwatch\<close>, is the locale \<open>wallet_store\<close>, which extends that of the matching.
\<close>

section \<open>validator.Validate\<close>

record field_error =
  fe_namespace :: string
  fe_value :: string
  fe_tag :: string

datatype validation = Valid | FieldErrors "field_error list" | OtherError gerr

text \<open>\<^verbatim>\<open>errStringFormat\<close>.\<close>

definition field_error_msg :: "field_error \<Rightarrow> string" where
  "field_error_msg e =
     CHR 0x27 # fe_namespace e @ [CHR 0x27] @ '': value '' @ [CHR 0x27] @ fe_value e @ [CHR 0x27] @
     '' does not meet the requirements for the '' @ [CHR 0x27] @ fe_tag e @ [CHR 0x27] @ '' validation''"

definition format_error :: "gerr + field_error list \<Rightarrow> gerr option" where
  "format_error err =
     (case err of
        Inl e \<Rightarrow> Some e
      | Inr es \<Rightarrow>
          errors_join (map Some (fold (\<lambda>e errs. errs @ [ErrMsg (field_error_msg e)]) es [ErrValidationFailed])))"

definition validate :: "validation \<Rightarrow> gerr option" where
  "validate v =
     (case v of
        Valid \<Rightarrow> None
      | FieldErrors es \<Rightarrow> format_error (Inr es)
      | OtherError e \<Rightarrow> format_error (Inl e))"

lemma fold_append_map: "fold (\<lambda>e errs. errs @ [f e]) es acc = acc @ map f es"
  by (induction es arbitrary: acc) auto

lemma format_error_fields:
  "format_error (Inr es) = Some (ErrJoin (ErrValidationFailed # map (ErrMsg o field_error_msg) es))"
proof -
  have "List.map_filter id (map (\<lambda>e. Some (ErrMsg (field_error_msg e))) es) = map (ErrMsg o field_error_msg) es"
    by (induction es) (simp_all add: map_filter_simps)
  then show ?thesis by (simp add: format_error_def errors_join_def fold_append_map map_filter_simps o_def)
qed

section \<open>The service\<close>

record wallet_id =
  wid_network :: string
  wid_address :: string

record 'w registry_storage =
  rs_register :: "wallet_id \<Rightarrow> 'w \<Rightarrow> gerr option \<times> 'w"
  rs_unregister :: "wallet_id \<Rightarrow> 'w \<Rightarrow> gerr option \<times> 'w"

record 'w wr_service =
  wrs_storage :: "'w registry_storage"

definition wr_new :: "'w registry_storage \<Rightarrow> 'w wr_service" where
  "wr_new ws = \<lparr>wrs_storage = ws\<rparr>"

text \<open>The tags \<^verbatim>\<open>required\<close> of the two fields, each of which must differ from the empty string.\<close>

definition check_wallet_id :: "wallet_id \<Rightarrow> validation" where
  "check_wallet_id wid =
     (let missing =
        (if wid_network wid = '''' then
           [\<lparr>fe_namespace = ''WalletIdentifier.Network'', fe_value = '''', fe_tag = ''required''\<rparr>] else []) @
        (if wid_address wid = '''' then
           [\<lparr>fe_namespace = ''WalletIdentifier.Address'', fe_value = '''', fe_tag = ''required''\<rparr>] else [])
      in if missing = [] then Valid else FieldErrors missing)"

definition build_wallet_identifier :: "string \<Rightarrow> string \<Rightarrow> wallet_id \<times> gerr option" where
  "build_wallet_identifier network address =
     (let wid = \<lparr>wid_network = network, wid_address = address\<rparr> in (wid, validate (check_wallet_id wid)))"

definition start_watching :: "'w wr_service \<Rightarrow> string \<Rightarrow> string \<Rightarrow> 'w \<Rightarrow> gerr option \<times> 'w" where
  "start_watching s network address w =
     (case build_wallet_identifier network address of
        (wid, Some err) \<Rightarrow> (Some err, w)
      | (wid, None) \<Rightarrow> rs_register (wrs_storage s) wid w)"

definition stop_watching :: "'w wr_service \<Rightarrow> string \<Rightarrow> string \<Rightarrow> 'w \<Rightarrow> gerr option \<times> 'w" where
  "stop_watching s network address w =
     (case build_wallet_identifier network address of
        (wid, Some err) \<Rightarrow> (Some err, w)
      | (wid, None) \<Rightarrow> rs_unregister (wrs_storage s) wid w)"

lemma watching_valid:
  assumes "n \<noteq> ''''" "a \<noteq> ''''"
  shows "start_watching s n a w = rs_register (wrs_storage s) \<lparr>wid_network = n, wid_address = a\<rparr> w"
    and "stop_watching s n a w = rs_unregister (wrs_storage s) \<lparr>wid_network = n, wid_address = a\<rparr> w"
  using assms
  by (simp_all add: start_watching_def stop_watching_def build_wallet_identifier_def check_wallet_id_def
      validate_def Let_def)

text \<open>An invalid identifier never reaches the storage.\<close>

lemma watching_invalid:
  assumes "n = '''' \<or> a = ''''"
  shows "\<exists>es. start_watching s n a w = (Some (ErrJoin (ErrValidationFailed # es)), w) \<and>
              stop_watching s n a w = (Some (ErrJoin (ErrValidationFailed # es)), w)"
  using assms
  by (auto simp: start_watching_def stop_watching_def build_wallet_identifier_def check_wallet_id_def
      validate_def format_error_fields Let_def)

text \<open>A request leaves the state alone or is one request to the storage.\<close>

lemma start_watching_effect:
  "start_watching s n a w = (r, w') \<Longrightarrow>
     w' = w \<or> rs_register (wrs_storage s) \<lparr>wid_network = n, wid_address = a\<rparr> w = (r, w')"
  using watching_valid(1) [of n a s w] watching_invalid [of n a s w]
  by (cases "n = '''' \<or> a = ''''") auto

lemma stop_watching_effect:
  "stop_watching s n a w = (r, w') \<Longrightarrow>
     w' = w \<or> rs_unregister (wrs_storage s) \<lparr>wid_network = n, wid_address = a\<rparr> w = (r, w')"
  using watching_valid(2) [of n a s w] watching_invalid [of n a s w]
  by (cases "n = '''' \<or> a = ''''") auto

section \<open>The contract of a wallet storage\<close>

text \<open>
  A request either takes effect and reports so, or reports that there was nothing to do, or fails
  with another error and may or may not have taken effect.
\<close>

locale wallet_store = watch_source +
  fixes registry :: "'w registry_storage"
  assumes register_inv: "inv w \<Longrightarrow> rs_register registry wid w = (r, w') \<Longrightarrow> inv w'"
    and unregister_inv: "inv w \<Longrightarrow> rs_unregister registry wid w = (r, w') \<Longrightarrow> inv w'"
    and register_ok: "rs_register registry wid w = (None, w') \<Longrightarrow>
        (norm (wid_network wid), wid_address wid) \<notin> watched w \<and>
        watched w' = insert (norm (wid_network wid), wid_address wid) (watched w)"
    and register_known: "rs_register registry wid w = (Some ErrWalletAlreadyRegistered, w') \<Longrightarrow>
        (norm (wid_network wid), wid_address wid) \<in> watched w \<and> watched w' = watched w"
    and unregister_ok: "rs_unregister registry wid w = (None, w') \<Longrightarrow>
        (norm (wid_network wid), wid_address wid) \<in> watched w \<and>
        watched w' = watched w - {(norm (wid_network wid), wid_address wid)}"
    and unregister_unknown: "rs_unregister registry wid w = (Some ErrWalletNotFound, w') \<Longrightarrow>
        (norm (wid_network wid), wid_address wid) \<notin> watched w \<and> watched w' = watched w"
    and register_err: "rs_register registry wid w = (Some e, w') \<Longrightarrow>
        watched w' = watched w \<or> watched w' = insert (norm (wid_network wid), wid_address wid) (watched w)"
    and unregister_err: "rs_unregister registry wid w = (Some e, w') \<Longrightarrow>
        watched w' = watched w \<or> watched w' = watched w - {(norm (wid_network wid), wid_address wid)}"
begin

lemma start_then_watched:
  "start_watching \<lparr>wrs_storage = registry\<rparr> n a w = (r, w') \<Longrightarrow>
     r = None \<or> r = Some ErrWalletAlreadyRegistered \<Longrightarrow> (norm n, a) \<in> watched w'"
  using register_ok [of "\<lparr>wid_network = n, wid_address = a\<rparr>" w w']
    register_known [of "\<lparr>wid_network = n, wid_address = a\<rparr>" w w']
    watching_invalid [of n a "\<lparr>wrs_storage = registry\<rparr>" w]
  by (cases "n = '''' \<or> a = ''''") (auto simp: watching_valid)

lemma stop_then_unwatched:
  "stop_watching \<lparr>wrs_storage = registry\<rparr> n a w = (r, w') \<Longrightarrow>
     r = None \<or> r = Some ErrWalletNotFound \<Longrightarrow> (norm n, a) \<notin> watched w'"
  using unregister_ok [of "\<lparr>wid_network = n, wid_address = a\<rparr>" w w']
    unregister_unknown [of "\<lparr>wid_network = n, wid_address = a\<rparr>" w w']
    watching_invalid [of n a "\<lparr>wrs_storage = registry\<rparr>" w]
  by (cases "n = '''' \<or> a = ''''") (auto simp: watching_valid)

end

end
