(* ===== verification/Storage_Postgres.thy ===== *)
theory Storage_Postgres
  imports Checkpoints Idempotency Walletregistry
begin

text \<open>
  \<^verbatim>\<open>internal/infra/storage/postgresql\<close>: the three tables of the migrations, the SQL statements of the
  queriers, and the client over them. A statement is atomic. It may fail before it runs, or run and
  lose its reply; the fates of the coming statements are part of the state. \<^verbatim>\<open>NOW()\<close> is the clock
  of the database, \<^verbatim>\<open>time.Now()\<close> the clock of the application. Row identifiers (fresh UUIDs) and
  the time stamps that no statement reads are left out.
\<close>

section \<open>Tables\<close>

record checkpoint_row =
  cr_network :: string
  cr_height :: int64

record wallet_row =
  mw_network :: string
  mw_address :: string

record idem_row =
  ir_network :: string
  ir_hash :: string
  ir_until :: int
  ir_finished :: "int option"

datatype fate = Runs | Fails string | LosesReply string

record pg =
  pg_checkpoints :: "checkpoint_row list"
  pg_wallets :: "wallet_row list"
  pg_idem :: "idem_row list"
  pg_clock :: int
  pg_app_clock :: int
  pg_fates :: "fate list"

text \<open>A statement: what it returns and does when it runs, under the next fate.\<close>

definition pg_exec :: "(pg \<Rightarrow> (gerr + 'r) \<times> pg) \<Rightarrow> pg \<Rightarrow> (gerr + 'r) \<times> pg" where
  "pg_exec stmt w =
     (case pg_fates w of
        [] \<Rightarrow> stmt w
      | Runs # fs \<Rightarrow> stmt (w\<lparr>pg_fates := fs\<rparr>)
      | Fails e # fs \<Rightarrow> (Inl (ErrExternal e), w\<lparr>pg_fates := fs\<rparr>)
      | LosesReply e # fs \<Rightarrow> (Inl (ErrExternal e), snd (stmt (w\<lparr>pg_fates := fs\<rparr>))))"

section \<open>The queries of chainstream_checkpoint\<close>

text \<open>\<^verbatim>\<open>INSERT ... ON CONFLICT ... DO NOTHING\<close>; the trigger stores the network in upper case.\<close>

definition insert_checkpoint_if_not_exists :: "string \<Rightarrow> int64 \<Rightarrow> pg \<Rightarrow> (gerr + unit) \<times> pg" where
  "insert_checkpoint_if_not_exists network height =
     pg_exec (\<lambda>w.
       let row = \<lparr>cr_network = to_upper network, cr_height = height\<rparr> in
       (Inr (), if row \<in> set (pg_checkpoints w) then w
                else w\<lparr>pg_checkpoints := pg_checkpoints w @ [row]\<rparr>))"

text \<open>\<^verbatim>\<open>ORDER BY height DESC LIMIT 1\<close>.\<close>

fun greatest :: "int64 list \<Rightarrow> int64 option" where
  "greatest [] = None"
| "greatest (h # hs) =
     (case greatest hs of None \<Rightarrow> Some h | Some g \<Rightarrow> Some (if sint g \<le> sint h then h else g))"

definition get_latest_checkpoint_by_network :: "string \<Rightarrow> pg \<Rightarrow> (gerr + int64) \<times> pg" where
  "get_latest_checkpoint_by_network network =
     pg_exec (\<lambda>w.
       case greatest (map cr_height (filter (\<lambda>r. cr_network r = to_upper network) (pg_checkpoints w))) of
         None \<Rightarrow> (Inl ErrNoRows, w)
       | Some h \<Rightarrow> (Inr h, w))"

section \<open>The queries of monitored_wallets\<close>

definition insert_monitored_wallet :: "string \<Rightarrow> string \<Rightarrow> pg \<Rightarrow> (gerr + unit) \<times> pg" where
  "insert_monitored_wallet network address =
     pg_exec (\<lambda>w.
       let row = \<lparr>mw_network = to_upper network, mw_address = address\<rparr> in
       if row \<in> set (pg_wallets w) then (Inl ErrUniqueViolation, w)
       else (Inr (), w\<lparr>pg_wallets := pg_wallets w @ [row]\<rparr>))"

definition delete_monitored_wallet_by_address :: "string \<Rightarrow> string \<Rightarrow> pg \<Rightarrow> (gerr + nat) \<times> pg" where
  "delete_monitored_wallet_by_address network address =
     pg_exec (\<lambda>w.
       let hit = (\<lambda>r. mw_network r = to_upper network \<and> mw_address r = address) in
       (Inr (length (filter hit (pg_wallets w))),
        w\<lparr>pg_wallets := filter (\<lambda>r. \<not> hit r) (pg_wallets w)\<rparr>))"

definition filter_monitored_wallets :: "string \<Rightarrow> string list \<Rightarrow> pg \<Rightarrow> (gerr + string list) \<times> pg" where
  "filter_monitored_wallets network addresses =
     pg_exec (\<lambda>w.
       (Inr (map mw_address
          (filter (\<lambda>r. mw_network r = to_upper network \<and> mw_address r \<in> set addresses) (pg_wallets w))), w))"

section \<open>The queries of walletwatch_idempotency\<close>

definition is_claim :: "string \<Rightarrow> string \<Rightarrow> idem_row \<Rightarrow> bool" where
  "is_claim network blockHash r \<longleftrightarrow> ir_network r = network \<and> ir_hash r = blockHash"

text \<open>The upsert; the result is the number of rows inserted or updated.\<close>

definition claim_or_extend_if_expired :: "string \<Rightarrow> string \<Rightarrow> int \<Rightarrow> pg \<Rightarrow> (gerr + nat) \<times> pg" where
  "claim_or_extend_if_expired network blockHash until =
     pg_exec (\<lambda>w.
       case List.find (is_claim (to_upper network) blockHash) (pg_idem w) of
         None \<Rightarrow>
           (Inr 1, w\<lparr>pg_idem := pg_idem w @
              [\<lparr>ir_network = to_upper network, ir_hash = blockHash, ir_until = until, ir_finished = None\<rparr>]\<rparr>)
       | Some r \<Rightarrow>
           if ir_finished r = None \<and> ir_until r < pg_clock w
           then (Inr 1, w\<lparr>pg_idem :=
                  map (\<lambda>r. if is_claim (to_upper network) blockHash r then r\<lparr>ir_until := until\<rparr> else r) (pg_idem w)\<rparr>)
           else (Inr 0, w))"

definition find_claim :: "string \<Rightarrow> string \<Rightarrow> pg \<Rightarrow> (gerr + idem_row) \<times> pg" where
  "find_claim network blockHash =
     pg_exec (\<lambda>w.
       case List.find (is_claim (to_upper network) blockHash) (pg_idem w) of
         None \<Rightarrow> (Inl ErrNoRows, w)
       | Some r \<Rightarrow> (Inr r, w))"

definition mark_claim_as_completed :: "string \<Rightarrow> string \<Rightarrow> pg \<Rightarrow> (gerr + unit) \<times> pg" where
  "mark_claim_as_completed network blockHash =
     pg_exec (\<lambda>w.
       (Inr (), w\<lparr>pg_idem :=
          map (\<lambda>r. if is_claim (to_upper network) blockHash r \<and> ir_finished r = None
                   then r\<lparr>ir_finished := Some (pg_clock w)\<rparr> else r) (pg_idem w)\<rparr>))"

section \<open>The client\<close>

definition is_unique_violation :: "gerr \<Rightarrow> bool" where
  "is_unique_violation err = errors_is err ErrUniqueViolation"

definition is_not_found_error :: "gerr \<Rightarrow> bool" where
  "is_not_found_error err = errors_is err ErrNoRows"

definition pg_save_checkpoint :: "string \<Rightarrow> hex \<Rightarrow> pg \<Rightarrow> (gerr option \<times> pg) outcome" where
  "pg_save_checkpoint network height w =
     bind_outcome (hex_int height) (\<lambda>h.
       Val (case insert_checkpoint_if_not_exists (to_upper network) h w of
              (Inl e, w') \<Rightarrow> (Some e, w')
            | (Inr _, w') \<Rightarrow> (None, w')))"

definition pg_load_latest_checkpoint :: "string \<Rightarrow> pg \<Rightarrow> (hex \<times> gerr option) \<times> pg" where
  "pg_load_latest_checkpoint network w =
     (case get_latest_checkpoint_by_network (to_upper network) w of
        (Inl err, w') \<Rightarrow> (('''', Some (if is_not_found_error err then ErrNoCheckpointFound else err)), w')
      | (Inr height, w') \<Rightarrow> ((hex_from_int height, None), w'))"

definition pg_register_wallet :: "wallet_id \<Rightarrow> pg \<Rightarrow> gerr option \<times> pg" where
  "pg_register_wallet wid w =
     (case insert_monitored_wallet (to_upper (wid_network wid)) (wid_address wid) w of
        (Inl err, w') \<Rightarrow> (Some (if is_unique_violation err then ErrWalletAlreadyRegistered else err), w')
      | (Inr _, w') \<Rightarrow> (None, w'))"

definition pg_unregister_wallet :: "wallet_id \<Rightarrow> pg \<Rightarrow> gerr option \<times> pg" where
  "pg_unregister_wallet wid w =
     (case delete_monitored_wallet_by_address (to_upper (wid_network wid)) (wid_address wid) w of
        (Inl err, w') \<Rightarrow> (Some err, w')
      | (Inr rowsAffected, w') \<Rightarrow> (if rowsAffected = 0 then Some ErrWalletNotFound else None, w'))"

definition pg_filter_watched_wallets :: "string \<Rightarrow> string list \<Rightarrow> pg \<Rightarrow> (gerr + string list) \<times> pg" where
  "pg_filter_watched_wallets network addresses = filter_monitored_wallets (to_upper network) addresses"

text \<open>The last case of the switch is reached when the two clocks disagree.\<close>

definition pg_claim :: "string \<Rightarrow> string \<Rightarrow> int \<Rightarrow> pg \<Rightarrow> gerr option \<times> pg" where
  "pg_claim network0 blockHash ttl w =
     (let network = to_upper network0; now = pg_app_clock w in
      case claim_or_extend_if_expired network blockHash (now + ttl) w of
        (Inl err, w1) \<Rightarrow> (Some err, w1)
      | (Inr affectedRows, w1) \<Rightarrow>
          if affectedRows > 0 then (None, w1)
          else
            (case find_claim network blockHash w1 of
               (Inl err, w2) \<Rightarrow> (Some err, w2)
             | (Inr claim, w2) \<Rightarrow>
                 (if ir_finished claim \<noteq> None then Some ErrAlreadyFinished
                  else if now < ir_until claim then Some ErrStillInProgress
                  else Some (ErrMsg ''block claim failed unexpectedly: no rows affected but no conflicting state detected''),
                  w2)))"

definition pg_mark :: "string \<Rightarrow> string \<Rightarrow> pg \<Rightarrow> gerr option \<times> pg" where
  "pg_mark network blockHash w =
     (case mark_claim_as_completed (to_upper network) blockHash w of
        (Inl err, w') \<Rightarrow> (Some err, w')
      | (Inr _, w') \<Rightarrow> (None, w'))"

definition pg_checkpoint_storage :: "pg checkpoint_storage" where
  "pg_checkpoint_storage = \<lparr>cks_save = pg_save_checkpoint, cks_load = pg_load_latest_checkpoint\<rparr>"

definition pg_registry :: "pg registry_storage" where
  "pg_registry = \<lparr>rs_register = pg_register_wallet, rs_unregister = pg_unregister_wallet\<rparr>"

definition pg_watch :: "pg watch_storage" where
  "pg_watch = \<lparr>ws_filter = pg_filter_watched_wallets\<rparr>"

definition pg_guard :: "pg idempotency_guard" where
  "pg_guard = \<lparr>ig_claim = pg_claim, ig_mark = pg_mark\<rparr>"

section \<open>The checkpoint contract\<close>

definition pg_latest :: "pg \<Rightarrow> string \<Rightarrow> int option" where
  "pg_latest w n =
     map_option sint (greatest (map cr_height (filter (\<lambda>r. cr_network r = to_upper n) (pg_checkpoints w))))"

lemma greatest_None [simp]: "greatest hs = None \<longleftrightarrow> hs = []"
  by (cases hs) (auto split: option.splits)

lemma greatest_Some: "greatest hs = Some g \<Longrightarrow> g \<in> set hs \<and> (\<forall>h \<in> set hs. sint h \<le> sint g)"
proof (induction hs arbitrary: g)
  case (Cons h hs)
  then show ?case by (cases "greatest hs") (auto split: if_splits)
qed simp

lemma greatest_last:
  "\<forall>h \<in> set hs. sint h \<le> sint x \<Longrightarrow> x \<in> set hs' \<Longrightarrow> set hs' \<subseteq> insert x (set hs) \<Longrightarrow>
     map_option sint (greatest hs') = Some (sint x)"
proof (cases "greatest hs'")
  case (Some g)
  assume "\<forall>h \<in> set hs. sint h \<le> sint x" "x \<in> set hs'" "set hs' \<subseteq> insert x (set hs)"
  with greatest_Some [OF Some] have "sint g = sint x" by (metis insertE order_antisym subsetD)
  with Some show ?thesis by simp
qed auto

lemma pg_exec_cases:
  assumes "pg_exec stmt w = (r, w')"
  obtains fs where "stmt (w\<lparr>pg_fates := fs\<rparr>) = (r, w')"
  | fs e where "r = Inl (ErrExternal e)" "w' = w\<lparr>pg_fates := fs\<rparr>"
  | fs e r' where "r = Inl (ErrExternal e)" "stmt (w\<lparr>pg_fates := fs\<rparr>) = (r', w')"
proof (cases "pg_fates w")
  case Nil
  then have "w\<lparr>pg_fates := []\<rparr> = w" by (cases w) simp
  with Nil assms that(1) [of "[]"] show ?thesis by (simp add: pg_exec_def)
next
  case (Cons f fs)
  with assms that(1) [of fs] that(2) [of _ fs] that(3) [of _ fs "fst (stmt (w\<lparr>pg_fates := fs\<rparr>))"] show ?thesis
    by (cases f) (auto simp: pg_exec_def)
qed

lemma pg_exec_frame:
  "(\<And>w. f (snd (stmt w)) = f w) \<Longrightarrow> (\<And>w fs. f (w\<lparr>pg_fates := fs\<rparr>) = f w) \<Longrightarrow> f (snd (pg_exec stmt w)) = f w"
  by (simp add: pg_exec_def split: list.splits fate.splits)

lemma pg_latest_fates [simp]: "pg_latest (w\<lparr>pg_fates := fs\<rparr>) = pg_latest w"
  by (rule ext) (simp add: pg_latest_def)

lemma pg_load_frame: "pg_latest (snd (get_latest_checkpoint_by_network n w)) = pg_latest w"
  unfolding get_latest_checkpoint_by_network_def
  by (rule pg_exec_frame) (simp_all split: option.splits)

text \<open>The row is added to the others, and the highest one is loaded.\<close>

definition higher :: "int option \<Rightarrow> int \<Rightarrow> int" where
  "higher prev i = (case prev of None \<Rightarrow> i | Some j \<Rightarrow> max j i)"

lemma greatest_insert:
  assumes "set hs' = insert h (set hs)"
  shows "map_option sint (greatest hs') = Some (higher (map_option sint (greatest hs)) (sint h))"
proof (cases "greatest hs")
  case None
  then have "hs = []" by simp
  then have "map_option sint (greatest hs') = Some (sint h)" using assms by (intro greatest_last [of hs]) auto
  then show ?thesis using None by (simp add: higher_def)
next
  case (Some g)
  note top = greatest_Some [OF Some]
  show ?thesis
  proof (cases "sint h \<le> sint g")
    case True
    then have "map_option sint (greatest hs') = Some (sint g)"
      using top assms by (intro greatest_last [of "h # hs"]) auto
    then show ?thesis using True Some by (simp add: higher_def max_def)
  next
    case False
    then have "map_option sint (greatest hs') = Some (sint h)"
      using top assms by (intro greatest_last [of hs]) force+
    then show ?thesis using False Some by (simp add: higher_def)
  qed
qed

lemma pg_insert_checkpoint_latest:
  assumes ins: "insert_checkpoint_if_not_exists (to_upper n) h w = (Inr u, w')"
  shows "pg_latest w' m = (if to_upper m = to_upper n then Some (higher (pg_latest w n) (sint h)) else pg_latest w m)"
proof -
  let ?row = "\<lparr>cr_network = to_upper n, cr_height = h\<rparr>"
  from ins obtain fs where w': "w' = (if ?row \<in> set (pg_checkpoints w) then w\<lparr>pg_fates := fs\<rparr>
      else w\<lparr>pg_fates := fs, pg_checkpoints := pg_checkpoints w @ [?row]\<rparr>)"
    unfolding insert_checkpoint_if_not_exists_def by (rule pg_exec_cases) (auto simp: Let_def split: if_splits)
  let ?hs = "\<lambda>w. map cr_height (filter (\<lambda>r. cr_network r = to_upper m) (pg_checkpoints w))"
  show ?thesis
  proof (cases "to_upper m = to_upper n")
    case True
    then have "set (?hs w') = insert h (set (?hs w))" by (force simp: w')
    from greatest_insert [OF this] True show ?thesis by (simp add: pg_latest_def)
  next
    case False
    then have "?hs w' = ?hs w" by (auto simp: w')
    with False show ?thesis by (simp add: pg_latest_def)
  qed
qed

interpretation pg_ckpt: checkpoint_store pg_checkpoint_storage pg_latest to_upper higher
proof
  fix i :: int and n w
  assume "0 \<le> i" "i < 2 ^ 63"
  then show "cks_save pg_checkpoint_storage n (hex_of i) w \<noteq> Panic"
    using hex_int_hex_of [of i] by (simp add: pg_checkpoint_storage_def pg_save_checkpoint_def)
next
  fix i :: int and n m w w'
  assume save: "cks_save pg_checkpoint_storage n (hex_of i) w = Val (None, w')" and i: "0 \<le> i" "i < 2 ^ 63"
  have v: "hex_int (hex_of i) = Val (word_of_int i)" "sint (word_of_int i :: int64) = i"
    using hex_int_hex_of [OF i] by auto
  from save v(1) obtain u where "insert_checkpoint_if_not_exists (to_upper n) (word_of_int i) w = (Inr u, w')"
    by (auto simp: pg_checkpoint_storage_def pg_save_checkpoint_def split: prod.splits sum.splits)
  from pg_insert_checkpoint_latest [OF this] v(2)
  show "pg_latest w' m = (if to_upper m = to_upper n then Some (higher (pg_latest w n) i) else pg_latest w m)" by simp
next
  fix n w h w' i
  assume "cks_load pg_checkpoint_storage n w = ((h, None), w')" and l: "pg_latest w n = Some i"
  then obtain g where g: "get_latest_checkpoint_by_network (to_upper n) w = (Inr g, w')" and h: "h = hex_from_int g"
    by (auto simp: pg_checkpoint_storage_def pg_load_latest_checkpoint_def split: prod.splits sum.splits)
  have "pg_latest w n = Some (sint g)"
    using g unfolding get_latest_checkpoint_by_network_def
    by (rule pg_exec_cases) (auto simp: pg_latest_def split: option.splits)
  with l have "i = sint g" by simp
  with h show "h = hex_of i" by (simp only: word_of_int_sint64)
next
  fix n w h e w'
  assume "cks_load pg_checkpoint_storage n w = ((h, Some e), w')" and e: "errors_is e ErrNoCheckpointFound"
  then obtain err where g: "get_latest_checkpoint_by_network (to_upper n) w = (Inl err, w')" and h: "h = ''''"
    and e': "e = (if is_not_found_error err then ErrNoCheckpointFound else err)"
    by (auto simp: pg_checkpoint_storage_def pg_load_latest_checkpoint_def split: prod.splits sum.splits)
  have "err = ErrNoRows \<and> pg_latest w n = None"
    using g unfolding get_latest_checkpoint_by_network_def
  proof (cases rule: pg_exec_cases)
    case (1 fs)
    then show ?thesis by (auto simp: pg_latest_def split: option.splits)
  next
    case (2 fs m)
    with e e' show ?thesis by (auto simp: is_not_found_error_def)
  next
    case (3 fs m r')
    with e e' show ?thesis by (auto simp: is_not_found_error_def)
  qed
  with h show "pg_latest w n = None \<and> h = ''''" by simp
next
  fix n w r w'
  assume "cks_load pg_checkpoint_storage n w = (r, w')"
  then have "w' = snd (get_latest_checkpoint_by_network (to_upper n) w)"
    by (auto simp: pg_checkpoint_storage_def pg_load_latest_checkpoint_def split: prod.splits sum.splits)
  then show "pg_latest w' = pg_latest w" by (simp add: pg_load_frame)
qed (auto simp: pg_latest_def higher_def max_def split: option.splits)

section \<open>The guard contract\<close>

text \<open>
  Besides the claims and completions, time passes on both clocks alike, and anything but the rows of the claims may
  change: the contract holds while the application's clock agrees with that of the database. A row, once there, is
  never removed.
\<close>

definition pg_key :: "string \<Rightarrow> string \<Rightarrow> string \<times> string" where
  "pg_key n h = (to_upper n, h)"

definition pg_pass :: "pg \<Rightarrow> pg \<Rightarrow> bool" where
  "pg_pass w w' \<longleftrightarrow>
     pg_idem w' = pg_idem w \<and>
     (\<exists>d. 0 \<le> d \<and> pg_clock w' = pg_clock w + d \<and> pg_app_clock w' = pg_app_clock w + d)"

definition pg_synced :: "pg \<Rightarrow> bool" where
  "pg_synced w \<longleftrightarrow> pg_app_clock w = pg_clock w"

definition claim_at :: "pg \<Rightarrow> string \<times> string \<Rightarrow> idem_row option" where
  "claim_at w k = List.find (is_claim (fst k) (snd k)) (pg_idem w)"

definition pg_held :: "pg \<Rightarrow> string \<times> string \<Rightarrow> int \<Rightarrow> bool" where
  "pg_held w k b \<longleftrightarrow>
     b \<le> pg_clock w \<or> (\<exists>r. claim_at w k = Some r \<and> (ir_finished r \<noteq> None \<or> b \<le> ir_until r))"

definition pg_known :: "pg \<Rightarrow> string \<times> string \<Rightarrow> bool" where
  "pg_known w k \<longleftrightarrow> claim_at w k \<noteq> None"

lemma find_map_same:
  "(\<And>r. p (f r) = p r) \<Longrightarrow> List.find p (map f xs) = map_option f (List.find p xs)"
  by (induction xs) auto

lemma find_append:
  "List.find p (xs @ [y]) = (case List.find p xs of Some x \<Rightarrow> Some x | None \<Rightarrow> if p y then Some y else None)"
  by (induction xs) auto

lemma is_claim_found: "List.find (is_claim n h) xs = Some r \<Longrightarrow> ir_network r = n \<and> ir_hash r = h"
  by (auto simp: find_Some_iff is_claim_def)

lemma is_claim_updates [simp]:
  "is_claim n h (r\<lparr>ir_until := t\<rparr>) = is_claim n h r" "is_claim n h (r\<lparr>ir_finished := t'\<rparr>) = is_claim n h r"
  by (simp_all add: is_claim_def)

text \<open>What the two modifying statements do to the claim of each key.\<close>

lemma claim_stmt_cases:
  assumes "claim_or_extend_if_expired (to_upper n) h t w = (r, w')"
  obtains
    (unchanged) "r \<noteq> Inr 1" "pg_idem w' = pg_idem w" "pg_clock w' = pg_clock w" "pg_app_clock w' = pg_app_clock w"
      "r = Inr 0 \<or> (\<exists>e. r = Inl (ErrExternal e))"
  | (claimed) "pg_clock w' = pg_clock w" "pg_app_clock w' = pg_app_clock w" "r = Inr 1 \<or> (\<exists>e. r = Inl (ErrExternal e))"
      "\<And>b. pg_held w (pg_key n h) b \<Longrightarrow> b \<le> pg_clock w"
      "\<exists>r. claim_at w' (pg_key n h) = Some r \<and> ir_until r = t \<and> ir_finished r = None"
      "\<And>k. k \<noteq> pg_key n h \<Longrightarrow> claim_at w' k = claim_at w k"
proof -
  let ?k = "pg_key n h"
  have run: thesis if s: "(r0, w') = (case claim_at w ?k of
         None \<Rightarrow> (Inr 1, w\<lparr>pg_fates := fs, pg_idem := pg_idem w @
              [\<lparr>ir_network = to_upper n, ir_hash = h, ir_until = t, ir_finished = None\<rparr>]\<rparr>)
       | Some r \<Rightarrow>
           if ir_finished r = None \<and> ir_until r < pg_clock w
           then (Inr 1, w\<lparr>pg_fates := fs, pg_idem :=
                  map (\<lambda>r. if is_claim (to_upper n) h r then r\<lparr>ir_until := t\<rparr> else r) (pg_idem w)\<rparr>)
           else (Inr (0::nat), w\<lparr>pg_fates := fs\<rparr>))" and r: "r = r0 \<or> (\<exists>e. r = Inl (ErrExternal e))" for r0 fs
  proof (cases "claim_at w ?k")
    case None
    show ?thesis
      by (rule claimed)
         (use s r None in \<open>auto simp: pg_held_def claim_at_def find_append is_claim_def pg_key_def split: option.splits\<close>)
  next
    case (Some c)
    show ?thesis
    proof (cases "ir_finished c = None \<and> ir_until c < pg_clock w")
      case True
      let ?f = "\<lambda>r. if is_claim (to_upper n) h r then r\<lparr>ir_until := t\<rparr> else r"
      have at: "claim_at w' k = map_option ?f (claim_at w k)" for k
        using s Some True by (auto simp: claim_at_def find_map_same)
      show ?thesis
      proof (rule claimed)
        show "\<exists>r. claim_at w' ?k = Some r \<and> ir_until r = t \<and> ir_finished r = None"
          using Some True is_claim_found [of "fst ?k" "snd ?k" "pg_idem w" c] unfolding at
          by (auto simp: claim_at_def pg_key_def is_claim_def)
        show "claim_at w' k = claim_at w k" if "k \<noteq> ?k" for k
          using that is_claim_found [of "fst k" "snd k" "pg_idem w"] unfolding at
          by (cases "claim_at w k") (auto simp: claim_at_def pg_key_def is_claim_def prod_eq_iff)
      qed (use s r Some True in \<open>auto simp: pg_held_def\<close>)
    next
      case False
      show ?thesis by (rule unchanged) (use s r Some False in auto)
    qed
  qed
  have fold: "(case List.find (is_claim (to_upper n) h) xs of None \<Rightarrow> A | Some r \<Rightarrow> B r) =
      (case claim_at (w\<lparr>pg_idem := xs\<rparr>) ?k of None \<Rightarrow> A | Some r \<Rightarrow> B r)" for xs A B
    by (simp add: claim_at_def pg_key_def)
  show thesis
    using assms unfolding claim_or_extend_if_expired_def
  proof (cases rule: pg_exec_cases)
    case (1 fs)
    then show thesis by (intro run [of r fs]) (simp_all add: claim_at_def pg_key_def cong: option.case_cong if_cong)
  next
    case (2 fs e)
    then show thesis by (intro unchanged) auto
  next
    case (3 fs e r')
    then show thesis by (intro run [of r' fs]) (simp_all add: claim_at_def pg_key_def cong: option.case_cong if_cong)
  qed
qed

lemma find_claim_frame: "find_claim n h w = (r, w') \<Longrightarrow> \<exists>fs. w' = w\<lparr>pg_fates := fs\<rparr>"
  unfolding find_claim_def
  by (erule pg_exec_cases) (auto split: option.splits)

lemma pg_held_fates [simp]:
  "pg_held (w\<lparr>pg_fates := fs\<rparr>) = pg_held w" "pg_known (w\<lparr>pg_fates := fs\<rparr>) = pg_known w"
  "pg_synced (w\<lparr>pg_fates := fs\<rparr>) = pg_synced w"
  by (simp_all add: pg_held_def pg_known_def pg_synced_def claim_at_def fun_eq_iff)

text \<open>The whole operation either leaves the claims alone or makes the claim.\<close>

lemma pg_claim_cases:
  assumes "pg_claim n h ttl w = (r, w')"
  obtains
    (unchanged) "r \<noteq> None" "\<And>k b. pg_held w' k b = pg_held w k b" "\<And>k. pg_known w' k = pg_known w k"
      "pg_synced w' = pg_synced w"
  | (claimed) "pg_clock w' = pg_clock w" "pg_app_clock w' = pg_app_clock w"
      "\<And>b. pg_held w (pg_key n h) b \<Longrightarrow> b \<le> pg_clock w"
      "\<exists>r. claim_at w' (pg_key n h) = Some r \<and> ir_until r = pg_app_clock w + ttl \<and> ir_finished r = None"
      "\<And>k. k \<noteq> pg_key n h \<Longrightarrow> claim_at w' k = claim_at w k"
proof -
  obtain x w1 where x: "claim_or_extend_if_expired (to_upper n) h (pg_app_clock w + ttl) w = (x, w1)"
    by (metis surj_pair)
  from x show thesis
  proof (cases rule: claim_stmt_cases)
    case unchanged
    have "pg_held w1 = pg_held w" "pg_known w1 = pg_known w" "pg_synced w1 = pg_synced w"
      using unchanged by (simp_all add: pg_held_def pg_known_def pg_synced_def claim_at_def fun_eq_iff)
    moreover have "r \<noteq> None \<and> (\<exists>fs. w' = w1\<lparr>pg_fates := fs\<rparr> \<or> w' = w1)"
      using assms x unchanged(5) find_claim_frame [of "to_upper n" h w1]
      by (auto simp: pg_claim_def Let_def split: prod.splits sum.splits if_splits)
    ultimately show thesis by (intro that(1)) auto
  next
    case claimed
    have "w' = w1"
      using assms x claimed(3) by (auto simp: pg_claim_def Let_def split: prod.splits sum.splits if_splits)
    with claimed show thesis by (intro that(2)) auto
  qed
qed

lemma pg_mark_cases:
  assumes "pg_mark n h w = (r, w')"
  obtains
    (unchanged) "r \<noteq> None" "\<exists>fs. w' = w\<lparr>pg_fates := fs\<rparr>"
  | (marked) "pg_clock w' = pg_clock w" "pg_app_clock w' = pg_app_clock w"
      "\<And>k. claim_at w' k = map_option (\<lambda>r. if is_claim (to_upper n) h r \<and> ir_finished r = None
           then r\<lparr>ir_finished := Some (pg_clock w)\<rparr> else r) (claim_at w k)"
proof -
  obtain x where x: "mark_claim_as_completed (to_upper n) h w = (x, w')" and r: "r = None \<longleftrightarrow> (\<exists>u. x = Inr u)"
    using assms by (auto simp: pg_mark_def split: prod.splits sum.splits)
  have run: thesis if "w' = w\<lparr>pg_fates := fs, pg_idem :=
          map (\<lambda>r. if is_claim (to_upper n) h r \<and> ir_finished r = None
                   then r\<lparr>ir_finished := Some (pg_clock w)\<rparr> else r) (pg_idem w)\<rparr>" for fs
    by (rule marked) (auto simp: that claim_at_def find_map_same)
  from x show thesis unfolding mark_claim_as_completed_def
  proof (cases rule: pg_exec_cases)
    case (1 fs)
    then show thesis by (intro run [of fs]) (auto cong: if_cong)
  next
    case (2 fs e)
    with r show thesis by (intro unchanged) auto
  next
    case (3 fs e r')
    then show thesis by (intro run [of fs]) (auto cong: if_cong)
  qed
qed

lemma pg_held_claimed:
  assumes "pg_clock w' = pg_clock w" "\<And>b. pg_held w (pg_key n h) b \<Longrightarrow> b \<le> pg_clock w"
    and "\<And>k. k \<noteq> pg_key n h \<Longrightarrow> claim_at w' k = claim_at w k" and "pg_held w k b"
  shows "pg_held w' k b"
  using assms by (cases "k = pg_key n h") (auto simp: pg_held_def)

interpretation pg_gd: guard_contract pg_guard pg_pass pg_key pg_clock pg_synced pg_held pg_known
proof
  fix w n h ttl r w'
  assume i: "pg_synced w" and c: "ig_claim pg_guard n h ttl w = (r, w')"
  from c have c': "pg_claim n h ttl w = (r, w')" by (simp add: pg_guard_def)
  then show "pg_synced w'"
    by (rule pg_claim_cases) (use i in \<open>auto simp: pg_synced_def\<close>)
next
  fix w n h r w'
  assume i: "pg_synced w" and c: "ig_mark pg_guard n h w = (r, w')"
  from c have c': "pg_mark n h w = (r, w')" by (simp add: pg_guard_def)
  then show "pg_synced w'"
    by (rule pg_mark_cases) (use i in \<open>auto simp: pg_synced_def\<close>)
next
  fix w w' assume "pg_synced w" "pg_pass w w'"
  then show "pg_synced w'" by (auto simp: pg_synced_def pg_pass_def)
next
  fix w n h ttl r w' k b
  assume "ig_claim pg_guard n h ttl w = (r, w')"
  then have c: "pg_claim n h ttl w = (r, w')" by (simp add: pg_guard_def)
  then show "(pg_held w k b \<longrightarrow> pg_held w' k b) \<and> (pg_known w k \<longrightarrow> pg_known w' k)"
  proof (cases rule: pg_claim_cases)
    case claimed
    have "pg_known w k \<longrightarrow> pg_known w' k"
      using claimed(4,5) by (cases "k = pg_key n h") (auto simp: pg_known_def)
    with pg_held_claimed [OF claimed(1,3,5)] show ?thesis by blast
  qed simp
next
  fix w n h r w' k b
  assume "ig_mark pg_guard n h w = (r, w')"
  then have c: "pg_mark n h w = (r, w')" by (simp add: pg_guard_def)
  then show "(pg_held w k b \<longrightarrow> pg_held w' k b) \<and> (pg_known w k \<longrightarrow> pg_known w' k)"
  proof (cases rule: pg_mark_cases)
    case marked
    then show ?thesis by (cases "claim_at w k") (auto simp: pg_held_def pg_known_def)
  qed auto
next
  fix w w' k b assume "pg_pass w w'"
  then show "(pg_held w k b \<longrightarrow> pg_held w' k b) \<and> (pg_known w k \<longrightarrow> pg_known w' k)"
    by (auto simp: pg_pass_def pg_held_def pg_known_def claim_at_def)
next
  fix w n h ttl w' b
  assume "ig_claim pg_guard n h ttl w = (None, w')" and h: "pg_held w (pg_key n h) b"
  then have c: "pg_claim n h ttl w = (None, w')" by (simp add: pg_guard_def)
  then show "b \<le> pg_clock w" by (cases rule: pg_claim_cases) (use h in auto)
next
  fix w n h ttl w'
  assume i: "pg_synced w" and "ig_claim pg_guard n h ttl w = (None, w')"
  then have c: "pg_claim n h ttl w = (None, w')" by (simp add: pg_guard_def)
  then show "pg_held w' (pg_key n h) (pg_clock w + ttl) \<and> pg_known w' (pg_key n h)"
    by (cases rule: pg_claim_cases) (use i in \<open>auto simp: pg_held_def pg_known_def pg_synced_def\<close>)
next
  fix w n h w' b
  assume k: "pg_known w (pg_key n h)" and "ig_mark pg_guard n h w = (None, w')"
  then have c: "pg_mark n h w = (None, w')" by (simp add: pg_guard_def)
  then show "pg_held w' (pg_key n h) b"
  proof (cases rule: pg_mark_cases)
    case marked
    from k obtain c where c: "claim_at w (pg_key n h) = Some c" by (auto simp: pg_known_def)
    then have "is_claim (to_upper n) h c"
      by (auto simp: claim_at_def pg_key_def is_claim_def dest: is_claim_found)
    with c show ?thesis by (simp add: pg_held_def marked(3))
  qed simp
qed

text \<open>A claim that is not completed is granted again behind its end, and not before.\<close>

lemma pg_claim_waiting:
  assumes "claim_at w (pg_key n h) = Some c" and "ir_finished c = None"
  shows "pg_clock w \<le> ir_until c \<Longrightarrow> fst (pg_claim n h ttl w) \<noteq> None"
    and "ir_until c < pg_clock w \<Longrightarrow> pg_fates w = [] \<Longrightarrow>
      \<exists>w'. pg_claim n h ttl w = (None, w') \<and> pg_fates w' = []"
proof -
  have found: "List.find (is_claim (to_upper n) h) (pg_idem w) = Some c"
    using assms(1) by (simp add: claim_at_def pg_key_def)
  {
    assume wait: "pg_clock w \<le> ir_until c"
    obtain x w1 where x: "claim_or_extend_if_expired (to_upper n) h (pg_app_clock w + ttl) w = (x, w1)"
      by (metis surj_pair)
    then have "x = Inr 0 \<or> (\<exists>e. x = Inl e)"
      unfolding claim_or_extend_if_expired_def
      by (rule pg_exec_cases) (use found wait in auto)
    with x show "fst (pg_claim n h ttl w) \<noteq> None" by (auto simp: pg_claim_def Let_def split: prod.splits sum.splits)
  }
  {
    assume "ir_until c < pg_clock w" "pg_fates w = []"
    with found assms(2) show "\<exists>w'. pg_claim n h ttl w = (None, w') \<and> pg_fates w' = []"
      by (simp add: pg_claim_def claim_or_extend_if_expired_def pg_exec_def)
  }
qed

section \<open>The wallet contract\<close>

definition pg_watched :: "pg \<Rightarrow> (string \<times> string) set" where
  "pg_watched w = (\<lambda>r. (mw_network r, mw_address r)) ` set (pg_wallets w)"

definition pg_unique :: "pg \<Rightarrow> bool" where
  "pg_unique w \<longleftrightarrow> distinct (pg_wallets w)"

lemma pg_watched_row: "\<lparr>mw_network = n, mw_address = a\<rparr> \<in> set (pg_wallets w) \<longleftrightarrow> (n, a) \<in> pg_watched w"
proof
  assume "(n, a) \<in> pg_watched w"
  then obtain r where r: "r \<in> set (pg_wallets w)" "mw_network r = n" "mw_address r = a"
    by (auto simp: pg_watched_def)
  have "r = \<lparr>mw_network = n, mw_address = a\<rparr>" using r(2,3) by (intro wallet_row.equality) simp_all
  with r(1) show "\<lparr>mw_network = n, mw_address = a\<rparr> \<in> set (pg_wallets w)" by simp
qed (force simp: pg_watched_def)

interpretation pg_ws: wallet_store pg_watch pg_watched to_upper pg_unique pg_registry
proof
  fix w wid r w'
  assume "pg_unique w" "rs_register pg_registry wid w = (r, w')"
  then show "pg_unique w'"
    unfolding pg_registry_def registry_storage.simps pg_register_wallet_def insert_monitored_wallet_def
    by (auto simp: pg_unique_def Let_def split: prod.splits sum.splits if_splits elim!: pg_exec_cases)
next
  fix w wid r w'
  assume "pg_unique w" "rs_unregister pg_registry wid w = (r, w')"
  then show "pg_unique w'"
    unfolding pg_registry_def registry_storage.simps pg_unregister_wallet_def delete_monitored_wallet_by_address_def
    by (auto simp: pg_unique_def Let_def split: prod.splits sum.splits if_splits elim!: pg_exec_cases)
next
  fix w n addrs f w'
  assume "pg_unique w" "ws_filter pg_watch n addrs w = (f, w')"
  then show "pg_unique w' \<and> pg_watched w' = pg_watched w"
    unfolding pg_watch_def watch_storage.simps pg_filter_watched_wallets_def filter_monitored_wallets_def
    by (auto simp: pg_unique_def pg_watched_def elim!: pg_exec_cases)
next
  fix w wid w'
  assume "rs_register pg_registry wid w = (None, w')"
  then show "(to_upper (wid_network wid), wid_address wid) \<notin> pg_watched w \<and>
        pg_watched w' = insert (to_upper (wid_network wid), wid_address wid) (pg_watched w)"
    unfolding pg_registry_def registry_storage.simps pg_register_wallet_def insert_monitored_wallet_def
    by (auto simp: Let_def pg_watched_row split: prod.splits sum.splits if_splits elim!: pg_exec_cases)
       (auto simp: pg_watched_def)
next
  fix w wid w'
  assume "rs_register pg_registry wid w = (Some ErrWalletAlreadyRegistered, w')"
  then show "(to_upper (wid_network wid), wid_address wid) \<in> pg_watched w \<and> pg_watched w' = pg_watched w"
    unfolding pg_registry_def registry_storage.simps pg_register_wallet_def insert_monitored_wallet_def
    by (auto simp: Let_def pg_watched_row is_unique_violation_def split: prod.splits sum.splits if_splits
        elim!: pg_exec_cases) (auto simp: pg_watched_def)
next
  fix w wid w'
  assume "rs_unregister pg_registry wid w = (None, w')"
  then show "(to_upper (wid_network wid), wid_address wid) \<in> pg_watched w \<and>
        pg_watched w' = pg_watched w - {(to_upper (wid_network wid), wid_address wid)}"
    unfolding pg_registry_def registry_storage.simps pg_unregister_wallet_def delete_monitored_wallet_by_address_def
    by (auto simp: Let_def filter_empty_conv split: prod.splits sum.splits if_splits elim!: pg_exec_cases)
       (force simp: pg_watched_def image_iff)+
next
  fix w wid w'
  assume "rs_unregister pg_registry wid w = (Some ErrWalletNotFound, w')"
  then show "(to_upper (wid_network wid), wid_address wid) \<notin> pg_watched w \<and> pg_watched w' = pg_watched w"
    unfolding pg_registry_def registry_storage.simps pg_unregister_wallet_def delete_monitored_wallet_by_address_def
    by (auto simp: Let_def filter_empty_conv split: prod.splits sum.splits if_splits elim!: pg_exec_cases)
       (auto simp: pg_watched_def)
next
  fix w wid e w'
  assume "rs_register pg_registry wid w = (Some e, w')"
  then show "pg_watched w' = pg_watched w \<or>
      pg_watched w' = insert (to_upper (wid_network wid), wid_address wid) (pg_watched w)"
    unfolding pg_registry_def registry_storage.simps pg_register_wallet_def insert_monitored_wallet_def
    by (auto simp: Let_def split: prod.splits sum.splits if_splits elim!: pg_exec_cases) (auto simp: pg_watched_def)
next
  fix w wid e w'
  assume "rs_unregister pg_registry wid w = (Some e, w')"
  then show "pg_watched w' = pg_watched w \<or>
      pg_watched w' = pg_watched w - {(to_upper (wid_network wid), wid_address wid)}"
    unfolding pg_registry_def registry_storage.simps pg_unregister_wallet_def delete_monitored_wallet_by_address_def
    by (auto simp: Let_def split: prod.splits sum.splits if_splits elim!: pg_exec_cases) (auto simp: pg_watched_def)
next
  fix w n addrs hits w'
  assume u: "pg_unique w" and f: "ws_filter pg_watch n addrs w = (Inr hits, w')" and "distinct addrs"
  from f have hits: "hits = map mw_address
      (filter (\<lambda>r. mw_network r = to_upper n \<and> mw_address r \<in> set addrs) (pg_wallets w))"
    unfolding pg_watch_def watch_storage.simps pg_filter_watched_wallets_def filter_monitored_wallets_def
    by (auto elim!: pg_exec_cases)
  have "distinct hits"
    unfolding hits using u by (auto simp: pg_unique_def distinct_map inj_on_def intro!: wallet_row.equality)
  moreover have "set hits = {a \<in> set addrs. (to_upper n, a) \<in> pg_watched w}"
    unfolding hits by (auto simp: pg_watched_def image_iff) metis
  ultimately show "distinct hits \<and> set hits = {a \<in> set addrs. (to_upper n, a) \<in> pg_watched w}" by simp
qed

section \<open>Witness databases\<close>

definition pg_empty :: pg where
  "pg_empty = \<lparr>pg_checkpoints = [], pg_wallets = [], pg_idem = [], pg_clock = 0, pg_app_clock = 0, pg_fates = []\<rparr>"

definition pg_wait :: "int \<Rightarrow> pg \<Rightarrow> pg" where
  "pg_wait d w = w\<lparr>pg_clock := pg_clock w + d, pg_app_clock := pg_app_clock w + d\<rparr>"

lemma pg_pass_wait: "0 \<le> d \<Longrightarrow> pg_pass w (pg_wait d w)"
  by (auto simp: pg_pass_def pg_wait_def)

lemmas pg_simps = pg_empty_def pg_wait_def pg_guard_def pg_claim_def pg_mark_def pg_exec_def
  claim_or_extend_if_expired_def find_claim_def mark_claim_as_completed_def is_claim_def

section \<open>Properties\<close>

lemma pg_kept_all: "pg_ckpt.kept_all is prev = (if is = [] then prev else Some (Max (set is \<union> set_option prev)))"
proof (induction "is" arbitrary: prev)
  case (Cons i "is")
  have "Max (insert (max j i) (set is)) = Max (insert i (insert j (set is)))" for j
    by (cases "is = []") (simp_all add: max.assoc max.commute max.left_commute)
  then have "Max (insert (higher prev i) (set is)) = Max (insert i (set is \<union> set_option prev))"
    by (cases prev) (simp_all add: higher_def insert_commute)
  moreover have "pg_ckpt.kept_all is (Some x) = Some (Max (insert x (set is)))" for x
    using Cons.IH [of "Some x"] by (cases "is = []") simp_all
  ultimately show ?case by (simp add: pg_ckpt.kept_all_simps)
qed (simp add: pg_ckpt.kept_all_simps)

text \<open>
  C11. Restart on Postgres: when the checkpoints of a run were all saved, in whatever order, then a load that
  succeeds makes the next \<^verbatim>\<open>Start\<close> subscribe at the height right behind the highest one that was ever saved for the
  network, in any spelling: a lower checkpoint saved behind a higher one, as that of a block that a retry has
  fetched, does not move it back.
\<close>

theorem pg_resume:
  assumes "save_log pg_checkpoint_storage (hex_log log) w = Val (True, w')" and "heights_log log"
    and "\<And>j. pg_latest w n = Some j \<Longrightarrow> 0 \<le> j \<and> j < 2 ^ 63 - 1"
    and "log_of to_upper n log \<noteq> []" and "pg_load_latest_checkpoint n w' = ((h, None), w'')"
  shows "start_height h = Val (hex_of (Max (set (log_of to_upper n log) \<union> set_option (pg_latest w n)) + 1))"
proof -
  have "cks_load pg_checkpoint_storage n w' = ((h, None), w'')"
    using assms(5) by (simp add: pg_checkpoint_storage_def)
  from pg_ckpt.resume_height [OF assms(1-4) this] assms(4) show ?thesis by (auto simp: pg_kept_all)
qed

theorem pg_resume_witness:
  "\<exists>w' h w''. save_log pg_checkpoint_storage (hex_log [(''eth'', 10), (''ETH'', 9)]) pg_empty = Val (True, w') \<and>
     pg_load_latest_checkpoint ''Eth'' w' = ((h, None), w'') \<and> start_height h = Val (hex_of 11)"
proof -
  have up: "to_upper ''eth'' = ''ETH''" "to_upper ''ETH'' = ''ETH''" "to_upper ''Eth'' = ''ETH''" by code_simp+
  let ?l = "[(''eth'', 10), (''ETH'', 9)] :: (string \<times> int) list"
  let ?row = "\<lambda>i. \<lparr>cr_network = ''ETH'', cr_height = i :: int64\<rparr>"
  let ?w = "pg_empty\<lparr>pg_checkpoints := [?row 10, ?row 9]\<rparr>"
  have i: "hex_int (hex_of 9) = Val 9" "hex_int (hex_of 10) = Val 10"
    using hex_int_hex_of [of 9] hex_int_hex_of [of 10] by simp_all
  have s1: "pg_save_checkpoint ''eth'' (hex_of 10) pg_empty = Val (None, pg_empty\<lparr>pg_checkpoints := [?row 10]\<rparr>)"
    unfolding pg_save_checkpoint_def i
    by (simp add: insert_checkpoint_if_not_exists_def pg_exec_def pg_empty_def up Let_def)
  have s2: "pg_save_checkpoint ''ETH'' (hex_of 9) (pg_empty\<lparr>pg_checkpoints := [?row 10]\<rparr>) = Val (None, ?w)"
    unfolding pg_save_checkpoint_def i
    by (simp add: insert_checkpoint_if_not_exists_def pg_exec_def pg_empty_def up Let_def)
  have s: "save_log pg_checkpoint_storage (hex_log ?l) pg_empty = Val (True, ?w)"
    by (simp only: hex_log_simps save_log.simps pg_checkpoint_storage_def checkpoint_storage.simps s1 s2
        bind_outcome.simps prod.case simp_thms)
  have l: "pg_load_latest_checkpoint ''Eth'' ?w = ((hex_from_int 10, None), ?w)"
    by (simp add: pg_load_latest_checkpoint_def get_latest_checkpoint_by_network_def pg_exec_def pg_empty_def up)
  have "start_height (hex_from_int 10) =
      Val (hex_of (Max (set (log_of to_upper ''Eth'' ?l) \<union> set_option (pg_latest pg_empty ''Eth'')) + 1))"
    by (rule pg_resume [OF s _ _ _ l]) (simp_all add: heights_log_def pg_latest_def pg_empty_def up)
  with s l show ?thesis by (auto simp: up pg_latest_def pg_empty_def)
qed

text \<open>
  C9. On Postgres, in every run of any number of workers, with failing statements, lost replies and
  time passing in any way: two successful claims of a block are at least the duration of the first
  apart, and a block that was completed is never claimed again. The clock of the application agrees
  with that of the database.
\<close>

theorem pg_exclusive:
  assumes "pg_synced w0" and "guard_run pg_guard pg_pass pg_key pg_clock w0 evs w"
  shows "exclusive_trace evs"
  by (rule pg_gd.run_exclusive [OF assms])

theorem pg_exclusive_witness:
  "\<exists>w. guard_run pg_guard pg_pass pg_key pg_clock pg_empty
     [Claimed (''ETH'', ''0xb'') 0 300, Claimed (''ETH'', ''0xb'') 301 300, Completed (''ETH'', ''0xb'')] w \<and>
     exclusive_trace [Claimed (''ETH'', ''0xb'') 0 300, Claimed (''ETH'', ''0xb'') 301 300, Completed (''ETH'', ''0xb'')]"
proof -
  have up: "to_upper ''eth'' = ''ETH''" "to_upper ''ETH'' = ''ETH''" by code_simp+
  let ?k = "(''ETH'', ''0xb'')" and ?run = "guard_run pg_guard pg_pass pg_key pg_clock pg_empty"
  let ?row = "\<lambda>t f. \<lparr>ir_network = ''ETH'', ir_hash = ''0xb'', ir_until = t, ir_finished = f\<rparr>"
  let ?w1 = "pg_empty\<lparr>pg_idem := [?row 300 None]\<rparr>"
  let ?w2 = "pg_wait 301 ?w1"
  let ?w3 = "?w2\<lparr>pg_idem := [?row 601 None]\<rparr>"
  let ?w4 = "?w2\<lparr>pg_idem := [?row 601 (Some 301)]\<rparr>"
  have c1: "ig_claim pg_guard ''eth'' ''0xb'' 300 pg_empty = (None, ?w1)" by (simp add: pg_simps up Let_def)
  have c2: "ig_claim pg_guard ''eth'' ''0xb'' 300 ?w1 = (Some ErrStillInProgress, ?w1)"
    by (simp add: pg_simps up Let_def)
  have c3: "ig_claim pg_guard ''eth'' ''0xb'' 300 ?w2 = (None, ?w3)" by (simp add: pg_simps up Let_def)
  have c4: "ig_mark pg_guard ''eth'' ''0xb'' ?w3 = (None, ?w4)" by (simp add: pg_simps up Let_def)
  have key: "pg_key ''eth'' ''0xb'' = ?k" by (simp add: pg_key_def up)
  have "?run [Claimed ?k 0 300] ?w1"
    using guard_run.claim [OF guard_run.start _ c1, of pg_pass pg_key pg_clock] by (simp add: key pg_empty_def)
  then have "?run [Claimed ?k 0 300] ?w1" using guard_run.claim [OF _ _ c2, of pg_pass pg_key pg_clock] by fastforce
  then have "?run [Claimed ?k 0 300] ?w2" by (rule guard_run.time) (simp add: pg_pass_wait)
  from guard_run.claim [OF this _ c3] have "?run [Claimed ?k 0 300, Claimed ?k 301 300] ?w3"
    by (simp add: key pg_empty_def pg_wait_def)
  from guard_run.mark [OF this, of "''eth''" "''0xb''" 301 300] c4
  have r: "?run [Claimed ?k 0 300, Claimed ?k 301 300, Completed ?k] ?w4" by (simp add: key)
  have "pg_synced pg_empty" by (simp add: pg_synced_def pg_empty_def)
  from pg_exclusive [OF this r] r show ?thesis by blast
qed

text \<open>
  C33. Without that agreement the guard does not exclude: the claim expires at a time of the
  application's clock and the database compares it with its own. With an application 1000 units
  behind, two workers claim the same block at the same moment, each for 300 units.
\<close>

theorem pg_skew_double_claim:
  "\<exists>w0 w. pg_clock w0 - pg_app_clock w0 = 1000 \<and>
     guard_run pg_guard pg_pass pg_key pg_clock w0
       [Claimed (''ETH'', ''0xb'') 1000 300, Claimed (''ETH'', ''0xb'') 1000 300] w \<and>
     \<not> exclusive_trace [Claimed (''ETH'', ''0xb'') (1000 :: int) 300, Claimed (''ETH'', ''0xb'') 1000 300]"
proof -
  have up: "to_upper ''eth'' = ''ETH''" "to_upper ''ETH'' = ''ETH''" by code_simp+
  let ?k = "(''ETH'', ''0xb'')"
  let ?w0 = "pg_empty\<lparr>pg_clock := 1000\<rparr>"
  let ?run = "guard_run pg_guard pg_pass pg_key pg_clock ?w0"
  let ?w1 = "?w0\<lparr>pg_idem := [\<lparr>ir_network = ''ETH'', ir_hash = ''0xb'', ir_until = 300, ir_finished = None\<rparr>]\<rparr>"
  have c1: "ig_claim pg_guard ''eth'' ''0xb'' 300 ?w0 = (None, ?w1)" by (simp add: pg_simps up Let_def)
  have c2: "ig_claim pg_guard ''eth'' ''0xb'' 300 ?w1 = (None, ?w1)" by (simp add: pg_simps up Let_def)
  have key: "pg_key ''eth'' ''0xb'' = ?k" by (simp add: pg_key_def up)
  from guard_run.claim [OF guard_run.start _ c1, of pg_pass pg_key pg_clock]
  have "?run [Claimed ?k 1000 300] ?w1" by (simp add: key pg_empty_def)
  from guard_run.claim [OF this _ c2] have "?run [Claimed ?k 1000 300, Claimed ?k 1000 300] ?w1"
    by (simp add: key pg_empty_def)
  then show ?thesis by (intro exI [of _ ?w0] exI [of _ ?w1]) (simp add: exclusive_trace_def pg_empty_def)
qed

text \<open>
  C22. A wallet that was registered on Postgres, under any spelling of the network, is in the result of
  the next matching of a block of that network that involves it, with exactly its transactions.
  The hashes of the transactions are distinct; the rows are unique, as the schema demands.
\<close>

theorem pg_registered_is_matched:
  assumes "start_watching (wr_new pg_registry) n a w = (r, w1)" and "r = None \<or> r = Some ErrWalletAlreadyRegistered"
    and "to_upper m = to_upper n" and "get_transactions_by_wallet ord pg_watch m txs w1 = (Inr res, w2)"
    and "fair_orders ord" and "distinct (map wtx_hash txs)" and "pg_unique w" and "filter (involves a) txs \<noteq> []"
  shows "\<exists>ts. map_of res a = Some ts \<and> mset ts = mset (filter (involves a) txs)"
proof -
  have "(to_upper n, a) \<in> pg_watched w1"
    using pg_ws.start_then_watched [of n a w r w1] assms(1,2) by (simp add: wr_new_def)
  moreover have "pg_unique w1"
    using start_watching_effect [OF assms(1)] pg_ws.register_inv [OF assms(7)] assms(7) by (auto simp: wr_new_def)
  ultimately show ?thesis
    using pg_ws.matching_exact(2) [OF assms(4-6), of a] assms(3,8) by simp
qed

theorem pg_registered_is_matched_witness:
  "\<exists>w1 res w2. start_watching (wr_new pg_registry) ''eth'' ''0xa'' pg_empty = (None, w1) \<and>
     get_transactions_by_wallet plain_orders pg_watch ''ETH'' [demo_tx ''h1'' ''0xa'' ''0xb'', demo_tx ''h2'' ''0xc'' ''0xd''] w1 =
       (Inr res, w2) \<and> (\<exists>ts. map_of res ''0xa'' = Some ts \<and> mset ts = {#demo_tx ''h1'' ''0xa'' ''0xb''#})"
proof -
  have up: "to_upper ''eth'' = ''ETH''" "to_upper ''ETH'' = ''ETH''" by code_simp+
  let ?w1 = "pg_empty\<lparr>pg_wallets := [\<lparr>mw_network = ''ETH'', mw_address = ''0xa''\<rparr>]\<rparr>"
  let ?txs = "[demo_tx ''h1'' ''0xa'' ''0xb'', demo_tx ''h2'' ''0xc'' ''0xd'']"
  have s: "start_watching (wr_new pg_registry) ''eth'' ''0xa'' pg_empty = (None, ?w1)"
    by (simp add: watching_valid wr_new_def pg_registry_def pg_register_wallet_def insert_monitored_wallet_def
        pg_exec_def pg_empty_def up Let_def)
  obtain res w2 where g: "get_transactions_by_wallet plain_orders pg_watch ''ETH'' ?txs ?w1 = (Inr res, w2)"
    by (simp add: get_transactions_by_wallet_def pg_watch_def pg_filter_watched_wallets_def
        filter_monitored_wallets_def pg_exec_def pg_empty_def up Let_def)
  have "\<exists>ts. map_of res ''0xa'' = Some ts \<and> mset ts = mset (filter (involves ''0xa'') ?txs)"
    by (rule pg_registered_is_matched [OF s _ _ g])
       (simp_all add: up demo_tx_def pg_unique_def pg_empty_def involves_def)
  with s g show ?thesis by (auto simp: demo_tx_def involves_def)
qed

end
