(* ===== verification/Storage_Redis.thy ===== *)
theory Storage_Redis
  imports Checkpoints Idempotency Walletregistry
begin

text \<open>
  \<^verbatim>\<open>internal/infra/storage/redis\<close>. The server is outside the repository: its commands are the
  record \<open>redis\<close>, an argument of every definition, and what the code relies on, the documented
  behaviour of the commands, is the locale \<open>redis_server\<close>. A command that fails may have taken
  effect. From these laws the client satisfies the three contracts of the storages.
\<close>

section \<open>Commands\<close>

text \<open>Durations are in nanoseconds; an expiration of 0 means that the key does not expire.\<close>

record 'w redis =
  rd_get :: "string \<Rightarrow> 'w \<Rightarrow> (gerr + string) \<times> 'w"
  rd_set :: "string \<Rightarrow> string \<Rightarrow> int \<Rightarrow> 'w \<Rightarrow> gerr option \<times> 'w"
  rd_setnx :: "string \<Rightarrow> string \<Rightarrow> int \<Rightarrow> 'w \<Rightarrow> (gerr + bool) \<times> 'w"
  rd_sadd :: "string \<Rightarrow> string \<Rightarrow> 'w \<Rightarrow> (gerr + int) \<times> 'w"
  rd_srem :: "string \<Rightarrow> string \<Rightarrow> 'w \<Rightarrow> (gerr + int) \<times> 'w"
  rd_smismember :: "string \<Rightarrow> string list \<Rightarrow> 'w \<Rightarrow> (gerr + bool list) \<times> 'w"
  rd_ping :: "'w \<Rightarrow> gerr option \<times> 'w"
  rd_close :: "'w \<Rightarrow> gerr option \<times> 'w"

section \<open>The client\<close>

definition chainstreamKeyPrefix :: string where
  "chainstreamKeyPrefix = ''chainstream''"

definition chainstreamCheckpointKey :: "string \<Rightarrow> string" where
  "chainstreamCheckpointKey network = chainstreamKeyPrefix @ '':checkpoint:'' @ network"

definition redis_save_checkpoint :: "'w redis \<Rightarrow> string \<Rightarrow> hex \<Rightarrow> 'w \<Rightarrow> (gerr option \<times> 'w) outcome" where
  "redis_save_checkpoint R network height w =
     Val (rd_set R (chainstreamCheckpointKey network) (hex_string height) 0 w)"

definition redis_load_latest_checkpoint :: "'w redis \<Rightarrow> string \<Rightarrow> 'w \<Rightarrow> (hex \<times> gerr option) \<times> 'w" where
  "redis_load_latest_checkpoint R network w =
     (case rd_get R (chainstreamCheckpointKey network) w of
        (Inl err, w') \<Rightarrow>
          (('''', Some (if errors_is err ErrRedisNil then ErrNoCheckpointFound else err)), w')
      | (Inr val, w') \<Rightarrow>
          (case hex_from_string val of
             Inl err \<Rightarrow> (('''', Some err), w')
           | Inr h \<Rightarrow> ((h, None), w')))"

definition walletwatchKeyPrefix :: string where
  "walletwatchKeyPrefix = ''walletwatch''"

definition walletwatchIdempotencyDone :: string where
  "walletwatchIdempotencyDone = ''done''"

definition walletwatchIdempotencyKey :: "string \<Rightarrow> string \<Rightarrow> string" where
  "walletwatchIdempotencyKey network blockHash =
     walletwatchKeyPrefix @ '':idempotency:'' @ network @ '':'' @ blockHash"

text \<open>A nil reply leaves \<^verbatim>\<open>val\<close> empty, which differs from \<^verbatim>\<open>"done"\<close>.\<close>

definition redis_claim :: "'w redis \<Rightarrow> string \<Rightarrow> string \<Rightarrow> int \<Rightarrow> 'w \<Rightarrow> gerr option \<times> 'w" where
  "redis_claim R network blockHash ttl w =
     (let key = walletwatchIdempotencyKey network blockHash;
          set_if_absent = (\<lambda>w. case rd_setnx R key '''' ttl w of
             (Inl err, w') \<Rightarrow> (Some err, w')
           | (Inr ok, w') \<Rightarrow> (if \<not> ok then Some ErrStillInProgress else None, w'))
      in case rd_get R key w of
        (Inl err, w1) \<Rightarrow> if \<not> errors_is err ErrRedisNil then (Some err, w1) else set_if_absent w1
      | (Inr val, w1) \<Rightarrow>
          if val = walletwatchIdempotencyDone then (Some ErrAlreadyFinished, w1) else set_if_absent w1)"

definition redis_mark :: "'w redis \<Rightarrow> string \<Rightarrow> string \<Rightarrow> 'w \<Rightarrow> gerr option \<times> 'w" where
  "redis_mark R network blockHash w =
     rd_set R (walletwatchIdempotencyKey network blockHash) walletwatchIdempotencyDone 0 w"

definition walletStoragePrefix :: string where
  "walletStoragePrefix = ''wallet''"

definition walletStorageKey :: "string \<Rightarrow> string" where
  "walletStorageKey network = walletStoragePrefix @ '':storage:'' @ network"

definition redis_register_wallet :: "'w redis \<Rightarrow> wallet_id \<Rightarrow> 'w \<Rightarrow> gerr option \<times> 'w" where
  "redis_register_wallet R wid w =
     (case rd_sadd R (walletStorageKey (wid_network wid)) (wid_address wid) w of
        (Inl err, w') \<Rightarrow> (Some err, w')
      | (Inr n, w') \<Rightarrow> (if n = 0 then Some ErrWalletAlreadyRegistered else None, w'))"

definition redis_unregister_wallet :: "'w redis \<Rightarrow> wallet_id \<Rightarrow> 'w \<Rightarrow> gerr option \<times> 'w" where
  "redis_unregister_wallet R wid w =
     (case rd_srem R (walletStorageKey (wid_network wid)) (wid_address wid) w of
        (Inl err, w') \<Rightarrow> (Some err, w')
      | (Inr n, w') \<Rightarrow> (if n = 0 then Some ErrWalletNotFound else None, w'))"

text \<open>The loop over the reply; the server answers with one flag per address.\<close>

fun collect_matched :: "string list \<Rightarrow> bool list \<Rightarrow> string list" where
  "collect_matched (a # addresses) (isMember # rest) =
     (if isMember then [a] else []) @ collect_matched addresses rest"
| "collect_matched _ _ = []"

definition redis_filter_watched_wallets ::
    "'w redis \<Rightarrow> string \<Rightarrow> string list \<Rightarrow> 'w \<Rightarrow> (gerr + string list) \<times> 'w" where
  "redis_filter_watched_wallets R network addresses w =
     (if length addresses = 0 then (Inr [], w)
      else
        (case rd_smismember R (walletStorageKey network) addresses w of
           (Inl err, w') \<Rightarrow> (Inl err, w')
         | (Inr matchResult, w') \<Rightarrow> (Inr (collect_matched addresses matchResult), w')))"

definition redis_checkpoint_storage :: "'w redis \<Rightarrow> 'w checkpoint_storage" where
  "redis_checkpoint_storage R =
     \<lparr>cks_save = redis_save_checkpoint R, cks_load = redis_load_latest_checkpoint R\<rparr>"

definition redis_registry :: "'w redis \<Rightarrow> 'w registry_storage" where
  "redis_registry R = \<lparr>rs_register = redis_register_wallet R, rs_unregister = redis_unregister_wallet R\<rparr>"

definition redis_watch :: "'w redis \<Rightarrow> 'w watch_storage" where
  "redis_watch R = \<lparr>ws_filter = redis_filter_watched_wallets R\<rparr>"

definition redis_guard :: "'w redis \<Rightarrow> 'w idempotency_guard" where
  "redis_guard R = \<lparr>ig_claim = redis_claim R, ig_mark = redis_mark R\<rparr>"

text \<open>\<^verbatim>\<open>New\<close> checks the connection; the client object exists before.\<close>

definition rstore_new :: "'w redis \<Rightarrow> 'w \<Rightarrow> gerr option \<times> 'w" where
  "rstore_new R w = rd_ping R w"

definition rstore_close :: "'w redis \<Rightarrow> 'w \<Rightarrow> gerr option \<times> 'w" where
  "rstore_close R w = rd_close R w"

section \<open>Keys\<close>

lemmas redis_key_defs = chainstreamCheckpointKey_def chainstreamKeyPrefix_def walletStorageKey_def
  walletStoragePrefix_def walletwatchIdempotencyKey_def walletwatchKeyPrefix_def

lemma redis_keys [simp]:
  "chainstreamCheckpointKey m = chainstreamCheckpointKey n \<longleftrightarrow> m = n"
  "walletStorageKey m = walletStorageKey n \<longleftrightarrow> m = n"
  "chainstreamCheckpointKey m \<noteq> walletStorageKey n"
  "walletwatchIdempotencyKey m h \<noteq> walletStorageKey n"
  "chainstreamCheckpointKey m \<noteq> walletwatchIdempotencyKey n h"
  by (simp_all add: redis_key_defs)

section \<open>The documented behaviour of the server\<close>

text \<open>
  What the server holds: strings with the time at which they expire, and sets. An entry whose
  time has come is as good as gone.
\<close>

definition redis_live :: "int \<Rightarrow> (string \<times> int option) option \<Rightarrow> string option" where
  "redis_live now entry =
     (case entry of
        None \<Rightarrow> None
      | Some (v, None) \<Rightarrow> Some v
      | Some (v, Some t) \<Rightarrow> if now < t then Some v else None)"

locale redis_server =
  fixes R :: "'w redis"
    and str_at :: "'w \<Rightarrow> string \<Rightarrow> (string \<times> int option) option"
    and mem_at :: "'w \<Rightarrow> string \<Rightarrow> string set"
    and clock :: "'w \<Rightarrow> int"
    and pass :: "'w \<Rightarrow> 'w \<Rightarrow> bool"
    and same :: "'w \<Rightarrow> 'w \<Rightarrow> bool"
    and stored :: "string \<Rightarrow> string \<Rightarrow> int \<Rightarrow> 'w \<Rightarrow> 'w \<Rightarrow> bool"
  assumes same: "same w w' \<longleftrightarrow> str_at w' = str_at w \<and> mem_at w' = mem_at w \<and> clock w' = clock w"
    and stored: "stored k v ttl w w' \<longleftrightarrow>
        str_at w' = (str_at w)(k \<mapsto> (v, if ttl = 0 then None else Some (clock w + ttl))) \<and>
        mem_at w' = (mem_at w)(k := {}) \<and> clock w' = clock w"
    and pass: "pass w w' \<Longrightarrow> str_at w' = str_at w \<and> mem_at w' = mem_at w \<and> clock w \<le> clock w'"
    and get_ok: "rd_get R k w = (Inr v, w') \<Longrightarrow> redis_live (clock w) (str_at w k) = Some v"
    and get_nil: "rd_get R k w = (Inl e, w') \<Longrightarrow> errors_is e ErrRedisNil \<Longrightarrow> redis_live (clock w) (str_at w k) = None"
    and get_foreign: "rd_get R k w = (Inl e, w') \<Longrightarrow> \<not> errors_is e ErrNoCheckpointFound"
    and get_frame: "rd_get R k w = (x, w') \<Longrightarrow> same w w'"
    and set_ok: "rd_set R k v ttl w = (None, w') \<Longrightarrow> stored k v ttl w w'"
    and set_err: "rd_set R k v ttl w = (Some e, w') \<Longrightarrow> same w w' \<or> stored k v ttl w w'"
    and setnx_true: "rd_setnx R k v ttl w = (Inr True, w') \<Longrightarrow>
        redis_live (clock w) (str_at w k) = None \<and> stored k v ttl w w'"
    and setnx_false: "rd_setnx R k v ttl w = (Inr False, w') \<Longrightarrow> same w w'"
    and setnx_err: "rd_setnx R k v ttl w = (Inl e, w') \<Longrightarrow>
        same w w' \<or> (redis_live (clock w) (str_at w k) = None \<and> stored k v ttl w w')"
    and sadd_ok: "rd_sadd R k a w = (Inr c, w') \<Longrightarrow>
        c = (if a \<in> mem_at w k then 0 else 1) \<and> mem_at w' = (mem_at w)(k := insert a (mem_at w k))"
    and sadd_foreign: "rd_sadd R k a w = (Inl e, w') \<Longrightarrow> e \<noteq> ErrWalletAlreadyRegistered"
    and srem_ok: "rd_srem R k a w = (Inr c, w') \<Longrightarrow>
        c = (if a \<in> mem_at w k then 1 else 0) \<and> mem_at w' = (mem_at w)(k := mem_at w k - {a})"
    and srem_foreign: "rd_srem R k a w = (Inl e, w') \<Longrightarrow> e \<noteq> ErrWalletNotFound"
    and sadd_err: "rd_sadd R k a w = (Inl e, w') \<Longrightarrow>
        mem_at w' = mem_at w \<or> mem_at w' = (mem_at w)(k := insert a (mem_at w k))"
    and srem_err: "rd_srem R k a w = (Inl e, w') \<Longrightarrow>
        mem_at w' = mem_at w \<or> mem_at w' = (mem_at w)(k := mem_at w k - {a})"
    and smismember_ok: "rd_smismember R k as w = (Inr bs, w') \<Longrightarrow>
        bs = map (\<lambda>a. a \<in> mem_at w k) as"
    and smismember_frame: "rd_smismember R k as w = (bs1, w') \<Longrightarrow> same w w'"

section \<open>The three contracts\<close>

definition hex_height :: "string \<Rightarrow> int option" where
  "hex_height v =
     (case hex_int v of
        Val x \<Rightarrow> if 0 \<le> sint x \<and> v = hex_from_int x then Some (sint x) else None
      | Panic \<Rightarrow> None)"

definition redis_latest ::
    "('w \<Rightarrow> string \<Rightarrow> (string \<times> int option) option) \<Rightarrow> ('w \<Rightarrow> int) \<Rightarrow> 'w \<Rightarrow> string \<Rightarrow> int option" where
  "redis_latest str_at clock w n =
     Option.bind (redis_live (clock w) (str_at w (chainstreamCheckpointKey n))) hex_height"

definition redis_held ::
    "('w \<Rightarrow> string \<Rightarrow> (string \<times> int option) option) \<Rightarrow> ('w \<Rightarrow> int) \<Rightarrow> 'w \<Rightarrow> string \<Rightarrow> int \<Rightarrow> bool" where
  "redis_held str_at clock w k b \<longleftrightarrow>
     b \<le> clock w \<or> (\<exists>v t. str_at w k = Some (v, t) \<and> (\<forall>u. t = Some u \<longrightarrow> b \<le> u))"

definition redis_watched :: "('w \<Rightarrow> string \<Rightarrow> string set) \<Rightarrow> 'w \<Rightarrow> (string \<times> string) set" where
  "redis_watched mem_at w = {(n, a). a \<in> mem_at w (walletStorageKey n)}"

lemma hex_height_hex_of: "0 \<le> i \<Longrightarrow> i < 2 ^ 63 \<Longrightarrow> hex_height (hex_of i) = Some i"
  using hex_int_hex_of [of i] by (simp add: hex_height_def)

lemma hex_height_Some: "hex_height v = Some i \<Longrightarrow> v = hex_of i"
  by (auto simp: hex_height_def word_of_int_sint64 split: outcome.splits if_splits)

lemma collect_matched_map: "collect_matched as (map P as) = filter P as"
  by (induction as) auto

lemma hex_from_string_errors: "hex_from_string s = Inl e \<Longrightarrow> \<not> errors_is e ErrNoCheckpointFound"
  by (auto simp: hex_from_string_def validate_hex_def split: if_splits num_result.splits option.splits)

context redis_server
begin

text \<open>A claim that succeeds has found the key absent or expired; a claim changes no other key.\<close>

lemma claim_effect:
  assumes "redis_claim R n h ttl w = (r, w')"
  shows "(r \<noteq> None \<and> same w w') \<or>
    (redis_live (clock w) (str_at w (walletwatchIdempotencyKey n h)) = None \<and>
     stored (walletwatchIdempotencyKey n h) '''' ttl w w')"
proof -
  let ?k = "walletwatchIdempotencyKey n h"
  obtain x w1 where x: "rd_get R ?k w = (x, w1)" by (metis surj_pair)
  have w1: "same w w1" by (rule get_frame [OF x])
  obtain y w2 where y: "rd_setnx R ?k '''' ttl w1 = (y, w2)" by (metis surj_pair)
  have y': "(y \<noteq> Inr True \<and> same w w2) \<or>
      (redis_live (clock w) (str_at w ?k) = None \<and> stored ?k '''' ttl w w2)"
    using w1 setnx_true [of ?k "''''" ttl w1 w2] setnx_false [of ?k "''''" ttl w1 w2] setnx_err [of ?k "''''" ttl w1 _ w2] y
    by (cases y; cases "y = Inr True") (auto simp: same stored)
  show ?thesis
    using assms x y w1 y' by (auto simp: redis_claim_def Let_def split: sum.splits if_splits)
qed

lemma mark_effect:
  "redis_mark R n h w = (r, w') \<Longrightarrow>
     (r \<noteq> None \<and> same w w') \<or> stored (walletwatchIdempotencyKey n h) walletwatchIdempotencyDone 0 w w'"
  using set_ok set_err by (cases r) (fastforce simp: redis_mark_def)+

end

sublocale redis_server \<subseteq> ckpt: checkpoint_store "redis_checkpoint_storage R" "redis_latest str_at clock" "\<lambda>n. n"
  "\<lambda>prev i. i"
proof
  fix i :: int and n w
  show "cks_save (redis_checkpoint_storage R) n (hex_of i) w \<noteq> Panic"
    by (simp add: redis_checkpoint_storage_def redis_save_checkpoint_def)
next
  fix i :: int and n m w w'
  assume "cks_save (redis_checkpoint_storage R) n (hex_of i) w = Val (None, w')" and i: "0 \<le> i" "i < 2 ^ 63"
  then have "stored (chainstreamCheckpointKey n) (hex_of i) 0 w w'"
    using set_ok by (simp add: redis_checkpoint_storage_def redis_save_checkpoint_def hex_string_def)
  then show "redis_latest str_at clock w' m = (if m = n then Some i else redis_latest str_at clock w m)"
    using i by (simp add: redis_latest_def stored redis_live_def hex_height_hex_of)
next
  fix n w h w' i
  assume l: "cks_load (redis_checkpoint_storage R) n w = ((h, None), w')" and i: "redis_latest str_at clock w n = Some i"
  from l obtain v where v: "rd_get R (chainstreamCheckpointKey n) w = (Inr v, w')" "hex_from_string v = Inr h"
    by (auto simp: redis_checkpoint_storage_def redis_load_latest_checkpoint_def split: prod.splits sum.splits)
  have "h = v" using v(2) by (auto simp: hex_from_string_def split: option.splits)
  with i get_ok [OF v(1)] show "h = hex_of i" by (simp add: redis_latest_def hex_height_Some)
next
  fix n w h e w'
  assume l: "cks_load (redis_checkpoint_storage R) n w = ((h, Some e), w')" and e: "errors_is e ErrNoCheckpointFound"
  obtain x w1 where x: "rd_get R (chainstreamCheckpointKey n) w = (x, w1)" by (metis surj_pair)
  show "redis_latest str_at clock w n = None \<and> h = ''''"
    using l e x get_nil [of _ w _ w1] get_foreign [of _ w _ w1] hex_from_string_errors
    by (auto simp: redis_checkpoint_storage_def redis_load_latest_checkpoint_def redis_latest_def
        split: sum.splits if_splits)
next
  fix n w r w'
  assume l: "cks_load (redis_checkpoint_storage R) n w = (r, w')"
  obtain x w1 where x: "rd_get R (chainstreamCheckpointKey n) w = (x, w1)" by (metis surj_pair)
  have "w' = w1"
    using l x by (auto simp: redis_checkpoint_storage_def redis_load_latest_checkpoint_def split: sum.splits)
  with get_frame [OF x] show "redis_latest str_at clock w' = redis_latest str_at clock w"
    by (simp add: redis_latest_def same fun_eq_iff)
qed simp_all

sublocale redis_server \<subseteq> gd: guard_contract "redis_guard R" pass walletwatchIdempotencyKey clock
  "\<lambda>_. True" "redis_held str_at clock" "\<lambda>_ _. True"
proof
  fix w n h ttl r w' k b
  assume "ig_claim (redis_guard R) n h ttl w = (r, w')"
  then have "redis_claim R n h ttl w = (r, w')" by (simp add: redis_guard_def)
  then show "(redis_held str_at clock w k b \<longrightarrow> redis_held str_at clock w' k b) \<and> (True \<longrightarrow> True)"
    using claim_effect [of n h ttl w r w']
    by (auto simp: redis_held_def same stored redis_live_def split: option.splits if_splits)
next
  fix w n h r w' k b
  assume "ig_mark (redis_guard R) n h w = (r, w')"
  then have "redis_mark R n h w = (r, w')" by (simp add: redis_guard_def)
  then show "(redis_held str_at clock w k b \<longrightarrow> redis_held str_at clock w' k b) \<and> (True \<longrightarrow> True)"
    using mark_effect [of n h w r w']
    by (cases "k = walletwatchIdempotencyKey n h") (auto simp: redis_held_def same stored)
next
  fix w w' k b assume "pass w w'"
  then show "(redis_held str_at clock w k b \<longrightarrow> redis_held str_at clock w' k b) \<and> (True \<longrightarrow> True)"
    using pass [of w w'] by (auto simp: redis_held_def)
next
  fix w n h ttl w' b
  assume "ig_claim (redis_guard R) n h ttl w = (None, w')" and held: "redis_held str_at clock w (walletwatchIdempotencyKey n h) b"
  then have "redis_claim R n h ttl w = (None, w')" by (simp add: redis_guard_def)
  with held show "b \<le> clock w"
    using claim_effect [of n h ttl w None w']
    by (auto simp: redis_held_def redis_live_def split: option.splits if_splits)
next
  fix w n h ttl w'
  assume "(0 :: int) < ttl" and "ig_claim (redis_guard R) n h ttl w = (None, w')"
  then show "redis_held str_at clock w' (walletwatchIdempotencyKey n h) (clock w + ttl) \<and> True"
    using claim_effect [of n h ttl w None w'] by (auto simp: redis_guard_def redis_held_def stored)
next
  fix w n h w' b
  assume "ig_mark (redis_guard R) n h w = (None, w')"
  then show "redis_held str_at clock w' (walletwatchIdempotencyKey n h) b"
    using mark_effect [of n h w None w'] by (auto simp: redis_guard_def redis_held_def stored)
qed simp_all

sublocale redis_server \<subseteq> ws: wallet_store "redis_watch R" "redis_watched mem_at"
  "\<lambda>n. n" "\<lambda>_. True" "redis_registry R"
proof
  fix w n addrs f w'
  assume f: "ws_filter (redis_watch R) n addrs w = (f, w')"
  obtain x w1 where x: "rd_smismember R (walletStorageKey n) addrs w = (x, w1)" by (metis surj_pair)
  show "True \<and> redis_watched mem_at w' = redis_watched mem_at w"
    using f x smismember_frame [OF x]
    by (auto simp: redis_watch_def redis_filter_watched_wallets_def redis_watched_def same split: sum.splits if_splits)
next
  fix w wid w'
  assume "rs_register (redis_registry R) wid w = (None, w')"
  then show "(wid_network wid, wid_address wid) \<notin> redis_watched mem_at w \<and>
      redis_watched mem_at w' = insert (wid_network wid, wid_address wid) (redis_watched mem_at w)"
    using sadd_ok [of "walletStorageKey (wid_network wid)" "wid_address wid" w]
    by (auto simp: redis_registry_def redis_register_wallet_def redis_watched_def split: prod.splits sum.splits if_splits)
next
  fix w wid w'
  assume "rs_register (redis_registry R) wid w = (Some ErrWalletAlreadyRegistered, w')"
  then show "(wid_network wid, wid_address wid) \<in> redis_watched mem_at w \<and>
      redis_watched mem_at w' = redis_watched mem_at w"
    using sadd_ok [of "walletStorageKey (wid_network wid)" "wid_address wid" w]
      sadd_foreign [of "walletStorageKey (wid_network wid)" "wid_address wid" w]
    by (auto simp: redis_registry_def redis_register_wallet_def redis_watched_def split: prod.splits sum.splits if_splits)
next
  fix w wid w'
  assume "rs_unregister (redis_registry R) wid w = (None, w')"
  then show "(wid_network wid, wid_address wid) \<in> redis_watched mem_at w \<and>
      redis_watched mem_at w' = redis_watched mem_at w - {(wid_network wid, wid_address wid)}"
    using srem_ok [of "walletStorageKey (wid_network wid)" "wid_address wid" w]
    by (auto simp: redis_registry_def redis_unregister_wallet_def redis_watched_def split: prod.splits sum.splits if_splits)
next
  fix w wid w'
  assume "rs_unregister (redis_registry R) wid w = (Some ErrWalletNotFound, w')"
  then show "(wid_network wid, wid_address wid) \<notin> redis_watched mem_at w \<and>
      redis_watched mem_at w' = redis_watched mem_at w"
    using srem_ok [of "walletStorageKey (wid_network wid)" "wid_address wid" w]
      srem_foreign [of "walletStorageKey (wid_network wid)" "wid_address wid" w]
    by (auto simp: redis_registry_def redis_unregister_wallet_def redis_watched_def split: prod.splits sum.splits if_splits)
next
  fix w wid e w'
  assume r: "rs_register (redis_registry R) wid w = (Some e, w')"
  let ?k = "walletStorageKey (wid_network wid)" and ?a = "wid_address wid"
  have "mem_at w' = mem_at w \<or> mem_at w' = (mem_at w)(?k := insert ?a (mem_at w ?k))"
    using r sadd_ok [of ?k ?a w _ w'] sadd_err [of ?k ?a w _ w']
    by (auto simp: redis_registry_def redis_register_wallet_def split: prod.splits sum.splits if_splits)
  moreover have "redis_watched mem_at w' = insert (wid_network wid, ?a) (redis_watched mem_at w)"
    if "mem_at w' = (mem_at w)(?k := insert ?a (mem_at w ?k))"
    using that by (auto simp: redis_watched_def split: if_splits)
  moreover have "redis_watched mem_at w' = redis_watched mem_at w" if "mem_at w' = mem_at w"
    using that by (simp add: redis_watched_def)
  ultimately show "redis_watched mem_at w' = redis_watched mem_at w \<or>
      redis_watched mem_at w' = insert (wid_network wid, wid_address wid) (redis_watched mem_at w)"
    by blast
next
  fix w wid e w'
  assume r: "rs_unregister (redis_registry R) wid w = (Some e, w')"
  let ?k = "walletStorageKey (wid_network wid)" and ?a = "wid_address wid"
  have "mem_at w' = mem_at w \<or> mem_at w' = (mem_at w)(?k := mem_at w ?k - {?a})"
    using r srem_ok [of ?k ?a w _ w'] srem_err [of ?k ?a w _ w']
    by (auto simp: redis_registry_def redis_unregister_wallet_def split: prod.splits sum.splits if_splits)
  moreover have "redis_watched mem_at w' = redis_watched mem_at w - {(wid_network wid, ?a)}"
    if "mem_at w' = (mem_at w)(?k := mem_at w ?k - {?a})"
    using that by (auto simp: redis_watched_def split: if_splits)
  moreover have "redis_watched mem_at w' = redis_watched mem_at w" if "mem_at w' = mem_at w"
    using that by (simp add: redis_watched_def)
  ultimately show "redis_watched mem_at w' = redis_watched mem_at w \<or>
      redis_watched mem_at w' = redis_watched mem_at w - {(wid_network wid, wid_address wid)}"
    by blast
next
  fix w n addrs hits w'
  assume "ws_filter (redis_watch R) n addrs w = (Inr hits, w')" and "distinct addrs"
  then show "distinct hits \<and> set hits = {a \<in> set addrs. (n, a) \<in> redis_watched mem_at w}"
    using smismember_ok [of "walletStorageKey n" addrs w]
    by (auto simp: redis_watch_def redis_filter_watched_wallets_def redis_watched_def collect_matched_map
        split: prod.splits sum.splits if_splits)
qed simp_all

context redis_server
begin

lemmas resume_height = ckpt.resume_height

lemma last_kept: "is \<noteq> [] \<Longrightarrow> ckpt.kept_all is prev = Some (last is)"
  by (induction "is" arbitrary: prev) (auto simp: ckpt.kept_all_simps)

lemmas run_exclusive = gd.run_exclusive
lemmas register_ok = ws.register_ok
lemmas matching_exact = ws.matching_exact

end

section \<open>A server in memory\<close>

text \<open>
  The laws hold of a server that keeps its entries in memory and never loses a command: it stands
  for the parameter in the concrete examples. A command on a key of the other kind is refused.
\<close>

record redis_memory =
  rm_strings :: "string \<Rightarrow> (string \<times> int option) option"
  rm_sets :: "string \<Rightarrow> string set"
  rm_clock :: int

definition mem_wrong_type :: gerr where
  "mem_wrong_type = ErrExternal ''WRONGTYPE''"

definition mem_put :: "string \<Rightarrow> string \<Rightarrow> int \<Rightarrow> redis_memory \<Rightarrow> redis_memory" where
  "mem_put k v ttl w =
     w\<lparr>rm_strings := (rm_strings w)(k \<mapsto> (v, if ttl = 0 then None else Some (rm_clock w + ttl))),
       rm_sets := (rm_sets w)(k := {})\<rparr>"

definition memory_redis :: "redis_memory redis" where
  "memory_redis =
     \<lparr>rd_get = (\<lambda>k w. (if rm_sets w k \<noteq> {} then Inl mem_wrong_type
                       else case redis_live (rm_clock w) (rm_strings w k) of
                         None \<Rightarrow> Inl ErrRedisNil | Some v \<Rightarrow> Inr v, w)),
      rd_set = (\<lambda>k v ttl w. (None, mem_put k v ttl w)),
      rd_setnx = (\<lambda>k v ttl w.
        if rm_sets w k \<noteq> {} \<or> redis_live (rm_clock w) (rm_strings w k) \<noteq> None then (Inr False, w)
        else (Inr True, mem_put k v ttl w)),
      rd_sadd = (\<lambda>k a w.
        if redis_live (rm_clock w) (rm_strings w k) \<noteq> None then (Inl mem_wrong_type, w)
        else (Inr (if a \<in> rm_sets w k then 0 else 1), w\<lparr>rm_sets := (rm_sets w)(k := insert a (rm_sets w k))\<rparr>)),
      rd_srem = (\<lambda>k a w.
        if redis_live (rm_clock w) (rm_strings w k) \<noteq> None then (Inl mem_wrong_type, w)
        else (Inr (if a \<in> rm_sets w k then 1 else 0), w\<lparr>rm_sets := (rm_sets w)(k := rm_sets w k - {a})\<rparr>)),
      rd_smismember = (\<lambda>k as w.
        if redis_live (rm_clock w) (rm_strings w k) \<noteq> None then (Inl mem_wrong_type, w)
        else (Inr (map (\<lambda>a. a \<in> rm_sets w k) as), w)),
      rd_ping = (\<lambda>w. (None, w)), rd_close = (\<lambda>w. (None, w))\<rparr>"

definition mem_empty :: redis_memory where
  "mem_empty = \<lparr>rm_strings = (\<lambda>_. None), rm_sets = (\<lambda>_. {}), rm_clock = 0\<rparr>"

definition mem_pass :: "redis_memory \<Rightarrow> redis_memory \<Rightarrow> bool" where
  "mem_pass w w' \<longleftrightarrow> rm_clock w \<le> rm_clock w' \<and> w' = w\<lparr>rm_clock := rm_clock w'\<rparr>"

definition mem_same :: "redis_memory \<Rightarrow> redis_memory \<Rightarrow> bool" where
  "mem_same w w' \<longleftrightarrow> rm_strings w' = rm_strings w \<and> rm_sets w' = rm_sets w \<and> rm_clock w' = rm_clock w"

definition mem_stored :: "string \<Rightarrow> string \<Rightarrow> int \<Rightarrow> redis_memory \<Rightarrow> redis_memory \<Rightarrow> bool" where
  "mem_stored k v ttl w w' \<longleftrightarrow> mem_same (mem_put k v ttl w) w'"

lemmas mem_defs = memory_redis_def mem_put_def mem_stored_def mem_same_def mem_wrong_type_def

interpretation mem: redis_server memory_redis rm_strings rm_sets rm_clock mem_pass mem_same mem_stored
proof
  fix w w' assume "mem_pass w w'"
  then show "rm_strings w' = rm_strings w \<and> rm_sets w' = rm_sets w \<and> rm_clock w \<le> rm_clock w'"
    unfolding mem_pass_def by (metis redis_memory.surjective redis_memory.update_convs(3) redis_memory.select_convs(1,2))
qed (auto simp: mem_defs split: if_splits option.splits)

lemma mem_laws: "redis_server memory_redis rm_strings rm_sets rm_clock mem_pass mem_same mem_stored"
  by (rule mem.redis_server_axioms)

definition mem_wait :: "int \<Rightarrow> redis_memory \<Rightarrow> redis_memory" where
  "mem_wait d w = w\<lparr>rm_clock := rm_clock w + d\<rparr>"

lemma mem_pass_wait: "0 \<le> d \<Longrightarrow> mem_pass w (mem_wait d w)"
  by (simp add: mem_pass_def mem_wait_def)

lemmas mem_simps = mem_empty_def mem_wait_def memory_redis_def mem_put_def redis_live_def

section \<open>Properties\<close>

text \<open>
  C12. Restart on Redis: when the checkpoints of a run were all saved, in whatever order, then a load that succeeds makes
  the next \<^verbatim>\<open>Start\<close> subscribe at the height right behind the last one saved for the network, also when
  higher ones were saved before: the checkpoint of a block that a retry has fetched late moves the next
  start back. The server behaves as documented.
\<close>

theorem redis_resume:
  assumes "redis_server R str_at mem_at clock pass same stored"
    and "save_log (redis_checkpoint_storage R) (hex_log log) w = Val (True, w')" and "heights_log log"
    and "\<And>j. redis_latest str_at clock w n = Some j \<Longrightarrow> 0 \<le> j \<and> j < 2 ^ 63 - 1"
    and "log_of (\<lambda>n. n) n log \<noteq> []" and "redis_load_latest_checkpoint R n w' = ((h, None), w'')"
  shows "start_height h = Val (hex_of (last (log_of (\<lambda>n. n) n log) + 1))"
proof -
  have "cks_load (redis_checkpoint_storage R) n w' = ((h, None), w'')"
    using assms(6) by (simp add: redis_checkpoint_storage_def)
  from redis_server.resume_height [OF assms(1-5) this] redis_server.last_kept [OF assms(1,5)] show ?thesis by auto
qed

theorem redis_resume_witness:
  "\<exists>w' h w''. save_log (redis_checkpoint_storage memory_redis) (hex_log [(''ETH'', 11), (''ETH'', 10)]) mem_empty = Val (True, w') \<and>
     redis_load_latest_checkpoint memory_redis ''ETH'' w' = ((h, None), w'') \<and> start_height h = Val (hex_of 11)"
proof -
  let ?l = "[(''ETH'', 11), (''ETH'', 10)] :: (string \<times> int) list"
  let ?k = "chainstreamCheckpointKey ''ETH''"
  let ?w1 = "mem_put ?k (hex_of 11) 0 mem_empty"
  let ?w2 = "mem_put ?k (hex_of 10) 0 ?w1"
  have put: "redis_save_checkpoint memory_redis ''ETH'' h w = Val (None, mem_put ?k h 0 w)" for h w
    by (simp add: redis_save_checkpoint_def memory_redis_def hex_string_def)
  have s: "save_log (redis_checkpoint_storage memory_redis) (hex_log ?l) mem_empty = Val (True, ?w2)"
    by (simp only: hex_log_simps save_log.simps redis_checkpoint_storage_def checkpoint_storage.simps put
        bind_outcome.simps prod.case simp_thms)
  have live: "redis_live (rm_clock ?w2) (rm_strings ?w2 ?k) = Some (hex_of 10)" "rm_sets ?w2 ?k = {}"
    by (simp_all add: mem_simps)
  have v: "hex_from_string (hex_of 10) = Inr (hex_of 10)"
    by (rule hex_from_string_nonneg) simp
  have l: "redis_load_latest_checkpoint memory_redis ''ETH'' ?w2 = ((hex_of 10, None), ?w2)"
    unfolding redis_load_latest_checkpoint_def memory_redis_def redis.simps live by (simp add: v [simplified])
  have "start_height (hex_of 10) = Val (hex_of (last (log_of (\<lambda>n. n) ''ETH'' ?l) + 1))"
    by (rule redis_resume [OF mem_laws s _ _ _ l])
       (simp_all add: heights_log_def redis_latest_def redis_live_def mem_empty_def)
  then have "start_height (hex_of 10) = Val (hex_of 11)" by simp
  with s l show ?thesis by blast
qed

text \<open>
  C10. On Redis, in every run of any number of workers, with commands that fail before or after they
  took effect and time passing in any way: two successful claims of a key are at least the duration
  of the first apart, and a completed key is never claimed again. The server behaves as documented.
\<close>

theorem redis_exclusive:
  assumes "redis_server R str_at mem_at clock pass same stored"
    and "guard_run (redis_guard R) pass walletwatchIdempotencyKey clock w0 evs w"
  shows "exclusive_trace evs"
  by (rule redis_server.run_exclusive [OF assms(1) TrueI assms(2)])

theorem redis_exclusive_witness:
  "\<exists>w. guard_run (redis_guard memory_redis) mem_pass walletwatchIdempotencyKey rm_clock mem_empty
       [Claimed (walletwatchIdempotencyKey ''E'' ''h'') 0 300, Claimed (walletwatchIdempotencyKey ''E'' ''h'') 300 300] w \<and>
     exclusive_trace [Claimed (walletwatchIdempotencyKey ''E'' ''h'') 0 (300 :: int),
       Claimed (walletwatchIdempotencyKey ''E'' ''h'') 300 300]"
proof -
  let ?k = "walletwatchIdempotencyKey ''E'' ''h''" and ?g = "redis_guard memory_redis"
  let ?run = "guard_run ?g mem_pass walletwatchIdempotencyKey rm_clock mem_empty"
  let ?w1 = "mem_put ?k [] 300 mem_empty"
  let ?w2 = "mem_wait 300 ?w1"
  let ?w3 = "mem_put ?k [] 300 ?w2"
  have c1: "ig_claim ?g ''E'' ''h'' 300 mem_empty = (None, ?w1)"
    by (simp add: redis_guard_def redis_claim_def mem_simps Let_def)
  have c2: "ig_claim ?g ''E'' ''h'' 300 ?w1 = (Some ErrStillInProgress, ?w1)"
    by (simp add: redis_guard_def redis_claim_def mem_simps Let_def walletwatchIdempotencyDone_def)
  have c3: "ig_claim ?g ''E'' ''h'' 300 ?w2 = (None, ?w3)"
    by (simp add: redis_guard_def redis_claim_def mem_simps Let_def)
  from guard_run.claim [OF guard_run.start _ c1, of mem_pass walletwatchIdempotencyKey rm_clock]
  have "?run [Claimed ?k 0 300] ?w1" by (simp add: mem_empty_def)
  from guard_run.claim [OF this _ c2] have "?run [Claimed ?k 0 300] ?w1" by simp
  then have "?run [Claimed ?k 0 300] ?w2" by (rule guard_run.time) (simp add: mem_pass_wait)
  from guard_run.claim [OF this _ c3] have r: "?run [Claimed ?k 0 300, Claimed ?k 300 300] ?w3"
    by (simp add: mem_simps)
  from redis_exclusive [OF mem_laws r] r show ?thesis by blast
qed

text \<open>
  C23. Redis takes the network as it is spelled: a wallet registered under one spelling is not matched
  in the blocks of a network spelled otherwise, unless it was registered there too. The command line
  documents \<^verbatim>\<open>--network ethereum\<close>, the pipeline names the network \<^verbatim>\<open>ETHEREUM\<close>.
\<close>

theorem redis_other_spelling_unmatched:
  assumes "redis_server R str_at mem_at clock pass same stored"
    and "start_watching (wr_new (redis_registry R)) n a w = (None, w1)" and "m \<noteq> n" and "a \<notin> mem_at w (walletStorageKey m)"
    and "get_transactions_by_wallet ord (redis_watch R) m txs w1 = (Inr res, w2)"
    and "fair_orders ord" and "distinct (map wtx_hash txs)"
  shows "map_of res a = None"
proof -
  note registered = redis_server.register_ok [OF assms(1)]
  have valid: "n \<noteq> ''''" "a \<noteq> ''''"
    using watching_invalid [of n a "wr_new (redis_registry R)" w] assms(2) by auto
  then have "redis_watched mem_at w1 = insert (n, a) (redis_watched mem_at w)"
    using registered [of "\<lparr>wid_network = n, wid_address = a\<rparr>" w w1] assms(2)
    by (simp add: watching_valid wr_new_def)
  then have "(m, a) \<notin> redis_watched mem_at w1" using assms(3,4) by (simp add: redis_watched_def)
  then show ?thesis
    using redis_server.matching_exact(2) [OF assms(1,5-7) TrueI, of a] by simp
qed

theorem redis_other_spelling_unmatched_witness:
  "\<exists>w1 res w2. start_watching (wr_new (redis_registry memory_redis)) ''ethereum'' ''0xa'' mem_empty = (None, w1) \<and>
     get_transactions_by_wallet plain_orders (redis_watch memory_redis) ''ETHEREUM'' [demo_tx ''h1'' ''0xa'' ''0xb''] w1 = (Inr res, w2) \<and>
     map_of res ''0xa'' = None"
proof -
  let ?w1 = "mem_empty\<lparr>rm_sets := (rm_sets mem_empty)(walletStorageKey ''ethereum'' := {''0xa''})\<rparr>"
  have s: "start_watching (wr_new (redis_registry memory_redis)) ''ethereum'' ''0xa'' mem_empty = (None, ?w1)"
    by (simp add: watching_valid wr_new_def redis_registry_def redis_register_wallet_def mem_simps)
  have "\<exists>hits w'. ws_filter (redis_watch memory_redis) ''ETHEREUM'' addrs ?w1 = (Inr hits, w')" for addrs
    by (simp add: redis_watch_def redis_filter_watched_wallets_def mem_simps)
  then obtain res w2 where g: "get_transactions_by_wallet plain_orders (redis_watch memory_redis) ''ETHEREUM''
      [demo_tx ''h1'' ''0xa'' ''0xb''] ?w1 = (Inr res, w2)"
    using get_transactions_ok [of "redis_watch memory_redis" "''ETHEREUM''" ?w1] by blast
  have "map_of res ''0xa'' = None"
    by (rule redis_other_spelling_unmatched [OF mem_laws s _ _ g])
       (simp_all add: mem_empty_def)
  with s g show ?thesis by blast
qed

end
