(* ===== verification/Registry_Spec.thy ===== *)
theory Registry_Spec
  imports Storage_Postgres Storage_Redis
begin

text \<open>
  The abstract specification of the wallet registry, of which \<^verbatim>\<open>walletregistry.Service\<close> is the writing and
  \<^verbatim>\<open>walletwatch.WalletStorage\<close> the reading end: a set of wallets, and the answers a call may give. A history of
  calls of the services over a storage that keeps the contract \<open>wallet_store\<close> is one of the
  specification, so that both storages implement it.
\<close>

section \<open>The specification\<close>

datatype registry_call = CallStart string string | CallStop string string | CallMatch string "string list"

datatype registry_answer = Done "gerr option" | Matched "gerr + string list"

definition valid_wallet :: "string \<Rightarrow> string \<Rightarrow> bool" where
  "valid_wallet n a \<longleftrightarrow> n \<noteq> '''' \<and> a \<noteq> ''''"

text \<open>\<open>norm\<close>: how the storage spells the name of a network. A call that fails may have taken effect.\<close>

inductive registry_spec ::
    "(string \<Rightarrow> string) \<Rightarrow> (string \<times> string) set \<Rightarrow> registry_call \<Rightarrow> registry_answer \<Rightarrow> (string \<times> string) set \<Rightarrow> bool"
  for norm where
  start_new: "valid_wallet n a \<Longrightarrow> (norm n, a) \<notin> S \<Longrightarrow>
    registry_spec norm S (CallStart n a) (Done None) (insert (norm n, a) S)"
| start_known: "valid_wallet n a \<Longrightarrow> (norm n, a) \<in> S \<Longrightarrow>
    registry_spec norm S (CallStart n a) (Done (Some ErrWalletAlreadyRegistered)) S"
| start_invalid: "\<not> valid_wallet n a \<Longrightarrow> errors_is e ErrValidationFailed \<Longrightarrow>
    registry_spec norm S (CallStart n a) (Done (Some e)) S"
| start_failed: "valid_wallet n a \<Longrightarrow> e \<noteq> ErrWalletAlreadyRegistered \<Longrightarrow> S' = S \<or> S' = insert (norm n, a) S \<Longrightarrow>
    registry_spec norm S (CallStart n a) (Done (Some e)) S'"
| stop_known: "valid_wallet n a \<Longrightarrow> (norm n, a) \<in> S \<Longrightarrow>
    registry_spec norm S (CallStop n a) (Done None) (S - {(norm n, a)})"
| stop_unknown: "valid_wallet n a \<Longrightarrow> (norm n, a) \<notin> S \<Longrightarrow>
    registry_spec norm S (CallStop n a) (Done (Some ErrWalletNotFound)) S"
| stop_invalid: "\<not> valid_wallet n a \<Longrightarrow> errors_is e ErrValidationFailed \<Longrightarrow>
    registry_spec norm S (CallStop n a) (Done (Some e)) S"
| stop_failed: "valid_wallet n a \<Longrightarrow> e \<noteq> ErrWalletNotFound \<Longrightarrow> S' = S \<or> S' = S - {(norm n, a)} \<Longrightarrow>
    registry_spec norm S (CallStop n a) (Done (Some e)) S'"
| match_ok: "(distinct addrs \<Longrightarrow> distinct hits \<and> set hits = {a \<in> set addrs. (norm n, a) \<in> S}) \<Longrightarrow>
    registry_spec norm S (CallMatch n addrs) (Matched (Inr hits)) S"
| match_failed: "registry_spec norm S (CallMatch n addrs) (Matched (Inl e)) S"

inductive_cases spec_matchE: "registry_spec norm S (CallMatch n addrs) r S'"

inductive registry_history ::
    "(string \<Rightarrow> string) \<Rightarrow> (string \<times> string) set \<Rightarrow> (registry_call \<times> registry_answer) list \<Rightarrow> (string \<times> string) set \<Rightarrow> bool"
  for norm where
  history_nil: "registry_history norm S [] S"
| history_cons: "registry_spec norm S c r S' \<Longrightarrow> registry_history norm S' h S'' \<Longrightarrow> registry_history norm S ((c, r) # h) S''"

inductive_cases history_consE: "registry_history norm S (cr # h) S''"

section \<open>The calls of the services\<close>

fun run_call :: "'w wr_service \<Rightarrow> 'w watch_storage \<Rightarrow> registry_call \<Rightarrow> 'w \<Rightarrow> registry_answer \<times> 'w" where
  "run_call s watch (CallStart n a) w = (case start_watching s n a w of (r, w') \<Rightarrow> (Done r, w'))"
| "run_call s watch (CallStop n a) w = (case stop_watching s n a w of (r, w') \<Rightarrow> (Done r, w'))"
| "run_call s watch (CallMatch n addrs) w = (case ws_filter watch n addrs w of (r, w') \<Rightarrow> (Matched r, w'))"

fun run_calls ::
    "'w wr_service \<Rightarrow> 'w watch_storage \<Rightarrow> registry_call list \<Rightarrow> 'w \<Rightarrow> (registry_call \<times> registry_answer) list \<times> 'w" where
  "run_calls s watch [] w = ([], w)"
| "run_calls s watch (c # cs) w =
     (case run_call s watch c w of
        (r, w1) \<Rightarrow> (case run_calls s watch cs w1 of (h, w2) \<Rightarrow> ((c, r) # h, w2)))"

context wallet_store
begin

lemma start_refines:
  assumes "start_watching \<lparr>wrs_storage = registry\<rparr> n a w = (r, w')"
  shows "registry_spec norm (watched w) (CallStart n a) (Done r) (watched w')"
proof (cases "valid_wallet n a")
  case False
  with watching_invalid [of n a "\<lparr>wrs_storage = registry\<rparr>" w] assms show ?thesis
    by (auto simp: valid_wallet_def intro!: start_invalid)
next
  case True
  then have c: "rs_register registry \<lparr>wid_network = n, wid_address = a\<rparr> w = (r, w')"
    using assms watching_valid(1) [of n a "\<lparr>wrs_storage = registry\<rparr>" w] by (simp add: valid_wallet_def)
  show ?thesis
  proof (cases r)
    case None
    with register_ok [of "\<lparr>wid_network = n, wid_address = a\<rparr>" w w'] c True show ?thesis
      by (auto intro: start_new)
  next
    case (Some e)
    show ?thesis
    proof (cases "e = ErrWalletAlreadyRegistered")
      case True
      with register_known [of "\<lparr>wid_network = n, wid_address = a\<rparr>" w w'] c Some \<open>valid_wallet n a\<close> show ?thesis
        by (auto intro: start_known)
    next
      case False
      with register_err [of "\<lparr>wid_network = n, wid_address = a\<rparr>" w e w'] c Some \<open>valid_wallet n a\<close> show ?thesis
        by (auto intro!: start_failed)
    qed
  qed
qed

lemma stop_refines:
  assumes "stop_watching \<lparr>wrs_storage = registry\<rparr> n a w = (r, w')"
  shows "registry_spec norm (watched w) (CallStop n a) (Done r) (watched w')"
proof (cases "valid_wallet n a")
  case False
  with watching_invalid [of n a "\<lparr>wrs_storage = registry\<rparr>" w] assms show ?thesis
    by (auto simp: valid_wallet_def intro!: stop_invalid)
next
  case True
  then have c: "rs_unregister registry \<lparr>wid_network = n, wid_address = a\<rparr> w = (r, w')"
    using assms watching_valid(2) [of n a "\<lparr>wrs_storage = registry\<rparr>" w] by (simp add: valid_wallet_def)
  show ?thesis
  proof (cases r)
    case None
    with unregister_ok [of "\<lparr>wid_network = n, wid_address = a\<rparr>" w w'] c True show ?thesis
      by (auto intro: stop_known)
  next
    case (Some e)
    show ?thesis
    proof (cases "e = ErrWalletNotFound")
      case True
      with unregister_unknown [of "\<lparr>wid_network = n, wid_address = a\<rparr>" w w'] c Some \<open>valid_wallet n a\<close> show ?thesis
        by (auto intro: stop_unknown)
    next
      case False
      with unregister_err [of "\<lparr>wid_network = n, wid_address = a\<rparr>" w e w'] c Some \<open>valid_wallet n a\<close> show ?thesis
        by (auto intro!: stop_failed)
    qed
  qed
qed

lemma service_inv:
  assumes "inv w"
  shows "start_watching \<lparr>wrs_storage = registry\<rparr> n a w = (r, w') \<Longrightarrow> inv w'"
    and "stop_watching \<lparr>wrs_storage = registry\<rparr> n a w = (r, w') \<Longrightarrow> inv w'"
proof -
  assume "start_watching \<lparr>wrs_storage = registry\<rparr> n a w = (r, w')"
  from start_watching_effect [OF this] assms register_inv show "inv w'" by auto
next
  assume "stop_watching \<lparr>wrs_storage = registry\<rparr> n a w = (r, w')"
  from stop_watching_effect [OF this] assms unregister_inv show "inv w'" by auto
qed

lemma call_refines:
  assumes "inv w" "run_call \<lparr>wrs_storage = registry\<rparr> watch c w = (r, w')"
  shows "inv w' \<and> registry_spec norm (watched w) c r (watched w')"
proof (cases c)
  case (CallStart n a)
  with assms start_refines service_inv(1) show ?thesis by (auto split: prod.splits)
next
  case (CallStop n a)
  with assms stop_refines service_inv(2) show ?thesis by (auto split: prod.splits)
next
  case (CallMatch n addrs)
  then obtain f where f: "ws_filter watch n addrs w = (f, w')" "r = Matched f"
    using assms(2) by (auto split: prod.splits)
  with filter_frame [OF assms(1) f(1)] CallMatch show ?thesis
    by (cases f) (auto intro!: match_ok match_failed dest: filter_ok [OF assms(1)])
qed

lemma calls_refine:
  "inv w \<Longrightarrow> run_calls \<lparr>wrs_storage = registry\<rparr> watch cs w = (h, w') \<Longrightarrow>
   inv w' \<and> registry_history norm (watched w) h (watched w')"
proof (induction cs arbitrary: w h)
  case Nil
  then show ?case by (auto intro: history_nil)
next
  case (Cons c cs)
  obtain r w1 where c: "run_call \<lparr>wrs_storage = registry\<rparr> watch c w = (r, w1)" by (metis surj_pair)
  obtain h' where h: "run_calls \<lparr>wrs_storage = registry\<rparr> watch cs w1 = (h', w')" "h = (c, r) # h'"
    using Cons.prems(2) c by (auto split: prod.splits)
  from call_refines [OF Cons.prems(1) c] Cons.IH [OF _ h(1)] h(2) show ?case by (auto intro: history_cons)
qed

end

context redis_server
begin

lemmas calls_refine = ws.calls_refine

end

section \<open>What a history without failures means\<close>

text \<open>Every valid request was accepted or answered that there was nothing to do.\<close>

fun settled_call :: "registry_call \<times> registry_answer \<Rightarrow> bool" where
  "settled_call (CallStart n a, Done r) \<longleftrightarrow> \<not> valid_wallet n a \<or> r = None \<or> r = Some ErrWalletAlreadyRegistered"
| "settled_call (CallStop n a, Done r) \<longleftrightarrow> \<not> valid_wallet n a \<or> r = None \<or> r = Some ErrWalletNotFound"
| "settled_call (c, r) \<longleftrightarrow> True"

text \<open>The set a call asks for, whatever the answer.\<close>

fun requested :: "(string \<Rightarrow> string) \<Rightarrow> registry_call \<Rightarrow> (string \<times> string) set \<Rightarrow> (string \<times> string) set" where
  "requested norm (CallStart n a) S = (if valid_wallet n a then insert (norm n, a) S else S)"
| "requested norm (CallStop n a) S = (if valid_wallet n a then S - {(norm n, a)} else S)"
| "requested norm (CallMatch n addrs) S = S"

lemma spec_settled: "registry_spec norm S c r S' \<Longrightarrow> settled_call (c, r) \<Longrightarrow> S' = requested norm c S"
  by (induction rule: registry_spec.induct) auto

lemma history_settled:
  "registry_history norm S h S' \<Longrightarrow> list_all settled_call h \<Longrightarrow> S' = fold (requested norm) (map fst h) S"
  by (induction rule: registry_history.induct) (auto dest: spec_settled)

text \<open>What is matched after such a history: the wallets of the request that the calls before ask for.\<close>

lemma history_appendE:
  assumes "registry_history norm S (h @ k) S''"
  obtains S' where "registry_history norm S h S'" "registry_history norm S' k S''"
  using assms
proof (induction h arbitrary: S thesis)
  case Nil
  then show ?case by (auto intro: history_nil)
next
  case (Cons cr h)
  from Cons.prems(2) have "registry_history norm S (cr # h @ k) S''" by simp
  then obtain T where T: "registry_spec norm S (fst cr) (snd cr) T" "registry_history norm T (h @ k) S''"
    by (rule history_consE) auto
  show ?case
    by (rule Cons.IH [OF _ T(2)]) (use T(1) Cons.prems(1) in \<open>cases cr, auto intro: history_cons\<close>)
qed

lemma settled_match:
  assumes "registry_history norm S (h @ [(CallMatch n addrs, Matched (Inr hits))]) S'"
    and "list_all settled_call h" and "distinct addrs"
  shows "set hits = {a \<in> set addrs. (norm n, a) \<in> fold (requested norm) (map fst h) S}"
proof -
  obtain T where T: "registry_history norm S h T" "registry_history norm T [(CallMatch n addrs, Matched (Inr hits))] S'"
    by (rule history_appendE [OF assms(1)])
  from T(2) have "set hits = {a \<in> set addrs. (norm n, a) \<in> T}"
    using assms(3) by (auto elim!: history_consE spec_matchE)
  with history_settled [OF T(1) assms(2)] show ?thesis by simp
qed

lemma run_calls_fst: "run_calls s watch cs w = (h, w') \<Longrightarrow> map fst h = cs"
  by (induction cs arbitrary: w h) (auto split: prod.splits)

section \<open>Property\<close>

text \<open>
  C14. The wallet registry over either storage refines the set of wallets: whatever sequence of calls to
  \<^verbatim>\<open>StartWatching\<close>, \<^verbatim>\<open>StopWatching\<close> and \<^verbatim>\<open>FilterWatchedWallets\<close> is made, with failures anywhere, the answers are
  a history of the specification between the sets stored before and after. If no valid request failed, the set
  stored is the one the requests ask for, in order: on Postgres up to the case of the network names, on Redis with
  the names as spelled. The Redis server behaves as documented.
\<close>

theorem registry_refines:
  assumes "redis_server R str_at mem_at clock pass same stored" "pg_unique d"
    and "run_calls \<lparr>wrs_storage = pg_registry\<rparr> pg_watch cs d = (h, d')"
    and "run_calls \<lparr>wrs_storage = redis_registry R\<rparr> (redis_watch R) cs w = (k, w')"
  shows "registry_history to_upper (pg_watched d) h (pg_watched d') \<and>
    (list_all settled_call h \<longrightarrow> pg_watched d' = fold (requested to_upper) cs (pg_watched d)) \<and>
    registry_history (\<lambda>n. n) (redis_watched mem_at w) k (redis_watched mem_at w') \<and>
    (list_all settled_call k \<longrightarrow> redis_watched mem_at w' = fold (requested (\<lambda>n. n)) cs (redis_watched mem_at w))"
proof -
  have "map fst h = cs" "map fst k = cs"
    using run_calls_fst [OF assms(3)] run_calls_fst [OF assms(4)] .
  with pg_ws.calls_refine [OF assms(2,3)] redis_server.calls_refine [OF assms(1) _ assms(4)]
  show ?thesis by (metis history_settled)
qed

text \<open>A wallet is watched, watched again, looked up, and unwatched under another spelling of the network.\<close>

definition demo_calls :: "registry_call list" where
  "demo_calls = [CallStart ''eth'' ''a'', CallStart ''eth'' ''a'', CallMatch ''eth'' [''a'', ''b''], CallStop ''ETH'' ''a'']"

theorem registry_refines_witness:
  "\<exists>h d' k w'. run_calls \<lparr>wrs_storage = pg_registry\<rparr> pg_watch demo_calls pg_empty = (h, d') \<and>
     registry_history to_upper {} h (pg_watched d') \<and>
     run_calls \<lparr>wrs_storage = redis_registry memory_redis\<rparr> (redis_watch memory_redis) demo_calls mem_empty = (k, w') \<and>
     registry_history (\<lambda>n. n) {} k (redis_watched rm_sets w')"
proof -
  obtain h d' where h: "run_calls \<lparr>wrs_storage = pg_registry\<rparr> pg_watch demo_calls pg_empty = (h, d')" by (metis surj_pair)
  obtain k w' where k: "run_calls \<lparr>wrs_storage = redis_registry memory_redis\<rparr> (redis_watch memory_redis) demo_calls mem_empty = (k, w')"
    by (metis surj_pair)
  have "pg_unique pg_empty" "pg_watched pg_empty = {}" "redis_watched rm_sets mem_empty = {}"
    by (simp_all add: pg_unique_def pg_watched_def pg_empty_def redis_watched_def mem_empty_def)
  with registry_refines [OF mem_laws this(1) h k] h k show ?thesis by auto
qed

section \<open>The matching against a reference\<close>

text \<open>Every wallet of the block that is watched, with the transactions that involve it, by definition.\<close>

definition reference_match :: "(string \<Rightarrow> bool) \<Rightarrow> ww_transaction list \<Rightarrow> (string \<times> ww_transaction list) list" where
  "reference_match is_watched txs =
     map (\<lambda>a. (a, filter (involves a) txs))
       (filter is_watched (remdups (concat (map (\<lambda>t. [wtx_from t, wtx_to t]) txs))))"

text \<open>A result up to the orders of iteration: who, and which transactions.\<close>

definition unordered :: "(string \<times> ww_transaction list) list \<Rightarrow> (string \<times> ww_transaction multiset) multiset" where
  "unordered m = mset (map (\<lambda>(a, ts). (a, mset ts)) m)"

lemma map_of_reference:
  "map_of (reference_match P txs) a =
     (if P a \<and> filter (involves a) txs \<noteq> [] then Some (filter (involves a) txs) else None)"
proof -
  have "filter (involves a) txs \<noteq> [] \<longleftrightarrow> a \<in> set (concat (map (\<lambda>t. [wtx_from t, wtx_to t]) txs))"
    by (auto simp: filter_empty_conv involves_def)
  then show ?thesis
    unfolding reference_match_def by (subst map_of_map_restrict) (simp add: restrict_map_def)
qed

lemma unordered_eqI:
  assumes "distinct (map fst m)" "distinct (map fst m')"
    and "\<And>a. map_option mset (map_of m a) = map_option mset (map_of m' a)"
  shows "unordered m = unordered m'"
proof -
  let ?f = "\<lambda>(a, ts). (a, mset ts)"
  have d: "distinct (map ?f xs)" if "distinct (map fst xs)" for xs :: "(string \<times> ww_transaction list) list"
  proof -
    have "map fst (map ?f xs) = map fst xs" by auto
    then show ?thesis using that by (metis distinct_map)
  qed
  have s: "(a, M) \<in> set (map ?f xs) \<longleftrightarrow> map_option mset (map_of xs a) = Some M"
    if "distinct (map fst xs)" for xs :: "(string \<times> ww_transaction list) list" and a M
    using that by (force simp: map_of_eq_Some_iff image_iff)
  have "set (map ?f m) = set (map ?f m')"
    using s [OF assms(1)] s [OF assms(2)] assms(3) by (intro set_eqI) (metis surj_pair)
  then show ?thesis
    unfolding unordered_def using set_eq_iff_mset_eq_distinct [OF d [OF assms(1)] d [OF assms(2)]] by simp
qed

text \<open>
  C16. \<^verbatim>\<open>getTransactionsByWallet\<close> is the reference. On Postgres and with distinct transaction hashes, the index of
  hashes, the request for all the addresses at once and the two nested loops give the same wallets with the
  same transactions as filtering the block for each watched address, up to the orders of iteration of Go's maps.
\<close>

theorem matching_is_reference:
  assumes "get_transactions_by_wallet ord pg_watch n txs d = (Inr m, d')" "fair_orders ord"
    and "distinct (map wtx_hash txs)" "pg_unique d"
  shows "unordered m = unordered (reference_match (\<lambda>a. (to_upper n, a) \<in> pg_watched d) txs)"
proof (rule unordered_eqI)
  show "distinct (map fst m)" by (rule pg_ws.matching_exact(1) [OF assms])
  show "distinct (map fst (reference_match (\<lambda>a. (to_upper n, a) \<in> pg_watched d) txs))"
    by (simp add: reference_match_def o_def)
next
  fix a
  show "map_option mset (map_of m a) =
      map_option mset (map_of (reference_match (\<lambda>a. (to_upper n, a) \<in> pg_watched d) txs) a)"
    using pg_ws.matching_exact(2) [OF assms, of a] by (auto simp: map_of_reference split: if_splits)
qed

theorem matching_is_reference_witness:
  "\<exists>m d'. get_transactions_by_wallet plain_orders pg_watch ''eth'' [demo_tx ''h'' ''A'' ''B'']
       (pg_empty\<lparr>pg_wallets := [\<lparr>mw_network = ''ETH'', mw_address = ''B''\<rparr>]\<rparr>) = (Inr m, d') \<and>
     unordered m = {#(''B'', {#demo_tx ''h'' ''A'' ''B''#})#}"
proof -
  let ?d = "pg_empty\<lparr>pg_wallets := [\<lparr>mw_network = ''ETH'', mw_address = ''B''\<rparr>]\<rparr>"
  have "\<exists>hits w'. ws_filter pg_watch ''eth'' addrs ?d = (Inr hits, w')" for addrs
    by (simp add: pg_watch_def pg_filter_watched_wallets_def filter_monitored_wallets_def pg_exec_def pg_empty_def)
  then have "\<exists>m d'. get_transactions_by_wallet plain_orders pg_watch ''eth'' [demo_tx ''h'' ''A'' ''B''] ?d = (Inr m, d')"
    unfolding get_transactions_by_wallet_def Let_def by (metis (no_types, lifting) case_prod_conv sum.simps(6))
  then obtain m d' where g: "get_transactions_by_wallet plain_orders pg_watch ''eth'' [demo_tx ''h'' ''A'' ''B''] ?d = (Inr m, d')"
    by blast
  have "pg_unique ?d" "to_upper ''eth'' = ''ETH''" by (simp_all add: pg_unique_def pg_empty_def, code_simp)
  with matching_is_reference [OF g fair_plain] g show ?thesis
    by (auto simp: reference_match_def unordered_def pg_watched_def pg_empty_def involves_def demo_tx_def)
qed

end
