(* ===== verification/Ethereum.thy ===== *)
theory Ethereum
  imports Poller Jsonrpc
begin

text \<open>
  \<^verbatim>\<open>internal/infra/blockchain/ethereum\<close>: the JSON types of the node, their conversion to the
  domain, and the two calls that instantiate the polling loop of theory \<open>Poller\<close>. The JSON-RPC
  client is the argument \<open>fetch\<close>, as the code has it behind the interface \<^verbatim>\<open>jsonrpc.Client\<close>.
\<close>

section \<open>Types of the JSON API\<close>

record access_entry =
  ae_address :: string
  ae_storageKeys :: "string list"

record transaction_response =
  tr_type :: string
  tr_chainId :: string
  tr_nonce :: string
  tr_gas :: string
  tr_maxFeePerGas :: string
  tr_maxPriorityFeePerGas :: string
  tr_to :: string
  tr_value :: string
  tr_input :: string
  tr_r :: string
  tr_s :: string
  tr_yParity :: string
  tr_v :: string
  tr_hash :: string
  tr_blockHash :: string
  tr_blockNumber :: string
  tr_transactionIndex :: string
  tr_from :: string
  tr_gasPrice :: string
  tr_accessList :: "access_entry list"

record withdrawal_response =
  wr_index :: string
  wr_validatorIndex :: string
  wr_address :: string
  wr_amount :: string

record block_response =
  br_hash :: string
  br_parentHash :: string
  br_sha3Uncles :: string
  br_miner :: string
  br_stateRoot :: string
  br_transactionsRoot :: string
  br_receiptsRoot :: string
  br_logsBloom :: string
  br_difficulty :: string
  br_number :: hex
  br_gasLimit :: string
  br_gasUsed :: string
  br_timestamp :: string
  br_extraData :: string
  br_mixHash :: string
  br_nonce :: string
  br_baseFeePerGas :: string
  br_withdrawalsRoot :: string
  br_blobGasUsed :: string
  br_excessBlobGas :: string
  br_parentBeaconBlockRoot :: string
  br_requestsHash :: string
  br_size :: string
  br_uncles :: "string list"
  br_transactions :: "transaction_response list"
  br_withdrawals :: "withdrawal_response list"

section \<open>Their decoding\<close>

definition zero_access_entry :: access_entry where
  "zero_access_entry = \<lparr>ae_address = '''', ae_storageKeys = []\<rparr>"

definition access_entry_fields :: "access_entry fields" where
  "access_entry_fields =
     [field ''address'' dec_string ae_address ae_address_update,
      field ''storageKeys'' (dec_list (\<lambda>j. dec_string j '''')) ae_storageKeys ae_storageKeys_update]"

definition zero_transaction_response :: transaction_response where
  "zero_transaction_response =
     \<lparr>tr_type = '''', tr_chainId = '''', tr_nonce = '''', tr_gas = '''', tr_maxFeePerGas = '''',
      tr_maxPriorityFeePerGas = '''', tr_to = '''', tr_value = '''', tr_input = '''', tr_r = '''',
      tr_s = '''', tr_yParity = '''', tr_v = '''', tr_hash = '''', tr_blockHash = '''',
      tr_blockNumber = '''', tr_transactionIndex = '''', tr_from = '''', tr_gasPrice = '''',
      tr_accessList = []\<rparr>"

definition transaction_response_fields :: "transaction_response fields" where
  "transaction_response_fields =
     [field ''type'' dec_string tr_type tr_type_update,
      field ''chainId'' dec_string tr_chainId tr_chainId_update,
      field ''nonce'' dec_string tr_nonce tr_nonce_update,
      field ''gas'' dec_string tr_gas tr_gas_update,
      field ''maxFeePerGas'' dec_string tr_maxFeePerGas tr_maxFeePerGas_update,
      field ''maxPriorityFeePerGas'' dec_string tr_maxPriorityFeePerGas tr_maxPriorityFeePerGas_update,
      field ''to'' dec_string tr_to tr_to_update,
      field ''value'' dec_string tr_value tr_value_update,
      field ''input'' dec_string tr_input tr_input_update,
      field ''r'' dec_string tr_r tr_r_update,
      field ''s'' dec_string tr_s tr_s_update,
      field ''yParity'' dec_string tr_yParity tr_yParity_update,
      field ''v'' dec_string tr_v tr_v_update,
      field ''hash'' dec_string tr_hash tr_hash_update,
      field ''blockHash'' dec_string tr_blockHash tr_blockHash_update,
      field ''blockNumber'' dec_string tr_blockNumber tr_blockNumber_update,
      field ''transactionIndex'' dec_string tr_transactionIndex tr_transactionIndex_update,
      field ''from'' dec_string tr_from tr_from_update,
      field ''gasPrice'' dec_string tr_gasPrice tr_gasPrice_update,
      field ''accessList'' (dec_list (\<lambda>j. dec_struct access_entry_fields j zero_access_entry))
        tr_accessList tr_accessList_update]"

definition zero_withdrawal_response :: withdrawal_response where
  "zero_withdrawal_response =
     \<lparr>wr_index = '''', wr_validatorIndex = '''', wr_address = '''', wr_amount = ''''\<rparr>"

definition withdrawal_response_fields :: "withdrawal_response fields" where
  "withdrawal_response_fields =
     [field ''index'' dec_string wr_index wr_index_update,
      field ''validatorIndex'' dec_string wr_validatorIndex wr_validatorIndex_update,
      field ''address'' dec_string wr_address wr_address_update,
      field ''amount'' dec_string wr_amount wr_amount_update]"

definition zero_block_response :: block_response where
  "zero_block_response =
     \<lparr>br_hash = '''', br_parentHash = '''', br_sha3Uncles = '''', br_miner = '''',
      br_stateRoot = '''', br_transactionsRoot = '''', br_receiptsRoot = '''', br_logsBloom = '''',
      br_difficulty = '''', br_number = '''', br_gasLimit = '''', br_gasUsed = '''',
      br_timestamp = '''', br_extraData = '''', br_mixHash = '''', br_nonce = '''',
      br_baseFeePerGas = '''', br_withdrawalsRoot = '''', br_blobGasUsed = '''',
      br_excessBlobGas = '''', br_parentBeaconBlockRoot = '''', br_requestsHash = '''',
      br_size = '''', br_uncles = [], br_transactions = [], br_withdrawals = []\<rparr>"

definition block_response_fields :: "block_response fields" where
  "block_response_fields =
     [field ''hash'' dec_string br_hash br_hash_update,
      field ''parentHash'' dec_string br_parentHash br_parentHash_update,
      field ''sha3Uncles'' dec_string br_sha3Uncles br_sha3Uncles_update,
      field ''miner'' dec_string br_miner br_miner_update,
      field ''stateRoot'' dec_string br_stateRoot br_stateRoot_update,
      field ''transactionsRoot'' dec_string br_transactionsRoot br_transactionsRoot_update,
      field ''receiptsRoot'' dec_string br_receiptsRoot br_receiptsRoot_update,
      field ''logsBloom'' dec_string br_logsBloom br_logsBloom_update,
      field ''difficulty'' dec_string br_difficulty br_difficulty_update,
      field ''number'' hex_unmarshal br_number br_number_update,
      field ''gasLimit'' dec_string br_gasLimit br_gasLimit_update,
      field ''gasUsed'' dec_string br_gasUsed br_gasUsed_update,
      field ''timestamp'' dec_string br_timestamp br_timestamp_update,
      field ''extraData'' dec_string br_extraData br_extraData_update,
      field ''mixHash'' dec_string br_mixHash br_mixHash_update,
      field ''nonce'' dec_string br_nonce br_nonce_update,
      field ''baseFeePerGas'' dec_string br_baseFeePerGas br_baseFeePerGas_update,
      field ''withdrawalsRoot'' dec_string br_withdrawalsRoot br_withdrawalsRoot_update,
      field ''blobGasUsed'' dec_string br_blobGasUsed br_blobGasUsed_update,
      field ''excessBlobGas'' dec_string br_excessBlobGas br_excessBlobGas_update,
      field ''parentBeaconBlockRoot'' dec_string br_parentBeaconBlockRoot br_parentBeaconBlockRoot_update,
      field ''requestsHash'' dec_string br_requestsHash br_requestsHash_update,
      field ''size'' dec_string br_size br_size_update,
      field ''uncles'' (dec_list (\<lambda>j. dec_string j '''')) br_uncles br_uncles_update,
      field ''transactions''
        (dec_list (\<lambda>j. dec_struct transaction_response_fields j zero_transaction_response))
        br_transactions br_transactions_update,
      field ''withdrawals''
        (dec_list (\<lambda>j. dec_struct withdrawal_response_fields j zero_withdrawal_response))
        br_withdrawals br_withdrawals_update]"

section \<open>Conversion to the domain\<close>

definition to_watcher_transaction :: "transaction_response \<Rightarrow> cs_transaction" where
  "to_watcher_transaction t = \<lparr>ctx_hash = tr_hash t, ctx_from = tr_from t, ctx_to = tr_to t\<rparr>"

definition to_watcher_block :: "block_response \<Rightarrow> cs_block" where
  "to_watcher_block b =
     \<lparr>blk_height = br_number b, blk_hash = br_hash b,
      blk_transactions = map to_watcher_transaction (br_transactions b)\<rparr>"

section \<open>The calls to the node\<close>

text \<open>
  Both functions return the decoded target together with the result of \<^verbatim>\<open>json.Unmarshal\<close>: the
  compiler evaluates the call before it reads the variable, so what was decoded is returned.
\<close>

definition eth_get_latest_block_number :: "'w rpc \<Rightarrow> 'w latest_fn" where
  "eth_get_latest_block_number fetch w =
     (case fetch ''eth_blockNumber'' [] w of
        ((data, Some err), w') \<Rightarrow> (('''', Some err), w')
      | ((data, None), w') \<Rightarrow> (unmarshal hex_unmarshal data '''', w'))"

definition eth_get_block_by_number ::
    "'w rpc \<Rightarrow> hex \<Rightarrow> 'w \<Rightarrow> (block_response \<times> gerr option) \<times> 'w" where
  "eth_get_block_by_number fetch height w =
     (case fetch ''eth_getBlockByNumber'' [hex_marshal height, JBool True] w of
        ((data, Some err), w') \<Rightarrow> ((zero_block_response, Some err), w')
      | ((data, None), w') \<Rightarrow> (unmarshal (dec_struct block_response_fields) data zero_block_response, w'))"

text \<open>The body of the loop in \<^verbatim>\<open>pollNewBlocks\<close>: the converted response with the error.\<close>

definition eth_get_block :: "'w rpc \<Rightarrow> 'w block_fn" where
  "eth_get_block fetch h w =
     (case eth_get_block_by_number fetch h w of
        ((resp, err), w') \<Rightarrow> ((to_watcher_block resp, err), w'))"

definition eth_poll_new_blocks ::
    "'w rpc \<Rightarrow> hex \<Rightarrow> 'w \<Rightarrow> (blockchain_event list \<times> hex \<times> 'w) outcome option" where
  "eth_poll_new_blocks fetch =
     poll_new_blocks (eth_get_latest_block_number fetch) (eth_get_block fetch)"

definition eth_fetch_block_by_height :: "'w rpc \<Rightarrow> hex \<Rightarrow> 'w \<Rightarrow> (cs_block \<times> gerr option) \<times> 'w" where
  "eth_fetch_block_by_height fetch height w =
     (case eth_get_block_by_number fetch height w of
        ((resp, Some err), w') \<Rightarrow> ((zero_block, Some err), w')
      | ((resp, None), w') \<Rightarrow> ((to_watcher_block resp, None), w'))"

definition eth_subscribe_init :: "'w rpc \<Rightarrow> hex \<Rightarrow> 'w \<Rightarrow> (gerr + hex) \<times> 'w" where
  "eth_subscribe_init fetch = subscribe_init (eth_get_latest_block_number fetch)"

definition eth_subscribe_rounds ::
    "'w rpc \<Rightarrow> nat \<Rightarrow> hex \<Rightarrow> 'w \<Rightarrow> (blockchain_event list \<times> hex \<times> 'w) outcome option" where
  "eth_subscribe_rounds fetch =
     subscribe_rounds (eth_get_latest_block_number fetch) (eth_get_block fetch)"

section \<open>The client as a block source\<close>

lemma eth_latest_ok:
  "eth_get_latest_block_number fetch w = ((h, None), w') \<Longrightarrow> validate_hex h = None"
  by (auto simp: eth_get_latest_block_number_def unmarshal_def hex_unmarshal_ok
      split: prod.splits option.splits)

interpretation eth: block_source "eth_get_latest_block_number fetch" "eth_get_block fetch" for fetch
proof
  fix w h w'
  assume "eth_get_latest_block_number fetch w = ((h, None), w')"
  then show "2 \<le> length h" using validate_hex_length [OF eth_latest_ok] by fastforce
qed

lemma dec_struct_null [simp]: "dec_struct fs JNull r = Dec r None"
  by simp

lemma eth_get_block_by_number_null:
  "fetch ''eth_getBlockByNumber'' [hex_marshal h, JBool True] w = ((Some JNull, None), w') \<Longrightarrow>
   eth_get_block_by_number fetch h w = ((zero_block_response, None), w')"
  by (simp add: eth_get_block_by_number_def unmarshal_def)

lemma to_watcher_zero [simp]: "to_watcher_block zero_block_response = zero_block"
  by (simp add: to_watcher_block_def zero_block_response_def zero_block_def)

text \<open>A node that always answers with the same head and with \<^verbatim>\<open>null\<close> for every block.\<close>

definition canned_node :: "hex \<Rightarrow> unit rpc" where
  "canned_node head method params w =
     (if method = ''eth_blockNumber'' then ((Some (JStr head), None), w) else ((Some JNull, None), w))"

lemma canned_node_latest:
  "validate_hex head = None \<Longrightarrow> eth_get_latest_block_number (canned_node head) w = ((head, None), ())"
  by (simp add: eth_get_latest_block_number_def canned_node_def unmarshal_def hex_unmarshal_def)

lemma validate_hex_of: "0 \<le> i \<Longrightarrow> i < 2 ^ 63 \<Longrightarrow> validate_hex (hex_of i) = None"
proof -
  assume "0 \<le> i" "i < 2 ^ 63"
  then have "sint (word_of_int i :: int64) = i" by (intro sint_of_int64) simp_all
  moreover have "nat i < 2 ^ 64" using \<open>i < 2 ^ 63\<close> by (simp add: nat_less_iff)
  ultimately show ?thesis
    using \<open>0 \<le> i\<close> by (simp add: validate_hex_def has_prefix_def hex_from_int_nonneg parse_uint_fmt_hex)
qed

lemma canned_node_monotone:
  "0 \<le> i \<Longrightarrow> i < 2 ^ 63 - 1 \<Longrightarrow>
   monotone_head (eth_get_latest_block_number (canned_node (hex_of i))) get_block (\<lambda>_. i)"
  by (simp add: monotone_head_def canned_node_latest validate_hex_of)

section \<open>Properties\<close>

text \<open>
  One poll is complete. When the node reports a latest height that is a larger string than
  the start height and below the largest \<^verbatim>\<open>int64\<close>, \<^verbatim>\<open>pollNewBlocks\<close> returns, has sent one event for
  every height from the start to the latest, in order, each with exactly what the fetch of that
  height gave (block and error), and the next start is the latest height plus one.
\<close>

theorem eth_poll_complete:
  assumes "eth_get_latest_block_number fetch w = ((latest, None), w1)"
    and "hex_int latest = Val l" "sint l < 2 ^ 63 - 1"
    and "hex_int frm = Val v" "frm < latest"
  shows "\<exists>evs w2. eth_poll_new_blocks fetch frm w = Some (Val (evs, hex_from_int (l + 1), w2)) \<and>
           map ev_height evs = heights_upto frm (sint v) (sint l) \<and>
           list_all (honest_event (eth_get_block fetch)) evs"
  unfolding eth_poll_new_blocks_def using assms by (rule eth.poll_complete)

theorem eth_poll_complete_witness:
  "\<exists>evs w2. eth_poll_new_blocks (canned_node ''0x3'') ''0x1'' () = Some (Val (evs, hex_from_int (3 + 1), w2)) \<and>
     map ev_height evs = heights_upto ''0x1'' (sint (1 :: int64)) (sint (3 :: int64)) \<and>
     list_all (honest_event (eth_get_block (canned_node ''0x3''))) evs"
proof (rule eth_poll_complete)
  show "eth_get_latest_block_number (canned_node ''0x3'') () = ((''0x3'', None), ())"
    by (rule canned_node_latest) (simp add: validate_hex_def has_prefix_def parse_uint_def hexval_def)
  show "hex_int ''0x3'' = Val 3" "hex_int ''0x1'' = Val 1"
    by (simp_all add: hex_int_def parse_magnitude_def parse_uint_def hexval_def)
  show "''0x1'' < ''0x3''" by (simp add: less_char_def)
qed simp



text \<open>
  C34. The comparison of heights as strings stalls a subscription. If the start height has more
  than the latest height's leading digit but fewer digits, it is numerically below the latest
  height and the poll still sends nothing and leaves the start where it is; from \<^verbatim>\<open>0xff\<close>, say, at
  every head from \<^verbatim>\<open>0x100\<close> to \<^verbatim>\<open>0xeff\<close>.
\<close>

theorem eth_poll_stalls:
  assumes "eth_get_latest_block_number fetch w = ((hex_from_int l, None), w1)"
    and "a * 16 ^ k \<le> nat (sint v)" "nat (sint v) < (a + 1) * 16 ^ k"
    and "b * 16 ^ m \<le> nat (sint l)" "nat (sint l) < (b + 1) * 16 ^ m"
    and "1 \<le> b" "b < a" "a < 16" "k < m"
  shows "sint v < sint l \<and>
         eth_poll_new_blocks fetch (hex_from_int v) w = Some (Val ([], hex_from_int v, w1))"
proof -
  have "(a + 1) * 16 ^ k \<le> 16 * 16 ^ k" using \<open>a < 16\<close> by simp
  also have "\<dots> \<le> 16 ^ m" using \<open>k < m\<close> power_increasing [of "Suc k" m "16 :: nat"] by simp
  also have "\<dots> \<le> b * 16 ^ m" using \<open>1 \<le> b\<close> by simp
  finally have "nat (sint v) < nat (sint l)" using assms by linarith
  moreover have "hex_from_int l \<le> hex_from_int v"
    by (rule less_imp_le [OF hex_from_int_hd_less [OF assms(2-8)]])
  ultimately show ?thesis
    using eth.poll_caught_up [OF assms(1)] by (simp add: eth_poll_new_blocks_def)
qed

theorem eth_poll_stalls_witness:
  "sint (255 :: int64) < sint (256 :: int64) \<and>
   eth_poll_new_blocks (canned_node (hex_from_int 256)) (hex_from_int 255) () = Some (Val ([], hex_from_int 255, ()))"
proof (rule eth_poll_stalls [where a = 15 and k = 1 and b = 1 and m = 2])
  show "eth_get_latest_block_number (canned_node (hex_from_int 256)) () = ((hex_from_int 256, None), ())"
    using validate_hex_of [of 256] by (intro canned_node_latest) simp
qed simp_all

text \<open>
  C35. A node that reports the largest \<^verbatim>\<open>int64\<close> (or any valid larger value, which reads as it)
  makes the poll run for ever: the loop counter wraps and never passes the bound.
\<close>

theorem eth_poll_diverges:
  assumes "eth_get_latest_block_number fetch w = ((latest, None), w1)"
    and "hex_int latest = Val l" "sint l = 2 ^ 63 - 1" "2 \<le> length frm" "frm < latest"
  shows "eth_poll_new_blocks fetch frm w = None"
  unfolding eth_poll_new_blocks_def using assms by (rule eth.poll_diverges)

theorem eth_poll_diverges_witness:
  "eth_poll_new_blocks (canned_node ''0xffffffffffffffff'') ''0x1'' () = None"
proof (rule eth_poll_diverges)
  show "eth_get_latest_block_number (canned_node ''0xffffffffffffffff'') () = ((''0xffffffffffffffff'', None), ())"
    by (rule canned_node_latest) (simp add: validate_hex_def has_prefix_def parse_uint_def hexval_def)
  show "hex_int ''0xffffffffffffffff'' = Val (2 ^ 63 - 1)"
    by (simp add: hex_int_def parse_magnitude_def parse_uint_def hexval_def)
  show "''0x1'' < ''0xffffffffffffffff''" by (simp add: less_char_def)
qed simp_all

text \<open>
  A block the node does not have. The node answers \<^verbatim>\<open>null\<close> for an unknown block; the decoder
  leaves the zero response in place, so \<^verbatim>\<open>FetchBlockByHeight\<close> succeeds with a block whose height and
  hash are empty strings, at every height.
\<close>

theorem eth_fetch_null_block:
  assumes "fetch ''eth_getBlockByNumber'' [hex_marshal h, JBool True] w = ((Some JNull, None), w')"
  shows "eth_fetch_block_by_height fetch h w = ((zero_block, None), w')"
  using eth_get_block_by_number_null [of fetch h w w'] assms by (simp add: eth_fetch_block_by_height_def)

theorem eth_fetch_null_block_witness:
  "eth_fetch_block_by_height (canned_node ''0x3'') ''0x9'' () = ((zero_block, None), ())"
  by (rule eth_fetch_null_block) (simp add: canned_node_def)

end
