(* ===== verification/Streaming.thy ===== *)
theory Streaming
  imports Pipeline_Props Ethereum Storage_Postgres "HOL-Library.Sublist"
begin

text \<open>
  A client, the running service and the checkpoint storage together: what the consumer of the output
  channel receives of a network over a run without retry, and over a run and the one after it. The client is the polling
  loop of theory \<open>Poller\<close>, of which the service may have received any prefix of the events; the
  goroutines are those of \<open>Pipeline\<close>; the storage is any that keeps the contract of \<open>Checkpoints\<close>.
\<close>

section \<open>Heights as numbers\<close>

definition height_num :: "hex \<Rightarrow> int" where
  "height_num h = (case hex_int h of Val v \<Rightarrow> sint v | Panic \<Rightarrow> 0)"

definition block_num :: "observed_block \<Rightarrow> int" where
  "block_num b = height_num (blk_height (ob_block b))"

text \<open>The heights of a network that the consumer received, in the order of delivery.\<close>

definition delivered_nums :: "string \<Rightarrow> cs_state \<Rightarrow> int list" where
  "delivered_nums n s = map block_num (of_net n (st_delivered s))"

definition failed_nums :: "string \<Rightarrow> cs_state \<Rightarrow> int list" where
  "failed_nums n s = map (height_num \<circ> snd) (failed_keys n (st_emitted s n))"

lemma height_num_hex_of [simp]: "0 \<le> i \<Longrightarrow> i < 2 ^ 63 \<Longrightarrow> height_num (hex_of i) = i"
  by (simp add: height_num_def hex_int_hex_of)

section \<open>A client and its node\<close>

text \<open>
  Up to now the service received \<open>emitted\<close> from a subscription that began at height \<open>i\<close> of a
  node in state \<open>w\<close>: a prefix of what some number of polling rounds sends.
\<close>

definition subscribed_at :: "'w latest_fn \<Rightarrow> 'w block_fn \<Rightarrow> int \<Rightarrow> 'w \<Rightarrow> blockchain_event list \<Rightarrow> bool" where
  "subscribed_at get_latest get_block i w emitted \<longleftrightarrow>
     (\<exists>r evs nxt w'. subscribe_rounds get_latest get_block r (hex_of i) w = Some (Val (evs, nxt, w')) \<and>
        prefix emitted evs)"

text \<open>The documented behaviour of a node: a block that it returns has the height it was asked for.\<close>

definition right_blocks :: "'w block_fn \<Rightarrow> bool" where
  "right_blocks get_block \<longleftrightarrow> (\<forall>h w b w'. get_block h w = ((b, None), w') \<longrightarrow> blk_height b = h)"

text \<open>What follows for the events: consecutive heights from \<open>i\<close>, and blocks of these heights.\<close>

definition consecutive :: "int \<Rightarrow> blockchain_event list \<Rightarrow> bool" where
  "consecutive i evs \<longleftrightarrow>
     (\<exists>j. 0 \<le> i \<and> j < 2 ^ 63 - 1 \<and> map ev_height evs = map hex_of [i..j]) \<and>
     (\<forall>ev \<in> set evs. ev_err ev = None \<longrightarrow> blk_height (ev_block ev) = ev_height ev)"

lemma prefix_upto: "prefix xs [i..j :: int] \<Longrightarrow> \<exists>k \<le> j. xs = [i..k]"
proof (induction xs arbitrary: i)
  case Nil
  then show ?case by (intro exI [of _ "min j (i - 1)"]) auto
next
  case (Cons x xs)
  then have ij: "i \<le> j" "x = i" and "prefix xs [i + 1..j]"
    by (simp_all add: upto.simps [of i j] split: if_splits)
  with Cons.IH obtain k where "k \<le> j" "xs = [i + 1..k]" by blast
  with ij show ?case by (intro exI [of _ "max i k"]) (auto simp: upto.simps [of i] max_def)
qed


context block_source
begin

lemma subscribed_consecutive:
  assumes node: "monotone_head get_latest get_block head" "right_blocks get_block"
    and i: "0 \<le> i" "i \<le> head w + 1" and sub: "subscribed_at get_latest get_block i w emitted"
  shows "consecutive i emitted"
proof -
  obtain r evs nxt w' where evs: "rounds r (hex_of i) w = Some (Val (evs, nxt, w'))" "prefix emitted evs"
    using sub by (auto simp: subscribed_at_def)
  with rounds_exactly_once [OF node(1) i, of r] obtain j where
    j: "j \<le> head w' + 1" "map ev_height evs = map hex_of [i..j - 1]" "list_all (honest_event get_block) evs"
    by auto
  from map_mono_prefix [OF evs(2), of ev_height] j(2) obtain zs where
    zs: "prefix zs [i..j - 1]" "map ev_height emitted = map hex_of zs"
    by (metis prefix_map_rightE)
  with prefix_upto obtain k where "k \<le> j - 1" "zs = [i..k]" by blast
  moreover have "head w' < 2 ^ 63 - 1" using node(1) by (simp add: monotone_head_def)
  moreover have "blk_height (ev_block ev) = ev_height ev" if "ev \<in> set emitted" "ev_err ev = None" for ev
  proof -
    have "honest_event get_block ev" using that(1) set_mono_prefix [OF evs(2)] j(3) by (auto simp: list_all_iff)
    with that(2) node(2) show ?thesis by (auto simp: honest_event_def right_blocks_def)
  qed
  ultimately show ?thesis using i(1) j(1) zs(2) by (auto simp: consecutive_def intro!: exI [of _ k])
qed

end

section \<open>The service behind it\<close>

text \<open>The good blocks of consecutive events: ascending, and what is missing between them had failed.\<close>

lemma consecutive_nums:
  assumes "consecutive i evs"
  obtains j where "map (height_num \<circ> ev_height) evs = [i..j]" "0 \<le> i" "j < 2 ^ 63 - 1"
    "\<And>ev. ev \<in> set evs \<Longrightarrow> ev_height ev = hex_of (height_num (ev_height ev))"
proof -
  obtain j where j: "0 \<le> i" "j < 2 ^ 63 - 1" "map ev_height evs = map hex_of [i..j]"
    using assms by (auto simp: consecutive_def)
  have "map (height_num \<circ> ev_height) evs = map height_num (map hex_of [i..j])"
    by (simp add: j(3) [symmetric])
  also have "\<dots> = [i..j]" unfolding map_map by (rule map_idI) (use j(1,2) in auto)
  finally have nums: "map (height_num \<circ> ev_height) evs = [i..j]" .
  have "ev_height ev = hex_of (height_num (ev_height ev))" if "ev \<in> set evs" for ev
  proof -
    have "ev_height ev \<in> hex_of ` {i..j}" using that arg_cong [OF j(3), of set] by auto
    then show ?thesis using j(1,2) by auto
  qed
  with nums j that show thesis by blast
qed

lemma ok_blocks_nums:
  assumes "consecutive i evs"
  shows "map block_num (ok_blocks n evs) =
           map (height_num \<circ> ev_height) (filter (\<lambda>ev. ev_err ev = None) evs)"
    and "map block_key (ok_blocks n evs) = map (\<lambda>x. (n, hex_of x)) (map block_num (ok_blocks n evs))"
proof -
  have right: "blk_height (ev_block ev) = ev_height ev" if "ev \<in> set evs" "ev_err ev = None" for ev
    using assms that by (simp add: consecutive_def)
  then show nums: "map block_num (ok_blocks n evs) =
           map (height_num \<circ> ev_height) (filter (\<lambda>ev. ev_err ev = None) evs)"
    by (simp add: ok_blocks_def block_num_def)
  obtain j where "\<And>ev. ev \<in> set evs \<Longrightarrow> ev_height ev = hex_of (height_num (ev_height ev))"
    using consecutive_nums [OF assms] by blast
  with right show "map block_key (ok_blocks n evs) = map (\<lambda>x. (n, hex_of x)) (map block_num (ok_blocks n evs))"
    unfolding nums by (simp add: ok_blocks_def block_key_def)
qed

lemma ok_blocks_ascending:
  assumes "consecutive i evs"
  shows "sorted_wrt (<) (map block_num (ok_blocks n evs))"
    and "x \<in> set (map block_num (ok_blocks n evs)) \<Longrightarrow> 0 \<le> i \<and> i \<le> x \<and> x < 2 ^ 63 - 1"
    and "y \<in> set (map block_num (ok_blocks n evs)) \<Longrightarrow> i \<le> z \<Longrightarrow> z < y \<Longrightarrow>
      z \<in> set (map block_num (ok_blocks n evs)) \<or> z \<in> set (map (height_num \<circ> snd) (failed_keys n evs))"
proof -
  obtain j where j: "map (height_num \<circ> ev_height) evs = [i..j]" "0 \<le> i" "j < 2 ^ 63 - 1"
    using consecutive_nums [OF assms] by blast
  have "sorted_wrt (<) (map (height_num \<circ> ev_height) evs)" by (simp add: j(1))
  then show "sorted_wrt (<) (map block_num (ok_blocks n evs))"
    unfolding ok_blocks_nums(1) [OF assms] sorted_wrt_map by (rule sorted_wrt_filter)
  have set: "(\<lambda>ev. height_num (ev_height ev)) ` set evs = {i..j}"
    using arg_cong [OF j(1), of set] by (simp add: comp_def)
  have le: "i \<le> x \<and> x \<le> j" if "x \<in> set (map block_num (ok_blocks n evs))" for x
    using that set by (auto simp: ok_blocks_nums(1) [OF assms] comp_def)
  with j(2,3) show "x \<in> set (map block_num (ok_blocks n evs)) \<Longrightarrow> 0 \<le> i \<and> i \<le> x \<and> x < 2 ^ 63 - 1"
    by force
  assume "y \<in> set (map block_num (ok_blocks n evs))" "i \<le> z" "z < y"
  with le have "z \<in> {i..j}" by force
  with set obtain ev where "ev \<in> set evs" "z = height_num (ev_height ev)" by (metis imageE)
  then show "z \<in> set (map block_num (ok_blocks n evs)) \<or> z \<in> set (map (height_num \<circ> snd) (failed_keys n evs))"
    by (cases "ev_err ev") (auto simp: ok_blocks_nums(1) [OF assms] failed_keys_def)
qed

text \<open>Of a network with consecutive events, delivery and checkpoints follow the ascending heights.\<close>

lemma delivered_ascending:
  assumes "cs_reachable P has_retry cap s" and "st_retry_ch s = None" and "consecutive i (st_emitted s n)"
  obtains extra where "sorted_wrt (<) (delivered_nums n s @ extra)"
    "keys_of_net n (st_saved s) = map (\<lambda>x. (n, hex_of x)) (delivered_nums n s @ extra)"
    "\<And>x. x \<in> set (delivered_nums n s @ extra) \<Longrightarrow> 0 \<le> i \<and> i \<le> x \<and> x < 2 ^ 63 - 1"
    "\<And>y z. y \<in> set (delivered_nums n s) \<Longrightarrow> i \<le> z \<Longrightarrow> z < y \<Longrightarrow>
       z \<in> set (delivered_nums n s) \<or> z \<in> set (failed_nums n s)"
proof -
  obtain out rest where line: "of_net n (st_delivered s) @ out @ rest = ok_blocks n (st_emitted s n)"
    and saved: "keys_of_net n (st_saved s) = map block_key (of_net n (st_delivered s) @ out)"
    using delivered_in_line [OF assms(1,2), of n] by blast
  let ?d = "delivered_nums n s" and ?o = "map block_num out" and ?r = "map block_num rest"
  note ok = ok_blocks_nums [where n = n, OF assms(3), folded line]
    ok_blocks_ascending [where n = n, OF assms(3), folded line]
  have split: "map block_num (of_net n (st_delivered s) @ out @ rest) = ?d @ ?o @ ?r"
    by (simp add: delivered_nums_def)
  note ok = ok(2-) [unfolded split]
  have asc: "sorted_wrt (<) (?d @ ?o @ ?r)" using ok(2) .
  show thesis
  proof (rule that [of ?o])
    show "sorted_wrt (<) (?d @ ?o)" using asc by (auto simp: sorted_wrt_append)
    show "keys_of_net n (st_saved s) = map (\<lambda>x. (n, hex_of x)) (?d @ ?o)"
      using ok(1) by (simp add: saved)
    show "0 \<le> i \<and> i \<le> x \<and> x < 2 ^ 63 - 1" if "x \<in> set (?d @ ?o)" for x
      using ok(3) [of x] that by auto
    show "z \<in> set ?d \<or> z \<in> set (failed_nums n s)" if "y \<in> set ?d" "i \<le> z" "z < y" for y z
    proof -
      have "\<forall>b \<in> set (?o @ ?r). y < b" using asc that(1) unfolding sorted_wrt_append [of _ ?d] by blast
      with that(3) have "z \<notin> set (?o @ ?r)" by (meson less_asym)
      with ok(4) [of y z] that show ?thesis by (auto simp: failed_nums_def)
    qed
  qed
qed

section \<open>The checkpoint log of a run\<close>

definition num_log :: "cs_state \<Rightarrow> (string \<times> int) list" where
  "num_log s = map (\<lambda>(m, g). (m, height_num g)) (st_saved s)"

lemma saved_registered:
  assumes "cs_reachable P has_retry cap s" and "st_retry_ch s = None" and "(m, g) \<in> set (st_saved s)"
  shows "m \<in> set (p_networks P)"
proof (rule ccontr)
  assume "m \<notin> set (p_networks P)"
  then have "st_emitted s m = []" by (rule emitted_registered [OF assms(1)])
  with delivered_in_line [OF assms(1,2), of m] have "keys_of_net m (st_saved s) = []" by auto
  moreover have "(m, g) \<in> set (keys_of_net m (st_saved s))" using assms(3) by (simp add: keys_of_net_def)
  ultimately show False by simp
qed

lemma log_of_num_log:
  assumes "inj_on norm N" and "fst ` set (st_saved s) \<subseteq> N" and "n \<in> N" and "norm m = norm n"
  shows "log_of norm m (num_log s) = map (height_num \<circ> snd) (keys_of_net n (st_saved s))"
proof -
  have "filter (\<lambda>k. norm (fst k) = norm n) (st_saved s) = filter (\<lambda>k. fst k = n) (st_saved s)"
    using assms(1-3) by (intro filter_cong) (auto dest: inj_onD)
  then show ?thesis
    using assms(4) by (simp add: log_of_def num_log_def keys_of_net_def filter_map comp_def case_prod_beta)
qed

text \<open>A run without retry, of which every network's events are consecutive from \<open>i\<close>.\<close>

definition fresh_run :: "cs_params \<Rightarrow> (string \<Rightarrow> int) \<Rightarrow> cs_state \<Rightarrow> bool" where
  "fresh_run P i s \<longleftrightarrow>
     (\<exists>has_retry cap. cs_reachable P has_retry cap s) \<and> st_retry_ch s = None \<and>
     (\<forall>m \<in> set (p_networks P). consecutive (i m) (st_emitted s m))"

lemma fresh_run_keys:
  assumes "fresh_run P i s" and "m \<in> set (p_networks P)"
  obtains xs where "keys_of_net m (st_saved s) = map (\<lambda>x. (m, hex_of x)) xs" "sorted_wrt (<) xs"
    "\<And>x. x \<in> set xs \<Longrightarrow> 0 \<le> x \<and> i m \<le> x \<and> x < 2 ^ 63 - 1"
    "map (height_num \<circ> snd) (keys_of_net m (st_saved s)) = xs" "prefix (delivered_nums m s) xs"
proof -
  obtain has_retry cap where r: "cs_reachable P has_retry cap s" "st_retry_ch s = None"
    "consecutive (i m) (st_emitted s m)"
    using assms by (auto simp: fresh_run_def)
  show thesis
  proof (rule delivered_ascending [OF r])
    fix extra
    assume e: "sorted_wrt (<) (delivered_nums m s @ extra)"
      "keys_of_net m (st_saved s) = map (\<lambda>x. (m, hex_of x)) (delivered_nums m s @ extra)"
      "\<And>x. x \<in> set (delivered_nums m s @ extra) \<Longrightarrow> 0 \<le> i m \<and> i m \<le> x \<and> x < 2 ^ 63 - 1"
    have in_range: "0 \<le> x \<and> i m \<le> x \<and> x < 2 ^ 63 - 1" if "x \<in> set (delivered_nums m s @ extra)" for x
      using e(3) [OF that] by linarith
    have "height_num (hex_of x) = x" if "x \<in> set (delivered_nums m s @ extra)" for x
      using in_range [OF that] by simp
    then have "map (height_num \<circ> snd) (keys_of_net m (st_saved s)) = delivered_nums m s @ extra"
      unfolding e(2) map_map by (intro map_idI) simp
    from that [OF e(2,1) in_range this] show thesis by simp
  qed
qed

lemma fresh_run_log:
  assumes run: "fresh_run P i s" and inj: "inj_on norm (set (p_networks P))"
  shows "hex_log (num_log s) = st_saved s" and "ascending_log norm (num_log s)"
    and "m \<in> set (log_of norm n (num_log s)) \<Longrightarrow>
      \<exists>n' \<in> set (p_networks P). norm n' = norm n \<and> i n' \<le> m"
proof -
  let ?N = "set (p_networks P)"
  have reg: "fst ` set (st_saved s) \<subseteq> ?N"
    using run saved_registered by (fastforce simp: fresh_run_def)
  have key: "0 \<le> height_num g \<and> height_num g < 2 ^ 63 - 1 \<and> hex_of (height_num g) = g"
    if "(k, g) \<in> set (st_saved s)" for k g
  proof -
    have k: "k \<in> ?N" using that reg by force
    then obtain xs where xs: "keys_of_net k (st_saved s) = map (\<lambda>x. (k, hex_of x)) xs"
      "\<And>x. x \<in> set xs \<Longrightarrow> 0 \<le> x \<and> i k \<le> x \<and> x < 2 ^ 63 - 1"
      using fresh_run_keys [OF run] by blast
    have "(k, g) \<in> set (keys_of_net k (st_saved s))" using that by (simp add: keys_of_net_def)
    then obtain x where "x \<in> set xs" "g = hex_of x" by (auto simp: xs(1))
    with xs(2) [of x] show ?thesis by simp
  qed
  show "hex_log (num_log s) = st_saved s"
    unfolding hex_log_def num_log_def map_map by (rule map_idI) (use key in auto)
  have log: "\<exists>n' \<in> ?N. norm n' = norm n \<and>
      log_of norm n (num_log s) = map (height_num \<circ> snd) (keys_of_net n' (st_saved s))"
    if ne: "log_of norm n (num_log s) \<noteq> []" for n
  proof -
    obtain k x where "(k, x) \<in> set (num_log s)" "norm k = norm n"
      using ne by (auto simp: log_of_def filter_empty_conv)
    then obtain g where "(k, g) \<in> set (st_saved s)" "norm k = norm n" by (auto simp: num_log_def)
    moreover from this(1) reg have "k \<in> ?N" by force
    ultimately show ?thesis using log_of_num_log [OF inj reg, of k n] by metis
  qed
  have sorted: "sorted (log_of norm n (num_log s))" for n
  proof (cases "log_of norm n (num_log s) = []")
    case False
    with log obtain n' where n': "n' \<in> ?N"
      "log_of norm n (num_log s) = map (height_num \<circ> snd) (keys_of_net n' (st_saved s))" by blast
    obtain xs where "sorted_wrt (<) xs" "map (height_num \<circ> snd) (keys_of_net n' (st_saved s)) = xs"
      using fresh_run_keys [OF run n'(1)] by blast
    with n'(2) show ?thesis by (simp add: strict_sorted_imp_sorted)
  qed simp
  with key show "ascending_log norm (num_log s)" by (auto simp: ascending_log_def heights_log_def num_log_def)
  assume m: "m \<in> set (log_of norm n (num_log s))"
  then obtain n' where n': "n' \<in> ?N" "norm n' = norm n"
    "log_of norm n (num_log s) = map (height_num \<circ> snd) (keys_of_net n' (st_saved s))"
    using log by (metis empty_iff list.set(1))
  obtain xs where xs: "\<And>x. x \<in> set xs \<Longrightarrow> 0 \<le> x \<and> i n' \<le> x \<and> x < 2 ^ 63 - 1"
    "map (height_num \<circ> snd) (keys_of_net n' (st_saved s)) = xs"
    using fresh_run_keys [OF run n'(1)] by blast
  with m n' show "\<exists>n' \<in> ?N. norm n' = norm n \<and> i n' \<le> m" by metis
qed

section \<open>A restart\<close>

context checkpoint_store
begin

text \<open>The next \<^verbatim>\<open>Start\<close> subscribes behind everything that was saved, so behind what was delivered.\<close>

lemma resume_behind_run:
  assumes run: "fresh_run P i s" and inj: "inj_on norm (set (p_networks P))"
    and above: "\<And>m n' j. n' \<in> set (p_networks P) \<Longrightarrow> norm n' = norm m \<Longrightarrow> latest w m = Some j \<Longrightarrow> j \<le> i n'"
    and save: "save_log store (st_saved s) w = Val (True, w')"
    and n: "n \<in> set (p_networks P)" and load: "cks_load store n w' = ((h, None), w'')"
    and start: "start_height h = Val (hex_of k)" "0 \<le> k" "k < 2 ^ 63"
  shows "\<forall>x \<in> set (delivered_nums n s). x < k"
proof -
  note log = fresh_run_log [OF run inj]
  obtain xs where xs: "sorted_wrt (<) xs" "\<And>x. x \<in> set xs \<Longrightarrow> 0 \<le> x \<and> i n \<le> x \<and> x < 2 ^ 63 - 1"
    "map (height_num \<circ> snd) (keys_of_net n (st_saved s)) = xs" "prefix (delivered_nums n s) xs"
    using fresh_run_keys [OF run n] by blast
  have "fst ` set (st_saved s) \<subseteq> set (p_networks P)"
    using run saved_registered by (fastforce simp: fresh_run_def)
  then have log_n: "log_of norm n (num_log s) = xs"
    using log_of_num_log [OF inj _ n refl] xs(3) by simp
  show ?thesis
  proof (cases "xs = []")
    case True
    with xs(4) show ?thesis by simp
  next
    case False
    have "\<forall>x \<in> set (log_of norm n (num_log s)). j \<le> x" if "latest w n = Some j" for j
      using log(3) above [OF _ _ that] by (meson order_trans)
    moreover have "sorted (log_of norm n (num_log s))" and heights: "heights_log (num_log s)"
      using log(2) by (auto simp: ascending_log_def)
    ultimately have "kept_all (log_of norm n (num_log s)) (latest w n) = Some (last xs)"
      using kept_all_ascending [of "log_of norm n (num_log s)" "latest w n"] False log_n by simp
    with resume_behind [OF save [folded log(1)] heights _ _ _ load] xs(2) [OF last_in_set [OF False]]
    have "hex_of k = hex_of (last xs + 1)" using start(1) by simp
    moreover have l: "0 \<le> last xs + 1" "last xs + 1 < 2 ^ 63" using xs(2) [OF last_in_set [OF False]] by simp_all
    ultimately have "k = last xs + 1" using start(2,3) height_num_hex_of by metis
    moreover have "x \<le> last xs" if "x \<in> set xs" for x
      using strict_sorted_imp_sorted [OF xs(1)] that by (rule sorted_le_last)
    ultimately show ?thesis using set_mono_prefix [OF xs(4)] by fastforce
  qed
qed

end

section \<open>Ethereum clients\<close>

text \<open>
  The nodes of the registered networks: heads that never move back, and the blocks asked for. A run
  of the service on them without retry, whose subscriptions began at the heights \<open>i\<close>.
\<close>

definition healthy_nodes :: "cs_params \<Rightarrow> (string \<Rightarrow> 'w rpc) \<Rightarrow> (string \<Rightarrow> 'w \<Rightarrow> int) \<Rightarrow> bool" where
  "healthy_nodes P fetch head \<longleftrightarrow>
     (\<forall>m \<in> set (p_networks P).
        monotone_head (eth_get_latest_block_number (fetch m)) (eth_get_block (fetch m)) (head m) \<and>
        right_blocks (eth_get_block (fetch m)))"

definition eth_run ::
    "cs_params \<Rightarrow> (string \<Rightarrow> 'w rpc) \<Rightarrow> (string \<Rightarrow> 'w \<Rightarrow> int) \<Rightarrow> (string \<Rightarrow> int) \<Rightarrow> (string \<Rightarrow> 'w) \<Rightarrow>
     cs_state \<Rightarrow> bool" where
  "eth_run P fetch head i v s \<longleftrightarrow>
     (\<exists>cap. cs_reachable P False cap s) \<and>
     (\<forall>m \<in> set (p_networks P). 0 \<le> i m \<and> i m \<le> head m (v m) + 1 \<and>
        subscribed_at (eth_get_latest_block_number (fetch m)) (eth_get_block (fetch m))
          (i m) (v m) (st_emitted s m))"

lemma eth_run_fresh: "healthy_nodes P fetch head \<Longrightarrow> eth_run P fetch head i v s \<Longrightarrow> fresh_run P i s"
  unfolding fresh_run_def healthy_nodes_def eth_run_def by (blast intro: no_retry_channel eth.subscribed_consecutive)

text \<open>A node with the head \<open>i\<close> that has every block, each with the same transaction.\<close>

definition full_node_block :: "hex \<Rightarrow> cs_block" where
  "full_node_block h =
     \<lparr>blk_height = h, blk_hash = ''h'', blk_transactions = [\<lparr>ctx_hash = ''0x7'', ctx_from = ''0xa'', ctx_to = ''0xf''\<rparr>]\<rparr>"

definition full_node :: "int \<Rightarrow> unit rpc" where
  "full_node i method params w =
     (if method = ''eth_blockNumber'' then ((Some (JStr (hex_of i)), None), w)
      else ((Some (JObj [(''number'', hd params), (''hash'', JStr ''h''),
        (''transactions'', JArr [JObj [(''hash'', JStr ''0x7''), (''from'', JStr ''0xa''), (''to'', JStr ''0xf'')]])]),
        None), w))"

lemma full_node_latest:
  "0 \<le> i \<Longrightarrow> i < 2 ^ 63 \<Longrightarrow> eth_get_latest_block_number (full_node i) w = ((hex_of i, None), ())"
  by (simp add: eth_get_latest_block_number_def full_node_def unmarshal_def hex_unmarshal_def validate_hex_of)

lemma full_node_gives:
  "eth_get_block (full_node i) h w =
     (if validate_hex h = None then ((full_node_block h, None), w)
      else ((zero_block, validate_hex h), w))"
  by (auto simp: eth_get_block_def eth_get_block_by_number_def full_node_def unmarshal_def hex_marshal_def
      hex_unmarshal_def find_field_def block_response_fields_def field_def to_watcher_block_def
      zero_block_response_def zero_block_def first_err_def transaction_response_fields_def to_watcher_transaction_def
      zero_transaction_response_def full_node_block_def)

lemma full_node_healthy:
  assumes "0 \<le> i" and "i < 2 ^ 63 - 1"
  shows "healthy_nodes P (\<lambda>_. full_node i) (\<lambda>_ _. i)"
  using assms by (auto simp: healthy_nodes_def monotone_head_def right_blocks_def full_node_latest full_node_gives full_node_block_def
      split: if_splits)

definition full_node_event :: "int \<Rightarrow> blockchain_event" where
  "full_node_event a = \<lparr>ev_height = hex_of a, ev_block = full_node_block (hex_of a), ev_err = None\<rparr>"

lemma full_node_subscribed:
  assumes "0 \<le> a" "a < i" "i < 2 ^ 63 - 1" and "hex_of a < hex_of i"
  shows "subscribed_at (eth_get_latest_block_number (full_node i)) (eth_get_block (full_node i)) a ()
           [full_node_event a]"
proof -
  let ?block = "eth_get_block (full_node i)"
  have v: "hex_int (hex_of x) = Val (word_of_int x)" "sint (word_of_int x :: int64) = x" if "x \<in> {a, i}" for x
    using hex_int_hex_of [of x] that assms(1-3) by auto
  obtain evs w2 where
    poll: "poll_new_blocks (eth_get_latest_block_number (full_node i)) ?block (hex_of a) () =
      Some (Val (evs, hex_from_int (word_of_int i + 1), w2))"
    and evs: "map ev_height evs = heights_upto (hex_of a) a i" "list_all (honest_event ?block) evs"
    using eth.poll_complete [OF full_node_latest, of i "word_of_int i" "hex_of a"] v assms by auto
  from evs(1) have "map ev_height evs = hex_of a # map hex_of [a + 1..i]"
    using assms(2) by (simp add: heights_upto_def)
  then obtain ev evs' where ev: "evs = ev # evs'" "ev_height ev = hex_of a" by auto
  with evs(2) have "honest_event ?block ev" by simp
  then have "ev = full_node_event a"
    using ev(2) validate_hex_of [of a] assms(1-3)
    by (cases ev) (auto simp: honest_event_def full_node_gives full_node_event_def)
  moreover have "subscribe_rounds (eth_get_latest_block_number (full_node i)) ?block 1 (hex_of a) () =
      Some (Val (evs, hex_from_int (word_of_int i + 1), w2))"
    using poll by simp
  ultimately show ?thesis unfolding subscribed_at_def using ev(1) by fastforce
qed

section \<open>The runs of the witnesses\<close>

definition deliver_moves :: "blockchain_event \<Rightarrow> move list" where
  "deliver_moves ev =
     [MEmit eth_net ev, MDisp eth_net 0, MDisp eth_net 0, MCkpt 0, MCkpt 0, MCkpt 0, MConsume]"

lemma deliver_moves_end:
  assumes "ev_err ev = None"
  shows "\<exists>s. exec_moves (demo_params (Some [])) (deliver_moves ev) (cs_init False demo_cap) = Some s \<and>
       st_emitted s eth_net = [ev] \<and>
       st_delivered s = [\<lparr>ob_network = eth_net, ob_block = ev_block ev\<rparr>] \<and>
       st_saved s = [(eth_net, blk_height (ev_block ev))]"
  using assms
  by (simp add: deliver_moves_def demo_params_def cs_init_def demo_cap_def pick_def emit_steps_def
      disp_steps_def chflow_receive_def chflow_send_def dispatch_event_def set_disp_def ckpt_steps_def
      consume_steps_def make_chan_def observedBlockChannelBufferSize_def)

lemma full_node_run:
  assumes "0 \<le> a" "a < i" "i < 2 ^ 63 - 1" and "hex_of a < hex_of i"
  shows "\<exists>s. eth_run (demo_params (Some [])) (\<lambda>_. full_node i) (\<lambda>_ _. i) (\<lambda>_. a) (\<lambda>_. ()) s \<and>
           delivered_nums eth_net s = [a] \<and> st_saved s = [(eth_net, hex_of a)] \<and>
           st_delivered s = [\<lparr>ob_network = eth_net, ob_block = ev_block (full_node_event a)\<rparr>]"
proof -
  obtain s where s: "exec_moves (demo_params (Some [])) (deliver_moves (full_node_event a)) (cs_init False demo_cap) = Some s"
    "st_emitted s eth_net = [full_node_event a]"
    "st_delivered s = [\<lparr>ob_network = eth_net, ob_block = ev_block (full_node_event a)\<rparr>]"
    "st_saved s = [(eth_net, hex_of a)]"
    using deliver_moves_end [of "full_node_event a"] by (auto simp: full_node_event_def full_node_block_def)
  have "eth_run (demo_params (Some [])) (\<lambda>_. full_node i) (\<lambda>_ _. i) (\<lambda>_. a) (\<lambda>_. ()) s"
    using exec_from_init [OF s(1)] full_node_subscribed [OF assms] s(2) assms(1,2)
    by (auto simp: eth_run_def demo_params_def)
  moreover have "delivered_nums eth_net s = [a]"
    using assms(1-3) by (simp add: delivered_nums_def s(3) block_num_def full_node_event_def full_node_block_def)
  ultimately show ?thesis using s(3,4) by blast
qed

lemma pg_saved_once:
  assumes "0 \<le> i" "i < 2 ^ 63 - 1"
  shows "\<exists>w'. save_log pg_checkpoint_storage [(eth_net, hex_of i)] pg_empty = Val (True, w') \<and>
           pg_load_latest_checkpoint eth_net w' = ((hex_of i, None), w')"
  using hex_int_hex_of [of i] assms
  by (simp add: pg_checkpoint_storage_def pg_save_checkpoint_def insert_checkpoint_if_not_exists_def
      pg_load_latest_checkpoint_def get_latest_checkpoint_by_network_def pg_exec_def pg_empty_def Let_def)

section \<open>Properties\<close>

text \<open>
  C5. From the node to the consumer. A service without retry subscribes to healthy nodes: the heights
  that its consumer receives of a network ascend strictly, whatever the interleaving, also while it
  shuts down; and a height between the start of the subscription and a delivered one is
  missing only if the client reported that its fetch failed.
\<close>

theorem stream_ascending_gap_free:
  assumes "healthy_nodes P fetch head" and "eth_run P fetch head i v s" and "n \<in> set (p_networks P)"
  shows "sorted_wrt (<) (delivered_nums n s) \<and>
         (\<forall>y \<in> set (delivered_nums n s). \<forall>z. i n \<le> z \<and> z < y \<longrightarrow>
            z \<in> set (delivered_nums n s) \<or> z \<in> set (failed_nums n s))"
proof -
  obtain cap where "cs_reachable P False cap s" "st_retry_ch s = None" "consecutive (i n) (st_emitted s n)"
    using eth_run_fresh [OF assms(1,2)] assms(2,3) by (auto simp: fresh_run_def eth_run_def)
  then show ?thesis
    by (rule delivered_ascending) (auto simp: sorted_wrt_append)
qed

theorem stream_ascending_gap_free_witness:
  "\<exists>s. delivered_nums eth_net s = [1] \<and>
       (\<forall>y \<in> set (delivered_nums eth_net s). \<forall>z. 1 \<le> z \<and> z < y \<longrightarrow>
          z \<in> set (delivered_nums eth_net s) \<or> z \<in> set (failed_nums eth_net s))"
proof -
  have "hex_of 1 < hex_of 3" by code_simp
  then obtain s where s: "eth_run (demo_params (Some [])) (\<lambda>_. full_node 3) (\<lambda>_ _. 3) (\<lambda>_. 1) (\<lambda>_. ()) s"
    "delivered_nums eth_net s = [1]"
    using full_node_run [of 1 3] by auto
  have "eth_net \<in> set (p_networks (demo_params (Some [])))" by (simp add: demo_params_def)
  from stream_ascending_gap_free [OF full_node_healthy s(1) this] s(2) show ?thesis by auto
qed

text \<open>
  C4. A restart delivers nothing twice. Two runs without retry on healthy nodes, one after the other
  over the same Postgres: if all checkpoints of the first were saved, above what the database held, and the
  second subscribes where \<^verbatim>\<open>Start\<close> has it from the load, then the heights of a network over both
  runs ascend strictly. Each network of the configuration has one spelling. A block whose checkpoint
  was saved and that the shutdown dropped (theory \<open>Pipeline_Props\<close>) is in neither run.
\<close>

theorem restart_delivers_nothing_twice:
  assumes "healthy_nodes P fetch head" and "eth_run P fetch head i v s1" and "eth_run P fetch head k v' s2"
    and "inj_on to_upper (set (p_networks P))"
    and "\<And>m j. m \<in> set (p_networks P) \<Longrightarrow> pg_latest w m = Some j \<Longrightarrow> j \<le> i m"
    and "save_log pg_checkpoint_storage (st_saved s1) w = Val (True, w')"
    and "n \<in> set (p_networks P)" and "pg_load_latest_checkpoint n w' = ((h, None), w'')"
    and "start_height h = Val (hex_of (k n))"
  shows "sorted_wrt (<) (delivered_nums n s1 @ delivered_nums n s2)"
proof -
  note fresh = assms(2,3) [THEN eth_run_fresh [OF assms(1)]]
  obtain xs where xs: "sorted_wrt (<) xs" "prefix (delivered_nums n s1) xs"
    using fresh_run_keys [OF fresh(1) assms(7)] by blast
  obtain ys where ys: "sorted_wrt (<) ys" "\<And>y. y \<in> set ys \<Longrightarrow> 0 \<le> y \<and> k n \<le> y \<and> y < 2 ^ 63 - 1"
    "prefix (delivered_nums n s2) ys"
    using fresh_run_keys [OF fresh(2) assms(7)] by blast
  have "head n (v' n) < 2 ^ 63 - 1" using assms(1,7) by (simp add: healthy_nodes_def monotone_head_def)
  then have k: "0 \<le> k n" "k n < 2 ^ 63" using assms(3,7) by (auto simp: eth_run_def)
  have load: "cks_load pg_checkpoint_storage n w' = ((h, None), w'')"
    using assms(8) by (simp add: pg_checkpoint_storage_def)
  have "j \<le> i m'" if "m' \<in> set (p_networks P)" "to_upper m' = to_upper m" "pg_latest w m = Some j" for m m' j
    using assms(5) [OF that(1)] that(2,3) by (simp add: pg_latest_def)
  then have "\<forall>x \<in> set (delivered_nums n s1). x < k n"
    by (rule pg_ckpt.resume_behind_run [OF fresh(1) assms(4) _ assms(6,7) load assms(9) k])
  with xs ys show ?thesis
    by (fastforce simp: sorted_wrt_append prefix_def)
qed

theorem restart_delivers_nothing_twice_witness:
  "\<exists>s1 s2. delivered_nums eth_net s1 = [1] \<and> delivered_nums eth_net s2 = [2] \<and>
     sorted_wrt (<) (delivered_nums eth_net s1 @ delivered_nums eth_net s2)"
proof -
  have lt: "hex_of 1 < hex_of 3" "hex_of 2 < hex_of 3" by code_simp+
  obtain s1 where s1: "eth_run (demo_params (Some [])) (\<lambda>_. full_node 3) (\<lambda>_ _. 3) (\<lambda>_. 1) (\<lambda>_. ()) s1"
    "delivered_nums eth_net s1 = [1]" "st_saved s1 = [(eth_net, hex_of 1)]"
    using full_node_run [OF _ _ _ lt(1)] by auto
  obtain s2 where s2: "eth_run (demo_params (Some [])) (\<lambda>_. full_node 3) (\<lambda>_ _. 3) (\<lambda>_. 2) (\<lambda>_. ()) s2"
    "delivered_nums eth_net s2 = [2]"
    using full_node_run [OF _ _ _ lt(2)] by auto
  obtain w' where w': "save_log pg_checkpoint_storage (st_saved s1) pg_empty = Val (True, w')"
    "pg_load_latest_checkpoint eth_net w' = ((hex_of 1, None), w')"
    using pg_saved_once [of 1] s1(3) by auto
  have "sorted_wrt (<) (delivered_nums eth_net s1 @ delivered_nums eth_net s2)"
    by (rule restart_delivers_nothing_twice [OF full_node_healthy s1(1) s2(1) _ _ w'(1) _ w'(2)])
       (use start_behind [of 1] in \<open>simp_all add: demo_params_def pg_latest_def pg_empty_def\<close>)
  with s1(2) s2(2) show ?thesis by blast
qed

end
