(* ===== verification/Config.thy ===== *)
theory Config
  imports Walletregistry
begin

text \<open>
  \<^verbatim>\<open>internal/pkg/config\<close> and the custom rule of \<^verbatim>\<open>internal/pkg/validator\<close>. The libraries behind
  them are outside the repository: reading the environment is an argument of \<^verbatim>\<open>Load\<close>, and the tags
  of the structs are checked as they are documented (\<^verbatim>\<open>required\<close>, \<^verbatim>\<open>omitempty\<close>, \<^verbatim>\<open>oneof\<close>,
  \<^verbatim>\<open>required_without\<close>, \<^verbatim>\<open>excluded_with\<close>; the checks of a field end at its first error, and a struct
  is entered when those of its field pass). An error is a field with the tag it violates. Reflection
  is made explicit: a struct is the list of its fields (\<open>rfield\<close>).
\<close>

section \<open>The structs\<close>

record redis_cfg =
  rcf_address :: string
  rcf_username :: string
  rcf_password :: string
  rcf_db :: int

record postgres_cfg =
  pcf_dsn :: string

record storage_engines =
  se_redis :: "redis_cfg option"
  se_postgresql :: "postgres_cfg option"

record storage_inline =
  si_redis :: "redis_cfg option"
  si_postgresql :: "postgres_cfg option"

record storage_picker =
  sp_engine :: string
  sp_inline :: storage_inline

type_synonym redis_connection = redis_cfg

record rabbit_cfg =
  mcf_uri :: string

record redis_publisher =
  rp_stream :: string

record rabbit_publisher =
  mp_exchange :: string
  mp_routingKey :: string

record messaging_engines =
  me_redis :: "redis_connection option"
  me_rabbitmq :: "rabbit_cfg option"

record message_publisher =
  pb_redis :: "redis_publisher option"
  pb_rabbitmq :: "rabbit_publisher option"

record messaging_inline =
  mi_redis :: "redis_connection option"
  mi_rabbitmq :: "rabbit_cfg option"

record messaging_picker =
  mk_engine :: string
  mk_inline :: messaging_inline
  mk_publisher :: message_publisher

record engines =
  en_storage :: storage_engines
  en_messaging :: messaging_engines

record retry_cfg =
  ycf_attempts :: nat
  ycf_delay :: int
  ycf_maxDelay :: int

record http_cfg =
  hcf_timeout :: int
  hcf_retryWaitMin :: int
  hcf_retryWaitMax :: int
  hcf_retryMax :: int

record jsonrpc_cfg =
  jcf_http :: http_cfg
  jcf_endpoint :: string

record networks_cfg =
  ncf_ethereum :: "jsonrpc_cfg option"
  ncf_solana :: "jsonrpc_cfg option"

record registry_cfg =
  gcf_storage :: storage_picker

record walletwatch_cfg =
  wcf_maxProcessingTime :: int
  wcf_guard :: "storage_picker option"
  wcf_storage :: storage_picker
  wcf_notifier :: messaging_picker

record chainstream_cfg =
  scf_checkpoint :: "storage_picker option"
  scf_retry :: "retry_cfg option"
  scf_networks :: networks_cfg
  scf_notifier :: "messaging_picker option"

record config =
  cf_serviceName :: string
  cf_logLevel :: string
  cf_engines :: engines
  cf_walletregistry :: registry_cfg
  cf_walletwatch :: walletwatch_cfg
  cf_chainstream :: chainstream_cfg

definition EngineRedis :: string where "EngineRedis = ''REDIS''"
definition EnginePostgreSQL :: string where "EnginePostgreSQL = ''POSTGRESQL''"
definition EngineRabbitMQ :: string where "EngineRabbitMQ = ''RABBITMQ''"
definition ProviderEthereum :: string where "ProviderEthereum = ''ETHEREUM''"
definition ProviderSolana :: string where "ProviderSolana = ''SOLANA''"

section \<open>The rule required_alone\<close>

text \<open>A field of the parent struct: its name, whether it is exported, whether it is zero.\<close>

record sfield =
  sf_name :: string
  sf_exported :: bool
  sf_zero :: bool

fun others_empty :: "string \<Rightarrow> sfield list \<Rightarrow> bool" where
  "others_empty name [] = True"
| "others_empty name (f # fs) =
     (if sf_name f = name then others_empty name fs
      else if \<not> sf_exported f then others_empty name fs
      else if \<not> sf_zero f then False
      else others_empty name fs)"

definition required_alone_validator :: "string \<Rightarrow> bool \<Rightarrow> sfield list \<Rightarrow> bool" where
  "required_alone_validator name isZero parent = (if isZero then True else others_empty name parent)"

section \<open>The tags\<close>

type_synonym tag_errors = "(string \<times> string) list"

definition required :: "string \<Rightarrow> bool \<Rightarrow> tag_errors" where
  "required field zero = (if zero then [(field, ''required'')] else [])"

definition pointer_alone :: "string \<Rightarrow> ('a \<Rightarrow> tag_errors) \<Rightarrow> 'a option \<Rightarrow> sfield list \<Rightarrow> tag_errors" where
  "pointer_alone field dive p parent =
     (case p of
        None \<Rightarrow> []
      | Some v \<Rightarrow> if required_alone_validator field False parent then dive v else [(field, ''required_alone'')])"

definition pointer_omitempty :: "('a \<Rightarrow> tag_errors) \<Rightarrow> 'a option \<Rightarrow> tag_errors" where
  "pointer_omitempty dive p = (case p of None \<Rightarrow> [] | Some v \<Rightarrow> dive v)"

definition struct_required :: "string \<Rightarrow> bool \<Rightarrow> tag_errors \<Rightarrow> tag_errors" where
  "struct_required field zero dive = (if zero then [(field, ''required'')] else dive)"

text \<open>The field \<^verbatim>\<open>Engine\<close> and the embedded \<^verbatim>\<open>InlineConfig\<close> of a picker.\<close>

definition engine_tags :: "string list \<Rightarrow> string \<Rightarrow> bool \<Rightarrow> tag_errors" where
  "engine_tags names engine inlineZero =
     (if inlineZero \<and> engine = '''' then [(''Engine'', ''required_without'')]
      else if \<not> inlineZero \<and> engine \<noteq> '''' then [(''Engine'', ''excluded_with'')]
      else if engine = '''' then []
      else if engine \<notin> set names then [(''Engine'', ''oneof'')]
      else [])"

definition inline_tags :: "string \<Rightarrow> bool \<Rightarrow> tag_errors \<Rightarrow> tag_errors" where
  "inline_tags engine inlineZero dive =
     (if engine = '''' \<and> inlineZero then [(''InlineConfig'', ''required_without'')]
      else if engine \<noteq> '''' \<and> \<not> inlineZero then [(''InlineConfig'', ''excluded_with'')]
      else dive)"

definition check_redis :: "redis_cfg \<Rightarrow> tag_errors" where
  "check_redis c = required ''Address'' (rcf_address c = '''')"

definition check_postgresql :: "postgres_cfg \<Rightarrow> tag_errors" where
  "check_postgresql c = required ''DSN'' (pcf_dsn c = '''')"

definition check_rabbitmq :: "rabbit_cfg \<Rightarrow> tag_errors" where
  "check_rabbitmq c = required ''URI'' (mcf_uri c = '''')"

definition check_redis_publisher :: "redis_publisher \<Rightarrow> tag_errors" where
  "check_redis_publisher p = required ''Stream'' (rp_stream p = '''')"

definition check_rabbit_publisher :: "rabbit_publisher \<Rightarrow> tag_errors" where
  "check_rabbit_publisher p = required ''RoutingKey'' (mp_routingKey p = '''')"

definition storage_inline_zero :: "storage_inline \<Rightarrow> bool" where
  "storage_inline_zero i \<longleftrightarrow> si_redis i = None \<and> si_postgresql i = None"

definition check_storage_inline :: "storage_inline \<Rightarrow> tag_errors" where
  "check_storage_inline i =
     (let parent = [\<lparr>sf_name = ''Redis'', sf_exported = True, sf_zero = (si_redis i = None)\<rparr>,
                    \<lparr>sf_name = ''PostgreSQL'', sf_exported = True, sf_zero = (si_postgresql i = None)\<rparr>]
      in pointer_alone ''Redis'' check_redis (si_redis i) parent @
         pointer_alone ''PostgreSQL'' check_postgresql (si_postgresql i) parent)"

definition check_storage_picker :: "storage_picker \<Rightarrow> tag_errors" where
  "check_storage_picker p =
     engine_tags [EngineRedis, EnginePostgreSQL] (sp_engine p) (storage_inline_zero (sp_inline p)) @
     inline_tags (sp_engine p) (storage_inline_zero (sp_inline p)) (check_storage_inline (sp_inline p))"

definition storage_picker_zero :: "storage_picker \<Rightarrow> bool" where
  "storage_picker_zero p \<longleftrightarrow> sp_engine p = '''' \<and> storage_inline_zero (sp_inline p)"

definition messaging_inline_zero :: "messaging_inline \<Rightarrow> bool" where
  "messaging_inline_zero i \<longleftrightarrow> mi_redis i = None \<and> mi_rabbitmq i = None"

definition publisher_zero :: "message_publisher \<Rightarrow> bool" where
  "publisher_zero p \<longleftrightarrow> pb_redis p = None \<and> pb_rabbitmq p = None"

definition check_messaging_inline :: "messaging_inline \<Rightarrow> tag_errors" where
  "check_messaging_inline i =
     (let parent = [\<lparr>sf_name = ''Redis'', sf_exported = True, sf_zero = (mi_redis i = None)\<rparr>,
                    \<lparr>sf_name = ''RabbitMQ'', sf_exported = True, sf_zero = (mi_rabbitmq i = None)\<rparr>]
      in pointer_alone ''Redis'' check_redis (mi_redis i) parent @
         pointer_alone ''RabbitMQ'' check_rabbitmq (mi_rabbitmq i) parent)"

definition check_publisher :: "message_publisher \<Rightarrow> tag_errors" where
  "check_publisher p =
     (let parent = [\<lparr>sf_name = ''Redis'', sf_exported = True, sf_zero = (pb_redis p = None)\<rparr>,
                    \<lparr>sf_name = ''RabbitMQ'', sf_exported = True, sf_zero = (pb_rabbitmq p = None)\<rparr>]
      in pointer_alone ''Redis'' check_redis_publisher (pb_redis p) parent @
         pointer_alone ''RabbitMQ'' check_rabbit_publisher (pb_rabbitmq p) parent)"

section \<open>The struct-level rules\<close>

definition validate_picker_struct :: "messaging_picker \<Rightarrow> tag_errors" where
  "validate_picker_struct p =
     (if mk_engine p = EngineRedis \<or> mi_redis (mk_inline p) \<noteq> None then
        (if pb_redis (mk_publisher p) = None then [(''MessagePublisher.Redis'', ''required'')] else [])
      else if mk_engine p = EngineRabbitMQ \<or> mi_rabbitmq (mk_inline p) \<noteq> None then
        (if pb_rabbitmq (mk_publisher p) = None then [(''MessagePublisher.RabbitMQ'', ''required'')] else [])
      else [(''InlineConfig'', ''required_engine'')])"

definition check_messaging_picker :: "messaging_picker \<Rightarrow> tag_errors" where
  "check_messaging_picker p =
     engine_tags [EngineRedis, EngineRabbitMQ] (mk_engine p) (messaging_inline_zero (mk_inline p)) @
     inline_tags (mk_engine p) (messaging_inline_zero (mk_inline p)) (check_messaging_inline (mk_inline p)) @
     struct_required ''MessagePublisher'' (publisher_zero (mk_publisher p)) (check_publisher (mk_publisher p)) @
     validate_picker_struct p"

definition messaging_picker_zero :: "messaging_picker \<Rightarrow> bool" where
  "messaging_picker_zero p \<longleftrightarrow>
     mk_engine p = '''' \<and> messaging_inline_zero (mk_inline p) \<and> publisher_zero (mk_publisher p)"

definition validate_storage_picker :: "storage_picker \<Rightarrow> storage_engines \<Rightarrow> string \<Rightarrow> tag_errors" where
  "validate_storage_picker picker es fieldName =
     (if sp_engine picker = '''' then []
      else if sp_engine picker = EngineRedis then
        (if se_redis es = None then [(fieldName @ ''.Engine'', ''engine_not_configured'')] else [])
      else if sp_engine picker = EnginePostgreSQL then
        (if se_postgresql es = None then [(fieldName @ ''.Engine'', ''engine_not_configured'')] else [])
      else [(fieldName @ ''.Engine'', ''engine_not_registered'')])"

definition validate_messaging_picker :: "messaging_picker \<Rightarrow> messaging_engines \<Rightarrow> string \<Rightarrow> tag_errors" where
  "validate_messaging_picker picker es fieldName =
     (if mk_engine picker = '''' then []
      else if mk_engine picker = EngineRedis then
        (if me_redis es = None then [(fieldName @ ''.Engine'', ''engine_not_configured'')] else [])
      else if mk_engine picker = EngineRabbitMQ then
        (if me_rabbitmq es = None then [(fieldName @ ''.Engine'', ''engine_not_configured'')] else [])
      else [(fieldName @ ''.Engine'', ''engine_not_registered'')])"

text \<open>A field as reflection shows it; pointers to other structs are not entered.\<close>

datatype rfield =
    RStorage storage_picker
  | RStoragePtr "storage_picker option"
  | RMessaging messaging_picker
  | RMessagingPtr "messaging_picker option"
  | RStruct "(string \<times> rfield) list"
  | ROther

fun validate_pickers_in_struct :: "(string \<times> rfield) list \<Rightarrow> engines \<Rightarrow> tag_errors" where
  "validate_pickers_in_struct [] es = []"
| "validate_pickers_in_struct ((name, fld) # rest) es =
     (case fld of
        RStorage p \<Rightarrow> validate_storage_picker p (en_storage es) name
      | RStoragePtr p \<Rightarrow> (case p of None \<Rightarrow> [] | Some q \<Rightarrow> validate_storage_picker q (en_storage es) name)
      | RMessaging p \<Rightarrow> validate_messaging_picker p (en_messaging es) name
      | RMessagingPtr p \<Rightarrow> (case p of None \<Rightarrow> [] | Some q \<Rightarrow> validate_messaging_picker q (en_messaging es) name)
      | RStruct inner \<Rightarrow> validate_pickers_in_struct inner es
      | ROther \<Rightarrow> []) @ validate_pickers_in_struct rest es"

definition reflect_config :: "config \<Rightarrow> (string \<times> rfield) list" where
  "reflect_config c =
     [(''ServiceName'', ROther), (''Log'', RStruct [(''Level'', ROther)]),
      (''Engines'', RStruct
         [(''Storage'', RStruct [(''Redis'', ROther), (''PostgreSQL'', ROther)]),
          (''Messaging'', RStruct [(''Redis'', ROther), (''RabbitMQ'', ROther)])]),
      (''Walletregistry'', RStruct [(''WalletStorage'', RStorage (gcf_storage (cf_walletregistry c)))]),
      (''Walletwatch'', RStruct
         [(''MaxProcessingTime'', ROther), (''IdempotencyGuard'', RStoragePtr (wcf_guard (cf_walletwatch c))),
          (''WalletStorage'', RStorage (wcf_storage (cf_walletwatch c))),
          (''TransactionNotifier'', RMessaging (wcf_notifier (cf_walletwatch c)))]),
      (''Chainstream'', RStruct
         [(''CheckpointStorage'', RStoragePtr (scf_checkpoint (cf_chainstream c))), (''Retry'', ROther),
          (''Networks'', RStruct [(''Ethereum'', ROther), (''Solana'', ROther)]),
          (''DispatchFailureNotifier'', RMessagingPtr (scf_notifier (cf_chainstream c)))])]"

definition validate_config_struct :: "config \<Rightarrow> tag_errors" where
  "validate_config_struct c = validate_pickers_in_struct (reflect_config c) (cf_engines c)"

section \<open>Config and Load\<close>

definition check_storage_engines :: "storage_engines \<Rightarrow> tag_errors" where
  "check_storage_engines e =
     pointer_omitempty check_redis (se_redis e) @ pointer_omitempty check_postgresql (se_postgresql e)"

definition check_messaging_engines :: "messaging_engines \<Rightarrow> tag_errors" where
  "check_messaging_engines e =
     pointer_omitempty check_redis (me_redis e) @ pointer_omitempty check_rabbitmq (me_rabbitmq e)"

definition check_engines :: "engines \<Rightarrow> tag_errors" where
  "check_engines e = check_storage_engines (en_storage e) @ check_messaging_engines (en_messaging e)"

definition check_log_level :: "string \<Rightarrow> tag_errors" where
  "check_log_level level = struct_required ''Log'' (level = '''')
     (if level \<in> set [''DEBUG'', ''INFO'', ''WARN'', ''ERROR'', ''PANIC'', ''FATAL''] then []
      else [(''Level'', ''oneof'')])"

definition check_registry :: "registry_cfg \<Rightarrow> tag_errors" where
  "check_registry c = struct_required ''Walletregistry'' (storage_picker_zero (gcf_storage c))
     (struct_required ''WalletStorage'' (storage_picker_zero (gcf_storage c)) (check_storage_picker (gcf_storage c)))"

definition check_walletwatch :: "walletwatch_cfg \<Rightarrow> tag_errors" where
  "check_walletwatch c = struct_required ''Walletwatch''
     (wcf_maxProcessingTime c = 0 \<and> wcf_guard c = None \<and> storage_picker_zero (wcf_storage c) \<and>
      messaging_picker_zero (wcf_notifier c))
     (pointer_omitempty check_storage_picker (wcf_guard c) @
      struct_required ''WalletStorage'' (storage_picker_zero (wcf_storage c)) (check_storage_picker (wcf_storage c)) @
      struct_required ''TransactionNotifier'' (messaging_picker_zero (wcf_notifier c))
        (check_messaging_picker (wcf_notifier c)))"

definition http_cfg_zero :: "http_cfg \<Rightarrow> bool" where
  "http_cfg_zero c \<longleftrightarrow> hcf_timeout c = 0 \<and> hcf_retryWaitMin c = 0 \<and> hcf_retryWaitMax c = 0 \<and> hcf_retryMax c = 0"

definition check_jsonrpc :: "jsonrpc_cfg \<Rightarrow> tag_errors" where
  "check_jsonrpc c = struct_required ''HttpClient'' (http_cfg_zero (jcf_http c)) [] @
     required ''ProviderEndpoint'' (jcf_endpoint c = '''')"

definition networks_zero :: "networks_cfg \<Rightarrow> bool" where
  "networks_zero c \<longleftrightarrow> ncf_ethereum c = None \<and> ncf_solana c = None"

definition check_networks :: "networks_cfg \<Rightarrow> tag_errors" where
  "check_networks c = pointer_omitempty check_jsonrpc (ncf_ethereum c) @ pointer_omitempty check_jsonrpc (ncf_solana c)"

definition check_chainstream :: "chainstream_cfg \<Rightarrow> tag_errors" where
  "check_chainstream c = struct_required ''Chainstream''
     (scf_checkpoint c = None \<and> scf_retry c = None \<and> networks_zero (scf_networks c) \<and> scf_notifier c = None)
     (pointer_omitempty check_storage_picker (scf_checkpoint c) @
      struct_required ''Networks'' (networks_zero (scf_networks c)) (check_networks (scf_networks c)) @
      pointer_omitempty check_messaging_picker (scf_notifier c))"

definition check_config :: "config \<Rightarrow> tag_errors" where
  "check_config c =
     required ''ServiceName'' (cf_serviceName c = '''') @ check_log_level (cf_logLevel c) @
     check_engines (cf_engines c) @ check_registry (cf_walletregistry c) @ check_walletwatch (cf_walletwatch c) @
     check_chainstream (cf_chainstream c) @ validate_config_struct c"

text \<open>
  \<open>print\<close>: how the library names the field of an error and prints its value. \<open>process\<close> fills the
  configuration from the environment; on an error the caller gets what was filled.
\<close>

definition validate_config :: "(string \<times> string \<Rightarrow> field_error) \<Rightarrow> config \<Rightarrow> gerr option" where
  "validate_config print c =
     validate (case check_config c of [] \<Rightarrow> Valid | es \<Rightarrow> FieldErrors (map print es))"

definition config_load ::
    "(string \<times> string \<Rightarrow> field_error) \<Rightarrow> ('env \<Rightarrow> config \<times> gerr option) \<Rightarrow> 'env \<Rightarrow> config \<times> gerr option" where
  "config_load print process env =
     (case process env of
        (c, Some err) \<Rightarrow> (c, Some err)
      | (c, None) \<Rightarrow> (c, validate_config print c))"

section \<open>What a valid configuration is\<close>

text \<open>Exactly one backend is selected, and it is configured.\<close>

definition wf_redis :: "redis_cfg \<Rightarrow> bool" where "wf_redis c \<longleftrightarrow> rcf_address c \<noteq> ''''"
definition wf_postgresql :: "postgres_cfg \<Rightarrow> bool" where "wf_postgresql c \<longleftrightarrow> pcf_dsn c \<noteq> ''''"
definition wf_rabbitmq :: "rabbit_cfg \<Rightarrow> bool" where "wf_rabbitmq c \<longleftrightarrow> mcf_uri c \<noteq> ''''"

inductive wf_storage_picker :: "storage_engines \<Rightarrow> storage_picker \<Rightarrow> bool" for es where
  "se_redis es = Some c \<Longrightarrow> wf_storage_picker es \<lparr>sp_engine = EngineRedis, sp_inline = \<lparr>si_redis = None, si_postgresql = None\<rparr>\<rparr>"
| "se_postgresql es = Some d \<Longrightarrow>
     wf_storage_picker es \<lparr>sp_engine = EnginePostgreSQL, sp_inline = \<lparr>si_redis = None, si_postgresql = None\<rparr>\<rparr>"
| "wf_redis c \<Longrightarrow> wf_storage_picker es \<lparr>sp_engine = '''', sp_inline = \<lparr>si_redis = Some c, si_postgresql = None\<rparr>\<rparr>"
| "wf_postgresql d \<Longrightarrow> wf_storage_picker es \<lparr>sp_engine = '''', sp_inline = \<lparr>si_redis = None, si_postgresql = Some d\<rparr>\<rparr>"

inductive wf_messaging_picker :: "messaging_engines \<Rightarrow> messaging_picker \<Rightarrow> bool" for es where
  "me_redis es = Some c \<Longrightarrow> rp_stream s \<noteq> '''' \<Longrightarrow>
     wf_messaging_picker es \<lparr>mk_engine = EngineRedis, mk_inline = \<lparr>mi_redis = None, mi_rabbitmq = None\<rparr>,
       mk_publisher = \<lparr>pb_redis = Some s, pb_rabbitmq = None\<rparr>\<rparr>"
| "me_rabbitmq es = Some d \<Longrightarrow> mp_routingKey k \<noteq> '''' \<Longrightarrow>
     wf_messaging_picker es \<lparr>mk_engine = EngineRabbitMQ, mk_inline = \<lparr>mi_redis = None, mi_rabbitmq = None\<rparr>,
       mk_publisher = \<lparr>pb_redis = None, pb_rabbitmq = Some k\<rparr>\<rparr>"
| "wf_redis c \<Longrightarrow> rp_stream s \<noteq> '''' \<Longrightarrow>
     wf_messaging_picker es \<lparr>mk_engine = '''', mk_inline = \<lparr>mi_redis = Some c, mi_rabbitmq = None\<rparr>,
       mk_publisher = \<lparr>pb_redis = Some s, pb_rabbitmq = None\<rparr>\<rparr>"
| "wf_rabbitmq d \<Longrightarrow> mp_routingKey k \<noteq> '''' \<Longrightarrow>
     wf_messaging_picker es \<lparr>mk_engine = '''', mk_inline = \<lparr>mi_redis = None, mi_rabbitmq = Some d\<rparr>,
       mk_publisher = \<lparr>pb_redis = None, pb_rabbitmq = Some k\<rparr>\<rparr>"

definition wf_jsonrpc :: "jsonrpc_cfg \<Rightarrow> bool" where
  "wf_jsonrpc c \<longleftrightarrow> \<not> http_cfg_zero (jcf_http c) \<and> jcf_endpoint c \<noteq> ''''"

definition wf_engines :: "engines \<Rightarrow> bool" where
  "wf_engines e \<longleftrightarrow>
     pred_option wf_redis (se_redis (en_storage e)) \<and> pred_option wf_postgresql (se_postgresql (en_storage e)) \<and>
     pred_option wf_redis (me_redis (en_messaging e)) \<and> pred_option wf_rabbitmq (me_rabbitmq (en_messaging e))"

definition wf_config :: "config \<Rightarrow> bool" where
  "wf_config c \<longleftrightarrow>
     cf_serviceName c \<noteq> '''' \<and>
     cf_logLevel c \<in> {''DEBUG'', ''INFO'', ''WARN'', ''ERROR'', ''PANIC'', ''FATAL''} \<and>
     wf_engines (cf_engines c) \<and>
     wf_storage_picker (en_storage (cf_engines c)) (gcf_storage (cf_walletregistry c)) \<and>
     pred_option (wf_storage_picker (en_storage (cf_engines c))) (wcf_guard (cf_walletwatch c)) \<and>
     wf_storage_picker (en_storage (cf_engines c)) (wcf_storage (cf_walletwatch c)) \<and>
     wf_messaging_picker (en_messaging (cf_engines c)) (wcf_notifier (cf_walletwatch c)) \<and>
     pred_option (wf_storage_picker (en_storage (cf_engines c))) (scf_checkpoint (cf_chainstream c)) \<and>
     pred_option wf_jsonrpc (ncf_ethereum (scf_networks (cf_chainstream c))) \<and>
     pred_option wf_jsonrpc (ncf_solana (scf_networks (cf_chainstream c))) \<and>
     \<not> networks_zero (scf_networks (cf_chainstream c)) \<and>
     pred_option (wf_messaging_picker (en_messaging (cf_engines c))) (scf_notifier (cf_chainstream c))"

section \<open>The validator accepts exactly the valid configurations\<close>

lemmas tag_defs = required_def pointer_alone_def pointer_omitempty_def struct_required_def engine_tags_def
  inline_tags_def required_alone_validator_def check_redis_def check_postgresql_def check_rabbitmq_def
  check_redis_publisher_def check_rabbit_publisher_def EngineRedis_def EnginePostgreSQL_def EngineRabbitMQ_def
  wf_redis_def wf_postgresql_def wf_rabbitmq_def

inductive_simps wf_storage_simps: "wf_storage_picker es \<lparr>sp_engine = e, sp_inline = \<lparr>si_redis = r, si_postgresql = d\<rparr>\<rparr>"

inductive_simps wf_messaging_simps:
  "wf_messaging_picker es \<lparr>mk_engine = e, mk_inline = \<lparr>mi_redis = r, mi_rabbitmq = d\<rparr>,
     mk_publisher = \<lparr>pb_redis = s, pb_rabbitmq = k\<rparr>\<rparr>"

lemma pointer_omitempty_Nil: "pointer_omitempty dive p = [] \<longleftrightarrow> pred_option (\<lambda>v. dive v = []) p"
  by (cases p) (simp_all add: pointer_omitempty_def)

lemma struct_required_Nil: "struct_required f z dive = [] \<longleftrightarrow> \<not> z \<and> dive = []"
  by (simp add: struct_required_def)

lemma required_Nil: "required f z = [] \<longleftrightarrow> \<not> z"
  by (simp add: required_def)

lemma storage_picker_ok:
  "check_storage_picker p = [] \<and> validate_storage_picker p es name = [] \<longleftrightarrow> wf_storage_picker es p"
proof -
  obtain e r d where p: "p = \<lparr>sp_engine = e, sp_inline = \<lparr>si_redis = r, si_postgresql = d\<rparr>\<rparr>"
    by (metis storage_inline.cases storage_picker.cases)
  show ?thesis
    unfolding p wf_storage_simps check_storage_picker_def check_storage_inline_def storage_inline_zero_def
      validate_storage_picker_def tag_defs Let_def
    by (cases r; cases d) auto
qed

lemma messaging_picker_ok:
  "check_messaging_picker p = [] \<and> validate_messaging_picker p es name = [] \<longleftrightarrow> wf_messaging_picker es p"
proof -
  obtain e r d s k where p: "p = \<lparr>mk_engine = e, mk_inline = \<lparr>mi_redis = r, mi_rabbitmq = d\<rparr>,
      mk_publisher = \<lparr>pb_redis = s, pb_rabbitmq = k\<rparr>\<rparr>"
    by (metis messaging_inline.cases messaging_picker.cases message_publisher.cases)
  show ?thesis
    unfolding p wf_messaging_simps check_messaging_picker_def check_messaging_inline_def messaging_inline_zero_def
      validate_messaging_picker_def check_publisher_def publisher_zero_def validate_picker_struct_def tag_defs Let_def
    by (cases r; cases d; cases s; cases k) auto
qed

lemma picker_not_zero:
  "wf_storage_picker es p \<Longrightarrow> \<not> storage_picker_zero p"
  "wf_messaging_picker es' q \<Longrightarrow> \<not> messaging_picker_zero q"
  by (auto simp: storage_picker_zero_def storage_inline_zero_def tag_defs elim: wf_storage_picker.cases)
     (auto simp: messaging_picker_zero_def publisher_zero_def elim: wf_messaging_picker.cases)

lemma validate_config_struct_Nil:
  "validate_config_struct c = [] \<longleftrightarrow>
     validate_storage_picker (gcf_storage (cf_walletregistry c)) (en_storage (cf_engines c)) ''WalletStorage'' = [] \<and>
     pred_option (\<lambda>p. validate_storage_picker p (en_storage (cf_engines c)) ''IdempotencyGuard'' = []) (wcf_guard (cf_walletwatch c)) \<and>
     validate_storage_picker (wcf_storage (cf_walletwatch c)) (en_storage (cf_engines c)) ''WalletStorage'' = [] \<and>
     validate_messaging_picker (wcf_notifier (cf_walletwatch c)) (en_messaging (cf_engines c)) ''TransactionNotifier'' = [] \<and>
     pred_option (\<lambda>p. validate_storage_picker p (en_storage (cf_engines c)) ''CheckpointStorage'' = []) (scf_checkpoint (cf_chainstream c)) \<and>
     pred_option (\<lambda>p. validate_messaging_picker p (en_messaging (cf_engines c)) ''DispatchFailureNotifier'' = []) (scf_notifier (cf_chainstream c))"
  by (simp add: validate_config_struct_def reflect_config_def pred_option_def split: option.splits)

lemma pred_option_conj: "pred_option (\<lambda>x. P x \<and> Q x) p \<longleftrightarrow> pred_option P p \<and> pred_option Q p"
  by (cases p) auto

lemma wf_storage_option:
  "pred_option (wf_storage_picker es) p \<longleftrightarrow>
     pred_option (\<lambda>p. check_storage_picker p = []) p \<and> pred_option (\<lambda>p. validate_storage_picker p es name = []) p"
  by (cases p) (simp_all add: storage_picker_ok)

lemma wf_messaging_option:
  "pred_option (wf_messaging_picker es) p \<longleftrightarrow>
     pred_option (\<lambda>p. check_messaging_picker p = []) p \<and> pred_option (\<lambda>p. validate_messaging_picker p es name = []) p"
  by (cases p) (simp_all add: messaging_picker_ok)

lemma check_engines_ok: "check_engines e = [] \<longleftrightarrow> wf_engines e"
  by (simp add: check_engines_def check_storage_engines_def check_messaging_engines_def wf_engines_def
      pointer_omitempty_Nil) (simp add: tag_defs [abs_def])

lemma check_config_ok: "check_config c = [] \<longleftrightarrow> wf_config c"
proof -
  let ?S = "en_storage (cf_engines c)" and ?M = "en_messaging (cf_engines c)"
  have j: "check_jsonrpc n = [] \<longleftrightarrow> wf_jsonrpc n" for n
    by (simp add: check_jsonrpc_def wf_jsonrpc_def struct_required_Nil required_Nil)
  note wf = wf_storage_option [where name = "''IdempotencyGuard''"] wf_storage_option [where name = "''CheckpointStorage''"]
    wf_messaging_option [where name = "''DispatchFailureNotifier''"]
  have direct: "wf_storage_picker ?S p \<longleftrightarrow> \<not> storage_picker_zero p \<and> check_storage_picker p = [] \<and>
      validate_storage_picker p ?S ''WalletStorage'' = []"
    "wf_messaging_picker ?M q \<longleftrightarrow> \<not> messaging_picker_zero q \<and> check_messaging_picker q = [] \<and>
      validate_messaging_picker q ?M ''TransactionNotifier'' = []" for p q
    using storage_picker_ok [of p ?S "''WalletStorage''"] messaging_picker_ok [of q ?M "''TransactionNotifier''"]
      picker_not_zero by blast+
  show ?thesis
    unfolding check_config_def wf_config_def append_is_Nil_conv check_engines_ok validate_config_struct_Nil
      check_registry_def check_walletwatch_def check_chainstream_def check_log_level_def check_networks_def
      struct_required_Nil required_Nil pointer_omitempty_Nil j direct
      wf_storage_option [where name = "''IdempotencyGuard''" and p = "wcf_guard (cf_walletwatch c)"]
      wf_storage_option [where name = "''CheckpointStorage''" and p = "scf_checkpoint (cf_chainstream c)"]
      wf_messaging_option [where name = "''DispatchFailureNotifier''"]
    by auto
qed

lemma load_wf: "config_load print process env = (c, None) \<Longrightarrow> wf_config c"
  using check_config_ok [of c]
  by (auto simp: config_load_def validate_config_def validate_def format_error_fields
      split: prod.splits option.splits list.splits)

text \<open>
  C24. \<^verbatim>\<open>Load\<close> succeeds exactly on the well-formed configurations: with the environment read, it
  returns an error if and only if the configuration is not well-formed, in which case the error is
  \<^verbatim>\<open>ErrValidationFailed\<close>. Well-formed: every picker names one backend, either a global engine
  that is configured or one inline configuration, every notifier has the publisher of its backend
  and no other, at least one network is configured, and no required value is empty.
\<close>

theorem load_accepts_wf:
  assumes "process env = (c, None)"
  shows "fst (config_load print process env) = c \<and>
    (case snd (config_load print process env) of
       None \<Rightarrow> wf_config c
     | Some e \<Rightarrow> \<not> wf_config c \<and> errors_is e ErrValidationFailed)"
proof (cases "check_config c")
  case Nil
  with assms check_config_ok [of c] show ?thesis
    by (simp add: config_load_def validate_config_def validate_def)
next
  case (Cons e es)
  then have "\<not> wf_config c" using check_config_ok [of c] by simp
  with Cons assms show ?thesis
    by (simp add: config_load_def validate_config_def validate_def format_error_fields)
qed

section \<open>A configuration for the examples\<close>

definition demo_redis :: redis_cfg where
  "demo_redis = \<lparr>rcf_address = ''localhost:6379'', rcf_username = '''', rcf_password = '''', rcf_db = 0\<rparr>"

definition demo_picker :: storage_picker where
  "demo_picker = \<lparr>sp_engine = EngineRedis, sp_inline = \<lparr>si_redis = None, si_postgresql = None\<rparr>\<rparr>"

definition demo_mpicker :: messaging_picker where
  "demo_mpicker = \<lparr>mk_engine = '''', mk_inline = \<lparr>mi_redis = None, mi_rabbitmq = Some \<lparr>mcf_uri = ''amqp://mq''\<rparr>\<rparr>,
     mk_publisher = \<lparr>pb_redis = None, pb_rabbitmq = Some \<lparr>mp_exchange = '''', mp_routingKey = ''txs''\<rparr>\<rparr>\<rparr>"

definition demo_config :: config where
  "demo_config =
     \<lparr>cf_serviceName = ''blockwatch'', cf_logLevel = ''INFO'',
      cf_engines = \<lparr>en_storage = \<lparr>se_redis = Some demo_redis, se_postgresql = None\<rparr>,
                    en_messaging = \<lparr>me_redis = None, me_rabbitmq = None\<rparr>\<rparr>,
      cf_walletregistry = \<lparr>gcf_storage = demo_picker\<rparr>,
      cf_walletwatch = \<lparr>wcf_maxProcessingTime = 0, wcf_guard = None, wcf_storage = demo_picker, wcf_notifier = demo_mpicker\<rparr>,
      cf_chainstream = \<lparr>scf_checkpoint = Some demo_picker, scf_retry = None,
        scf_networks = \<lparr>ncf_ethereum = Some \<lparr>jcf_http =
            \<lparr>hcf_timeout = 5, hcf_retryWaitMin = 1, hcf_retryWaitMax = 5, hcf_retryMax = 2\<rparr>, jcf_endpoint = ''http://node''\<rparr>,
          ncf_solana = None\<rparr>,
        scf_notifier = None\<rparr>\<rparr>"

lemma demo_config_wf: "wf_config demo_config"
  by (simp add: wf_config_def demo_config_def wf_engines_def wf_jsonrpc_def http_cfg_zero_def networks_zero_def
      demo_picker_def demo_mpicker_def wf_storage_simps wf_messaging_simps demo_redis_def tag_defs)

theorem load_accepts_wf_witness:
  "snd (config_load (\<lambda>(field, tag). \<lparr>fe_namespace = field, fe_value = '''', fe_tag = tag\<rparr>)
     (\<lambda>env :: unit. (demo_config, None)) ()) = None"
  using load_accepts_wf [of "\<lambda>env :: unit. (demo_config, None)" "()" demo_config
      "\<lambda>(field, tag). \<lparr>fe_namespace = field, fe_value = '''', fe_tag = tag\<rparr>"] demo_config_wf
  by (auto split: option.splits)

end
