(* ===== verification/Bootstrap_Storage.thy ===== *)
theory Bootstrap_Storage
  imports Config Storage_Postgres Storage_Redis "HOL-Library.AList"
begin

text \<open>
  \<^verbatim>\<open>internal/bootstrap/storage\<close>: the clients of the two engines behind one type, the factories,
  \<^verbatim>\<open>Init\<close>, \<^verbatim>\<open>Resolve\<close> and \<^verbatim>\<open>Close\<close> over the package variables \<^verbatim>\<open>defaults\<close> and
  \<^verbatim>\<open>openedConnections\<close>. What opens a connection is an argument (\<open>storage_drivers\<close>). The reflection over
  the fields of a struct is their list; a failed type assertion of a factory is a panic.
\<close>

section \<open>Clients\<close>

text \<open>
  Both clients implement the four interfaces and \<^verbatim>\<open>io.Closer\<close>, so that the assertion of \<^verbatim>\<open>Resolve\<close> to
  any of the interfaces holds and the caller picks the component.
\<close>

record 'w storage_client =
  stc_checkpoint :: "'w checkpoint_storage"
  stc_registry :: "'w registry_storage"
  stc_watch :: "'w watch_storage"
  stc_guard :: "'w idempotency_guard"
  stc_close :: "'w \<Rightarrow> gerr option \<times> 'w"

definition redis_client :: "'w redis \<Rightarrow> 'w storage_client" where
  "redis_client R =
     \<lparr>stc_checkpoint = redis_checkpoint_storage R, stc_registry = redis_registry R, stc_watch = redis_watch R,
      stc_guard = redis_guard R, stc_close = rstore_close R\<rparr>"

text \<open>A pool gives access to the database in the state of everything outside.\<close>

record 'w pg_pool =
  pp_new :: "'w \<Rightarrow> gerr option \<times> 'w"
  pp_get :: "'w \<Rightarrow> pg"
  pp_put :: "pg \<Rightarrow> 'w \<Rightarrow> 'w"
  pp_close :: "'w \<Rightarrow> 'w"

definition in_pool :: "'w pg_pool \<Rightarrow> (pg \<Rightarrow> 'r \<times> pg) \<Rightarrow> 'w \<Rightarrow> 'r \<times> 'w" where
  "in_pool L = on_part (pp_get L) (pp_put L)"

definition in_pool_outcome :: "'w pg_pool \<Rightarrow> (pg \<Rightarrow> ('r \<times> pg) outcome) \<Rightarrow> 'w \<Rightarrow> ('r \<times> 'w) outcome" where
  "in_pool_outcome L f w = bind_outcome (f (pp_get L w)) (\<lambda>(r, d). Val (r, pp_put L d w))"

definition pg_new :: "'w pg_pool \<Rightarrow> 'w \<Rightarrow> gerr option \<times> 'w" where
  "pg_new L w = pp_new L w"

definition pg_close :: "'w pg_pool \<Rightarrow> 'w \<Rightarrow> gerr option \<times> 'w" where
  "pg_close L w = (None, pp_close L w)"

definition pg_client :: "'w pg_pool \<Rightarrow> 'w storage_client" where
  "pg_client L =
     \<lparr>stc_checkpoint = \<lparr>cks_save = (\<lambda>n h. in_pool_outcome L (pg_save_checkpoint n h)),
                        cks_load = (\<lambda>n. in_pool L (pg_load_latest_checkpoint n))\<rparr>,
      stc_registry = \<lparr>rs_register = (\<lambda>wid. in_pool L (pg_register_wallet wid)),
                      rs_unregister = (\<lambda>wid. in_pool L (pg_unregister_wallet wid))\<rparr>,
      stc_watch = \<lparr>ws_filter = (\<lambda>n addrs. in_pool L (pg_filter_watched_wallets n addrs))\<rparr>,
      stc_guard = \<lparr>ig_claim = (\<lambda>n h ttl. in_pool L (pg_claim n h ttl)), ig_mark = (\<lambda>n h. in_pool L (pg_mark n h))\<rparr>,
      stc_close = pg_close L\<rparr>"

section \<open>Factories\<close>

record 'w storage_drivers =
  sd_redis :: "redis_cfg \<Rightarrow> 'w redis"
  sd_pool :: "postgres_cfg \<Rightarrow> 'w pg_pool"

datatype storage_cfg = ScRedis redis_cfg | ScPostgreSQL postgres_cfg

type_synonym 'w storage_factory = "storage_cfg \<Rightarrow> 'w \<Rightarrow> ((gerr + 'w storage_client) \<times> 'w) outcome"

fun redis_factory :: "'w storage_drivers \<Rightarrow> 'w storage_factory" where
  "redis_factory D (ScRedis c) w =
     (case rstore_new (sd_redis D c) w of
        (Some err, w') \<Rightarrow> Val (Inl err, w')
      | (None, w') \<Rightarrow> Val (Inr (redis_client (sd_redis D c)), w'))"
| "redis_factory D (ScPostgreSQL c) w = Panic"

fun postgresql_factory :: "'w storage_drivers \<Rightarrow> 'w storage_factory" where
  "postgresql_factory D (ScPostgreSQL c) w =
     (case pg_new (sd_pool D c) w of
        (Some err, w') \<Rightarrow> Val (Inl err, w')
      | (None, w') \<Rightarrow> Val (Inr (pg_client (sd_pool D c)), w'))"
| "postgresql_factory D (ScRedis c) w = Panic"

definition storage_factories :: "'w storage_drivers \<Rightarrow> (string \<times> 'w storage_factory) list" where
  "storage_factories D = [(''REDIS'', redis_factory D), (''POSTGRESQL'', postgresql_factory D)]"

section \<open>Init, Resolve, Close\<close>

record 'w storage_state =
  sts_defaults :: "(string \<times> 'w storage_client) list"
  sts_opened :: "'w storage_client list"

definition quoted :: "string \<Rightarrow> string" where
  "quoted s = CHR 0x22 # s @ [CHR 0x22]"

definition storage_engine_fields :: "storage_engines \<Rightarrow> (string \<times> storage_cfg option) list" where
  "storage_engine_fields e =
     [(''Redis'', map_option ScRedis (se_redis e)), (''PostgreSQL'', map_option ScPostgreSQL (se_postgresql e))]"

definition storage_inline_fields :: "storage_inline \<Rightarrow> (string \<times> storage_cfg option) list" where
  "storage_inline_fields i =
     [(''Redis'', map_option ScRedis (si_redis i)), (''PostgreSQL'', map_option ScPostgreSQL (si_postgresql i))]"

fun storage_init_fields ::
    "'w storage_drivers \<Rightarrow> (string \<times> storage_cfg option) list \<Rightarrow> 'w storage_state \<Rightarrow> 'w \<Rightarrow>
     (gerr option \<times> 'w storage_state \<times> 'w) outcome" where
  "storage_init_fields D [] st w = Val (None, st, w)"
| "storage_init_fields D ((name, None) # rest) st w = storage_init_fields D rest st w"
| "storage_init_fields D ((name, Some cfg) # rest) st w =
     (let engineName = to_upper name in
      case map_of (storage_factories D) engineName of
        None \<Rightarrow> Val (Some (ErrMsg (''no factory registered for storage engine '' @ quoted engineName)), st, w)
      | Some constructor \<Rightarrow>
          bind_outcome (constructor cfg w) (\<lambda>r.
            case r of
              (Inl err, w') \<Rightarrow>
                Val (Some (ErrWrap (''failed to initialize storage engine '' @ quoted engineName) err), st, w')
            | (Inr inst, w') \<Rightarrow>
                storage_init_fields D rest
                  (st\<lparr>sts_opened := sts_opened st @ [inst],
                      sts_defaults := AList.update engineName inst (sts_defaults st)\<rparr>) w'))"

definition storage_init ::
    "'w storage_drivers \<Rightarrow> storage_engines \<Rightarrow> 'w \<Rightarrow> (gerr option \<times> 'w storage_state \<times> 'w) outcome" where
  "storage_init D e w = storage_init_fields D (storage_engine_fields e) \<lparr>sts_defaults = [], sts_opened = []\<rparr> w"

fun storage_resolve_fields ::
    "'w storage_drivers \<Rightarrow> (string \<times> storage_cfg option) list \<Rightarrow> 'w storage_state \<Rightarrow> 'w \<Rightarrow>
     ((gerr + 'w storage_client) \<times> 'w storage_state \<times> 'w) outcome" where
  "storage_resolve_fields D [] st w = Val (Inl (ErrMsg ''no valid storage engine configuration provided''), st, w)"
| "storage_resolve_fields D ((name, None) # rest) st w = storage_resolve_fields D rest st w"
| "storage_resolve_fields D ((name, Some cfg) # rest) st w =
     (let engineName = to_upper name in
      case map_of (storage_factories D) engineName of
        None \<Rightarrow> Val (Inl (ErrMsg (''no factory registered for inline-configured engine '' @ quoted engineName)), st, w)
      | Some constructor \<Rightarrow>
          bind_outcome (constructor cfg w) (\<lambda>r.
            case r of
              (Inl err, w') \<Rightarrow>
                Val (Inl (ErrWrap (''failed to create inline instance for engine '' @ quoted engineName) err), st, w')
            | (Inr inst, w') \<Rightarrow> Val (Inr inst, st\<lparr>sts_opened := sts_opened st @ [inst]\<rparr>, w')))"

definition storage_resolve ::
    "'w storage_drivers \<Rightarrow> storage_picker \<Rightarrow> 'w storage_state \<Rightarrow> 'w \<Rightarrow>
     ((gerr + 'w storage_client) \<times> 'w storage_state \<times> 'w) outcome" where
  "storage_resolve D picker st w =
     (let engineKey = to_upper (sp_engine picker) in
      if engineKey \<noteq> '''' then
        (case map_of (sts_defaults st) engineKey of
           None \<Rightarrow> Val (Inl (ErrMsg (''no default instance found for selected engine '' @ quoted engineKey)), st, w)
         | Some inst \<Rightarrow> Val (Inr inst, st, w))
      else storage_resolve_fields D (storage_inline_fields (sp_inline picker)) st w)"

fun close_each :: "('c \<Rightarrow> 'w \<Rightarrow> gerr option \<times> 'w) \<Rightarrow> 'c list \<Rightarrow> 'w \<Rightarrow> gerr option list \<times> 'w" where
  "close_each close [] w = ([], w)"
| "close_each close (c # cs) w =
     (case close c w of (err, w') \<Rightarrow> (case close_each close cs w' of (errs, w'') \<Rightarrow> (err # errs, w'')))"

definition storage_close :: "'w storage_state \<Rightarrow> 'w \<Rightarrow> gerr option \<times> 'w" where
  "storage_close st w = (case close_each stc_close (sts_opened st) w of (errs, w') \<Rightarrow> (errors_join errs, w'))"

section \<open>Lemmas\<close>

lemma upper_names [simp]:
  "to_upper ''Redis'' = ''REDIS''" "to_upper ''PostgreSQL'' = ''POSTGRESQL''" "to_upper ''RabbitMQ'' = ''RABBITMQ''"
  "to_upper ''REDIS'' = ''REDIS''" "to_upper ''POSTGRESQL'' = ''POSTGRESQL''" "to_upper ''RABBITMQ'' = ''RABBITMQ''"
  "to_upper '''' = ''''"
  by code_simp+

text \<open>An error of a connection, as opposed to one of the configuration, wraps what the driver reported.\<close>

definition connection_error :: "gerr \<Rightarrow> bool" where
  "connection_error e \<longleftrightarrow> (\<exists>m e'. e = ErrWrap m e')"

text \<open>The client a picker stands for: that of the global engine it names, or of its inline configuration.\<close>

definition storage_backend :: "'w storage_drivers \<Rightarrow> storage_engines \<Rightarrow> storage_picker \<Rightarrow> 'w storage_client option" where
  "storage_backend D es p =
     (if sp_engine p = EngineRedis then map_option (redis_client \<circ> sd_redis D) (se_redis es)
      else if sp_engine p = EnginePostgreSQL then map_option (pg_client \<circ> sd_pool D) (se_postgresql es)
      else case si_redis (sp_inline p) of
             Some c \<Rightarrow> Some (redis_client (sd_redis D c))
           | None \<Rightarrow> map_option (pg_client \<circ> sd_pool D) (si_postgresql (sp_inline p)))"

text \<open>The package variables after \<^verbatim>\<open>Init\<close>: an instance per configured engine, each of them tracked.\<close>

definition storage_ready :: "'w storage_drivers \<Rightarrow> storage_engines \<Rightarrow> 'w storage_state \<Rightarrow> bool" where
  "storage_ready D es st \<longleftrightarrow>
     map_of (sts_defaults st) ''REDIS'' = map_option (redis_client \<circ> sd_redis D) (se_redis es) \<and>
     map_of (sts_defaults st) ''POSTGRESQL'' = map_option (pg_client \<circ> sd_pool D) (se_postgresql es) \<and>
     (\<forall>c \<in> ran (map_of (sts_defaults st)). c \<in> set (sts_opened st))"

lemma storage_factories_simps [simp]:
  "map_of (storage_factories D) ''REDIS'' = Some (redis_factory D)"
  "map_of (storage_factories D) ''POSTGRESQL'' = Some (postgresql_factory D)"
  by (simp_all add: storage_factories_def)

text \<open>\<^verbatim>\<open>Init\<close> fails only when a connection does; otherwise every configured engine has an instance.\<close>

lemma storage_init_result:
  "\<exists>r st' w'. storage_init D es w = Val (r, st', w') \<and>
     (case r of None \<Rightarrow> storage_ready D es st' | Some err \<Rightarrow> connection_error err)"
  by (cases "se_redis es"; cases "se_postgresql es")
     (auto simp: storage_init_def storage_engine_fields_def storage_ready_def connection_error_def ran_def update_conv
       split: prod.splits option.splits)

text \<open>\<^verbatim>\<open>Resolve\<close> of a valid picker fails only when a connection does, and what it yields is tracked.\<close>

lemma storage_resolve_result:
  assumes "storage_ready D es st" "wf_storage_picker es p"
  shows "\<exists>r st' w'. storage_resolve D p st w = Val (r, st', w') \<and> storage_ready D es st' \<and>
    set (sts_opened st) \<subseteq> set (sts_opened st') \<and>
    (case r of
       Inl err \<Rightarrow> connection_error err
     | Inr c \<Rightarrow> storage_backend D es p = Some c \<and> c \<in> set (sts_opened st'))"
  using assms(2,1)
  by cases
     (auto simp: storage_resolve_def storage_inline_fields_def storage_ready_def storage_backend_def
       EngineRedis_def EnginePostgreSQL_def connection_error_def ran_def split: prod.splits option.splits)

end
