(* ===== verification/Messaging.thy ===== *)
theory Messaging
  imports Chainstream_Service Walletwatch Json
begin

text \<open>
  \<^verbatim>\<open>internal/infra/messaging\<close>: the messages of the RabbitMQ and of the Redis notifiers and the
  operations that publish them. The two servers are outside the repository: their operations are the
  records \<open>amqp\<close> and \<open>streams\<close>, arguments of the definitions. So is the text of an error
  (\<^verbatim>\<open>err.Error()\<close>), which for foreign errors is not in the source. JSON documents are trees, as in
  theory \<open>Json\<close>; strings are valid UTF-8, of which \<^verbatim>\<open>json.Marshal\<close> keeps every character.
\<close>

section \<open>RabbitMQ: messages\<close>

record failure_message =
  fm_network :: string
  fm_height :: hex
  fm_errors :: "string list"

record tx_message =
  tm_hash :: string
  tm_from :: string
  tm_to :: string

record txs_message =
  xm_network :: string
  xm_wallet_address :: string
  xm_transactions :: "tx_message list"

definition make_failure_message :: "(gerr \<Rightarrow> string) \<Rightarrow> dispatch_failure \<Rightarrow> failure_message" where
  "make_failure_message etext failure =
     \<lparr>fm_network = df_network failure, fm_height = df_height failure, fm_errors = map etext (df_errors failure)\<rparr>"

definition tx_to_message :: "ww_transaction \<Rightarrow> tx_message" where
  "tx_to_message tx = \<lparr>tm_hash = wtx_hash tx, tm_from = wtx_from tx, tm_to = wtx_to tx\<rparr>"

definition make_txs_message :: "string \<Rightarrow> string \<Rightarrow> ww_transaction list \<Rightarrow> txs_message" where
  "make_txs_message network wallet txs =
     \<lparr>xm_network = network, xm_wallet_address = wallet, xm_transactions = map tx_to_message txs\<rparr>"

text \<open>\<^verbatim>\<open>json.Marshal\<close> of the structs, by their tags; none of them can fail.\<close>

definition marshal_failure :: "failure_message \<Rightarrow> json" where
  "marshal_failure m =
     JObj [(''network'', JStr (fm_network m)), (''height'', hex_marshal (fm_height m)),
           (''errors'', JArr (map JStr (fm_errors m)))]"

definition marshal_tx :: "tx_message \<Rightarrow> json" where
  "marshal_tx t = JObj [(''hash'', JStr (tm_hash t)), (''from'', JStr (tm_from t)), (''to'', JStr (tm_to t))]"

definition marshal_txs :: "txs_message \<Rightarrow> json" where
  "marshal_txs m =
     JObj [(''network'', JStr (xm_network m)), (''wallet_address'', JStr (xm_wallet_address m)),
           (''transactions'', JArr (map marshal_tx (xm_transactions m)))]"

section \<open>RabbitMQ: the client and its notifiers\<close>

record publishing =
  pb_timestamp :: int
  pb_message_id :: string
  pb_content_type :: string
  pb_body :: json

record 'w amqp =
  am_dial :: "string \<Rightarrow> 'w \<Rightarrow> gerr option \<times> 'w"
  am_open_channel :: "'w \<Rightarrow> gerr option \<times> 'w"
  am_publish :: "string \<Rightarrow> string \<Rightarrow> bool \<Rightarrow> bool \<Rightarrow> publishing \<Rightarrow> 'w \<Rightarrow> gerr option \<times> 'w"
  am_close_channel :: "'w \<Rightarrow> gerr option \<times> 'w"
  am_close_conn :: "'w \<Rightarrow> gerr option \<times> 'w"
  am_now :: "'w \<Rightarrow> int"
  am_uuid :: "'w \<Rightarrow> string \<times> 'w"

definition rabbit_new :: "'w amqp \<Rightarrow> string \<Rightarrow> 'w \<Rightarrow> gerr option \<times> 'w" where
  "rabbit_new A uri w =
     (case am_dial A uri w of
        (Some err, w1) \<Rightarrow> (Some err, w1)
      | (None, w1) \<Rightarrow> (case am_open_channel A w1 of (err, w2) \<Rightarrow> (err, w2)))"

definition rabbit_close :: "'w amqp \<Rightarrow> 'w \<Rightarrow> gerr option \<times> 'w" where
  "rabbit_close A w =
     (case am_close_channel A w of (e1, w1) \<Rightarrow>
        (case am_close_conn A w1 of (e2, w2) \<Rightarrow> (errors_join [e1, e2], w2)))"

definition rabbit_publish :: "'w amqp \<Rightarrow> string \<Rightarrow> string \<Rightarrow> json \<Rightarrow> 'w \<Rightarrow> gerr option \<times> 'w" where
  "rabbit_publish A exchange routingKey body w =
     (case am_uuid A w of (uuid, w1) \<Rightarrow>
        am_publish A exchange routingKey False False
          \<lparr>pb_timestamp = am_now A w, pb_message_id = uuid, pb_content_type = ''application/json'', pb_body = body\<rparr> w1)"

definition rabbit_notify_dispatch_failure ::
    "(gerr \<Rightarrow> string) \<Rightarrow> 'w amqp \<Rightarrow> string \<Rightarrow> string \<Rightarrow> dispatch_failure \<Rightarrow> 'w \<Rightarrow> gerr option \<times> 'w" where
  "rabbit_notify_dispatch_failure etext A exchange routingKey failure =
     rabbit_publish A exchange routingKey (marshal_failure (make_failure_message etext failure))"

definition rabbit_notify_transactions ::
    "'w amqp \<Rightarrow> string \<Rightarrow> string \<Rightarrow> string \<Rightarrow> string \<Rightarrow> ww_transaction list \<Rightarrow> 'w \<Rightarrow> gerr option \<times> 'w" where
  "rabbit_notify_transactions A exchange routingKey network wallet txs =
     rabbit_publish A exchange routingKey (marshal_txs (make_txs_message network wallet txs))"

definition rabbit_as_failure_notifier ::
    "(gerr \<Rightarrow> string) \<Rightarrow> 'w amqp \<Rightarrow> string \<Rightarrow> string \<Rightarrow> 'w failure_notifier" where
  "rabbit_as_failure_notifier etext A exchange routingKey =
     \<lparr>fn_notify = rabbit_notify_dispatch_failure etext A exchange routingKey\<rparr>"

definition rabbit_as_tx_notifier :: "'w amqp \<Rightarrow> string \<Rightarrow> string \<Rightarrow> 'w tx_notifier" where
  "rabbit_as_tx_notifier A exchange routingKey =
     \<lparr>tn_notify = rabbit_notify_transactions A exchange routingKey\<rparr>"

section \<open>Redis streams\<close>

text \<open>
  The value of a field of an entry: a string, or a JSON text that the code has marshalled into a
  string (\<open>FJson\<close>). The fields are a Go map; readers look them up by name.
\<close>

datatype field_value = FStr string | FJson json

record 'w streams =
  sx_ping :: "'w \<Rightarrow> gerr option \<times> 'w"
  sx_xadd :: "string \<Rightarrow> string \<Rightarrow> (string \<times> field_value) list \<Rightarrow> 'w \<Rightarrow> gerr option \<times> 'w"
  sx_close :: "'w \<Rightarrow> gerr option \<times> 'w"

definition rmsg_new :: "'w streams \<Rightarrow> 'w \<Rightarrow> gerr option \<times> 'w" where
  "rmsg_new X w = sx_ping X w"

definition rmsg_close :: "'w streams \<Rightarrow> 'w \<Rightarrow> gerr option \<times> 'w" where
  "rmsg_close X w = sx_close X w"

definition rmsg_failure_message ::
    "(gerr \<Rightarrow> string) \<Rightarrow> dispatch_failure \<Rightarrow> gerr + (string \<times> field_value) list" where
  "rmsg_failure_message etext failure =
     Inr [(''network'', FStr (df_network failure)), (''height'', FStr (hex_string (df_height failure))),
          (''errors'', FJson (JArr (map (JStr \<circ> etext) (df_errors failure))))]"

text \<open>The keys of a marshalled Go map are sorted.\<close>

definition rmsg_marshal_tx :: "ww_transaction \<Rightarrow> json" where
  "rmsg_marshal_tx tx =
     JObj [(''from'', JStr (wtx_from tx)), (''hash'', JStr (wtx_hash tx)), (''to'', JStr (wtx_to tx))]"

definition rmsg_txs_message ::
    "string \<Rightarrow> string \<Rightarrow> ww_transaction list \<Rightarrow> gerr + (string \<times> field_value) list" where
  "rmsg_txs_message network wallet txs =
     Inr [(''network'', FStr network), (''wallet'', FStr wallet),
          (''transactions'', FJson (JArr (map rmsg_marshal_tx txs)))]"

definition rmsg_notify_dispatch_failure ::
    "(gerr \<Rightarrow> string) \<Rightarrow> 'w streams \<Rightarrow> string \<Rightarrow> dispatch_failure \<Rightarrow> 'w \<Rightarrow> gerr option \<times> 'w" where
  "rmsg_notify_dispatch_failure etext X stream failure w =
     (case rmsg_failure_message etext failure of
        Inl err \<Rightarrow> (Some err, w)
      | Inr values \<Rightarrow> sx_xadd X stream ''*'' values w)"

definition rmsg_notify_transactions ::
    "'w streams \<Rightarrow> string \<Rightarrow> string \<Rightarrow> string \<Rightarrow> ww_transaction list \<Rightarrow> 'w \<Rightarrow> gerr option \<times> 'w" where
  "rmsg_notify_transactions X stream network wallet txs w =
     (case rmsg_txs_message network wallet txs of
        Inl err \<Rightarrow> (Some err, w)
      | Inr values \<Rightarrow> sx_xadd X stream ''*'' values w)"

definition rmsg_as_failure_notifier :: "(gerr \<Rightarrow> string) \<Rightarrow> 'w streams \<Rightarrow> string \<Rightarrow> 'w failure_notifier" where
  "rmsg_as_failure_notifier etext X stream = \<lparr>fn_notify = rmsg_notify_dispatch_failure etext X stream\<rparr>"

definition rmsg_as_tx_notifier :: "'w streams \<Rightarrow> string \<Rightarrow> 'w tx_notifier" where
  "rmsg_as_tx_notifier X stream = \<lparr>tn_notify = rmsg_notify_transactions X stream\<rparr>"

section \<open>The receiving end\<close>

text \<open>A subscriber that decodes the bodies into the same structs, as the tests of the repository do.\<close>

definition tx_message_fields :: "tx_message fields" where
  "tx_message_fields =
     [field ''hash'' dec_string tm_hash tm_hash_update, field ''from'' dec_string tm_from tm_from_update,
      field ''to'' dec_string tm_to tm_to_update]"

definition zero_tx_message :: tx_message where
  "zero_tx_message = \<lparr>tm_hash = '''', tm_from = '''', tm_to = ''''\<rparr>"

definition dec_tx_message :: "json \<Rightarrow> tx_message dec" where
  "dec_tx_message j = dec_struct tx_message_fields j zero_tx_message"

definition txs_message_fields :: "txs_message fields" where
  "txs_message_fields =
     [field ''network'' dec_string xm_network xm_network_update,
      field ''wallet_address'' dec_string xm_wallet_address xm_wallet_address_update,
      field ''transactions'' (dec_list dec_tx_message) xm_transactions xm_transactions_update]"

definition zero_txs_message :: txs_message where
  "zero_txs_message = \<lparr>xm_network = '''', xm_wallet_address = '''', xm_transactions = []\<rparr>"

definition decode_txs :: "json \<Rightarrow> txs_message \<times> gerr option" where
  "decode_txs j = unmarshal (dec_struct txs_message_fields) (Some j) zero_txs_message"

definition failure_message_fields :: "failure_message fields" where
  "failure_message_fields =
     [field ''network'' dec_string fm_network fm_network_update,
      field ''height'' hex_unmarshal fm_height fm_height_update,
      field ''errors'' (dec_list (\<lambda>j. dec_string j '''')) fm_errors fm_errors_update]"

definition zero_failure_message :: failure_message where
  "zero_failure_message = \<lparr>fm_network = '''', fm_height = '''', fm_errors = []\<rparr>"

definition decode_failure :: "json \<Rightarrow> failure_message \<times> gerr option" where
  "decode_failure j = unmarshal (dec_struct failure_message_fields) (Some j) zero_failure_message"

definition message_tx :: "tx_message \<Rightarrow> ww_transaction" where
  "message_tx t = \<lparr>wtx_hash = tm_hash t, wtx_from = tm_from t, wtx_to = tm_to t\<rparr>"

section \<open>Lemmas\<close>

lemmas message_decoding = find_field_def field_def first_err_def unmarshal_def

lemma dec_marshal_tx: "dec_tx_message (marshal_tx t) = Dec t None"
  by (simp add: dec_tx_message_def marshal_tx_def tx_message_fields_def zero_tx_message_def message_decoding)

lemma dec_rmsg_tx: "dec_tx_message (rmsg_marshal_tx t) = Dec (tx_to_message t) None"
  by (simp add: dec_tx_message_def rmsg_marshal_tx_def tx_message_fields_def zero_tx_message_def tx_to_message_def
      message_decoding)

lemma decode_marshal_txs: "decode_txs (marshal_txs m) = (m, None)"
  using dec_elems_map [of "xm_transactions m" dec_tx_message marshal_tx "\<lambda>t. t"]
  by (simp add: decode_txs_def marshal_txs_def txs_message_fields_def zero_txs_message_def message_decoding
      dec_marshal_tx)

lemma decode_marshal_failure:
  assumes "validate_hex (fm_height m) = None"
  shows "decode_failure (marshal_failure m) = (m, None)"
proof -
  have "hex_unmarshal (hex_marshal (fm_height m)) '''' = Dec (fm_height m) None"
    using assms by (simp add: hex_unmarshal_def hex_marshal_def)
  then show ?thesis
    using dec_elems_map [of "fm_errors m" "\<lambda>j. dec_string j ''''" JStr "\<lambda>s. s"]
    by (simp add: decode_failure_def marshal_failure_def failure_message_fields_def zero_failure_message_def
        message_decoding)
qed

lemma message_tx_inverse [simp]: "message_tx (tx_to_message t) = t"
  by (simp add: message_tx_def tx_to_message_def)

section \<open>Properties\<close>

text \<open>
  C40. A transaction notification is readable: on RabbitMQ one message is published whose body decodes,
  without an error, to the network, the wallet and exactly the transactions given, in order; the
  entry added to the Redis stream has the same content under its fields.
\<close>

theorem tx_notification_roundtrip:
  "(\<exists>p w1 m. rabbit_notify_transactions A ex key n a txs w = am_publish A ex key False False p w1 \<and>
      decode_txs (pb_body p) = (m, None) \<and> xm_network m = n \<and> xm_wallet_address m = a \<and>
      map message_tx (xm_transactions m) = txs) \<and>
   (\<exists>vs js ts. rmsg_notify_transactions X stream n a txs v = sx_xadd X stream ''*'' vs v \<and>
      map_of vs ''network'' = Some (FStr n) \<and> map_of vs ''wallet'' = Some (FStr a) \<and>
      map_of vs ''transactions'' = Some (FJson (JArr js)) \<and>
      dec_elems dec_tx_message js = Dec ts None \<and> map message_tx ts = txs)"
proof
  obtain u w1 where u: "am_uuid A w = (u, w1)" by (metis surj_pair)
  show "\<exists>p w1 m. rabbit_notify_transactions A ex key n a txs w = am_publish A ex key False False p w1 \<and>
      decode_txs (pb_body p) = (m, None) \<and> xm_network m = n \<and> xm_wallet_address m = a \<and>
      map message_tx (xm_transactions m) = txs"
    unfolding rabbit_notify_transactions_def rabbit_publish_def u prod.case
    by (intro exI [of _ w1] exI [of _ "make_txs_message n a txs"] exI conjI, rule refl)
       (simp_all add: decode_marshal_txs, simp_all add: make_txs_message_def o_def)
  have "dec_elems dec_tx_message (map rmsg_marshal_tx txs) = Dec (map tx_to_message txs) None"
    by (rule dec_elems_map) (rule dec_rmsg_tx)
  then show "\<exists>vs js ts. rmsg_notify_transactions X stream n a txs v = sx_xadd X stream ''*'' vs v \<and>
      map_of vs ''network'' = Some (FStr n) \<and> map_of vs ''wallet'' = Some (FStr a) \<and>
      map_of vs ''transactions'' = Some (FJson (JArr js)) \<and>
      dec_elems dec_tx_message js = Dec ts None \<and> map message_tx ts = txs"
    unfolding rmsg_notify_transactions_def rmsg_txs_message_def
    by (intro exI conjI) (auto simp: o_def)
qed

text \<open>
  A dispatch failure at a height that is a valid block number is readable: on RabbitMQ the body
  published decodes without an error to the network, the height and the texts of the errors in order,
  and the entry of the Redis stream has the same content.
\<close>

theorem failure_notification_roundtrip:
  assumes "validate_hex (df_height failure) = None"
  shows "(\<exists>p w1. rabbit_notify_dispatch_failure etext A ex key failure w = am_publish A ex key False False p w1 \<and>
            decode_failure (pb_body p) =
              (\<lparr>fm_network = df_network failure, fm_height = df_height failure,
                fm_errors = map etext (df_errors failure)\<rparr>, None)) \<and>
         (\<exists>vs js. rmsg_notify_dispatch_failure etext X stream failure v = sx_xadd X stream ''*'' vs v \<and>
            map_of vs ''network'' = Some (FStr (df_network failure)) \<and>
            map_of vs ''height'' = Some (FStr (df_height failure)) \<and>
            map_of vs ''errors'' = Some (FJson (JArr js)) \<and>
            dec_elems (\<lambda>j. dec_string j '''') js = Dec (map etext (df_errors failure)) None)"
proof
  obtain u w1 where u: "am_uuid A w = (u, w1)" by (metis surj_pair)
  let ?m = "make_failure_message etext failure"
  have "decode_failure (marshal_failure ?m) = (?m, None)"
    by (rule decode_marshal_failure) (simp add: make_failure_message_def assms)
  then show "\<exists>p w1. rabbit_notify_dispatch_failure etext A ex key failure w = am_publish A ex key False False p w1 \<and>
      decode_failure (pb_body p) = (\<lparr>fm_network = df_network failure, fm_height = df_height failure,
        fm_errors = map etext (df_errors failure)\<rparr>, None)"
    by (intro exI conjI)
       (simp add: rabbit_notify_dispatch_failure_def rabbit_publish_def u, simp add: make_failure_message_def)
  have "dec_elems (\<lambda>j. dec_string j '''') (map (JStr \<circ> etext) (df_errors failure)) = Dec (map etext (df_errors failure)) None"
    by (rule dec_elems_map) simp
  then show "\<exists>vs js. rmsg_notify_dispatch_failure etext X stream failure v = sx_xadd X stream ''*'' vs v \<and>
      map_of vs ''network'' = Some (FStr (df_network failure)) \<and>
      map_of vs ''height'' = Some (FStr (df_height failure)) \<and>
      map_of vs ''errors'' = Some (FJson (JArr js)) \<and>
      dec_elems (\<lambda>j. dec_string j '''') js = Dec (map etext (df_errors failure)) None"
    unfolding rmsg_notify_dispatch_failure_def rmsg_failure_message_def
    by (intro exI conjI) (auto simp: hex_string_def)
qed

theorem failure_notification_roundtrip_witness:
  "\<exists>vs js. rmsg_notify_dispatch_failure (\<lambda>_. ''down'')
       \<lparr>sx_ping = Pair None, sx_xadd = (\<lambda>_ _ vs w. (None, vs)), sx_close = Pair None\<rparr> ''failures''
       \<lparr>df_network = ''ETH'', df_height = ''0x1'', df_errors = [ErrJsonEOF]\<rparr> [] = (None, vs) \<and>
     map_of vs ''errors'' = Some (FJson (JArr js)) \<and> dec_elems (\<lambda>j. dec_string j '''') js = Dec [''down''] None"
proof -
  let ?X = "\<lparr>sx_ping = Pair None, sx_xadd = (\<lambda>_ _ vs w. (None, vs)), sx_close = Pair None\<rparr> ::
    (string \<times> field_value) list streams"
  let ?f = "\<lparr>df_network = ''ETH'', df_height = ''0x1'', df_errors = [ErrJsonEOF]\<rparr>"
  have "validate_hex (df_height ?f) = None"
    by (simp add: validate_hex_def has_prefix_def parse_uint_def hexval_def)
  note conjunct2 [OF failure_notification_roundtrip [OF this],
      where etext1 = "\<lambda>_. ''down''" and X1 = ?X and stream1 = "''failures''" and v1 = "[]"]
  then show ?thesis by auto
qed

end
