(* ===== verification/Bootstrap_Messaging.thy ===== *)
theory Bootstrap_Messaging
  imports Bootstrap_Storage Messaging
begin

text \<open>
  \<^verbatim>\<open>internal/bootstrap/messaging\<close>: the clients of the two engines behind one type, the factories
  with their interface adapters, \<^verbatim>\<open>Init\<close>, \<^verbatim>\<open>Resolve\<close> and \<^verbatim>\<open>Close\<close>. The type argument of
  \<^verbatim>\<open>Resolve\<close> is the adapter it looks up: a selector of the two target interfaces. A failed type
  assertion inside a factory or an adapter is a panic.
\<close>

section \<open>Clients, factories and adapters\<close>

record 'w messaging_drivers =
  md_streams :: "redis_cfg \<Rightarrow> 'w streams"
  md_amqp :: "rabbit_cfg \<Rightarrow> 'w amqp"
  md_text :: "gerr \<Rightarrow> string"

datatype 'w mq_client = MqRedis "'w streams" | MqRabbit "'w amqp"

datatype mq_cfg = McRedis redis_cfg | McRabbitMQ rabbit_cfg

datatype publisher_cfg = PcRedis redis_publisher | PcRabbitMQ rabbit_publisher

fun mq_close :: "'w mq_client \<Rightarrow> 'w \<Rightarrow> gerr option \<times> 'w" where
  "mq_close (MqRedis X) w = rmsg_close X w"
| "mq_close (MqRabbit A) w = rabbit_close A w"

record 'w messaging_factory =
  mf_build :: "mq_cfg \<Rightarrow> 'w \<Rightarrow> ((gerr + 'w mq_client) \<times> 'w) outcome"
  mf_tx_adapter :: "'w mq_client \<Rightarrow> publisher_cfg \<Rightarrow> 'w tx_notifier outcome"
  mf_failure_adapter :: "'w mq_client \<Rightarrow> publisher_cfg \<Rightarrow> 'w failure_notifier outcome"

definition redis_messaging_factory :: "'w messaging_drivers \<Rightarrow> 'w messaging_factory" where
  "redis_messaging_factory D =
     \<lparr>mf_build = (\<lambda>cfg w. case cfg of
          McRedis c \<Rightarrow>
            (case rmsg_new (md_streams D c) w of
               (Some err, w') \<Rightarrow> Val (Inl err, w')
             | (None, w') \<Rightarrow> Val (Inr (MqRedis (md_streams D c)), w'))
        | _ \<Rightarrow> Panic),
      mf_tx_adapter = (\<lambda>conn pub. case (conn, pub) of
          (MqRedis X, PcRedis p) \<Rightarrow> Val (rmsg_as_tx_notifier X (rp_stream p))
        | _ \<Rightarrow> Panic),
      mf_failure_adapter = (\<lambda>conn pub. case (conn, pub) of
          (MqRedis X, PcRedis p) \<Rightarrow> Val (rmsg_as_failure_notifier (md_text D) X (rp_stream p))
        | _ \<Rightarrow> Panic)\<rparr>"

definition rabbit_messaging_factory :: "'w messaging_drivers \<Rightarrow> 'w messaging_factory" where
  "rabbit_messaging_factory D =
     \<lparr>mf_build = (\<lambda>cfg w. case cfg of
          McRabbitMQ c \<Rightarrow>
            (case rabbit_new (md_amqp D c) (mcf_uri c) w of
               (Some err, w') \<Rightarrow> Val (Inl err, w')
             | (None, w') \<Rightarrow> Val (Inr (MqRabbit (md_amqp D c)), w'))
        | _ \<Rightarrow> Panic),
      mf_tx_adapter = (\<lambda>conn pub. case (conn, pub) of
          (MqRabbit A, PcRabbitMQ p) \<Rightarrow> Val (rabbit_as_tx_notifier A (mp_exchange p) (mp_routingKey p))
        | _ \<Rightarrow> Panic),
      mf_failure_adapter = (\<lambda>conn pub. case (conn, pub) of
          (MqRabbit A, PcRabbitMQ p) \<Rightarrow>
            Val (rabbit_as_failure_notifier (md_text D) A (mp_exchange p) (mp_routingKey p))
        | _ \<Rightarrow> Panic)\<rparr>"

definition messaging_factories :: "'w messaging_drivers \<Rightarrow> (string \<times> 'w messaging_factory) list" where
  "messaging_factories D = [(''REDIS'', redis_messaging_factory D), (''RABBITMQ'', rabbit_messaging_factory D)]"

text \<open>The target interfaces of \<^verbatim>\<open>adaptMessaging\<close>, by the entry of \<^verbatim>\<open>InterfaceAdapters\<close> they select.\<close>

type_synonym ('w, 't) adapter = "'w messaging_factory \<Rightarrow> 'w mq_client \<Rightarrow> publisher_cfg \<Rightarrow> 't outcome"

definition adapt_messaging ::
    "'w messaging_drivers \<Rightarrow> ('w, 't) adapter \<Rightarrow> 'w mq_client \<Rightarrow> publisher_cfg \<Rightarrow> string \<Rightarrow> (gerr + 't) outcome" where
  "adapt_messaging D adapter conn pub engineName =
     (case map_of (messaging_factories D) engineName of
        None \<Rightarrow> Val (Inl (ErrMsg (''no factory registered for engine '' @ quoted engineName)))
      | Some factory \<Rightarrow> bind_outcome (adapter factory conn pub) (\<lambda>instance. Val (Inr instance)))"

definition publisher_fields :: "message_publisher \<Rightarrow> (string \<times> publisher_cfg option) list" where
  "publisher_fields p =
     [(''Redis'', map_option PcRedis (pb_redis p)), (''RabbitMQ'', map_option PcRabbitMQ (pb_rabbitmq p))]"

fun find_publisher :: "string \<Rightarrow> (string \<times> publisher_cfg option) list \<Rightarrow> gerr + publisher_cfg" where
  "find_publisher engineName [] =
     Inl (ErrMsg (''no publisher configuration found for engine '' @ quoted engineName))"
| "find_publisher engineName ((name, fld) # rest) =
     (case fld of
        Some cfg \<Rightarrow> if equal_fold name engineName then Inr cfg else find_publisher engineName rest
      | None \<Rightarrow> find_publisher engineName rest)"

definition extract_publisher_config :: "string \<Rightarrow> message_publisher \<Rightarrow> gerr + publisher_cfg" where
  "extract_publisher_config engineName publishers = find_publisher engineName (publisher_fields publishers)"

section \<open>Init, Resolve, Close\<close>

record 'w messaging_state =
  mst_defaults :: "(string \<times> 'w mq_client) list"
  mst_opened :: "'w mq_client list"

definition messaging_engine_fields :: "messaging_engines \<Rightarrow> (string \<times> mq_cfg option) list" where
  "messaging_engine_fields e =
     [(''Redis'', map_option McRedis (me_redis e)), (''RabbitMQ'', map_option McRabbitMQ (me_rabbitmq e))]"

definition messaging_inline_fields :: "messaging_inline \<Rightarrow> (string \<times> mq_cfg option) list" where
  "messaging_inline_fields i =
     [(''Redis'', map_option McRedis (mi_redis i)), (''RabbitMQ'', map_option McRabbitMQ (mi_rabbitmq i))]"

fun messaging_init_fields ::
    "'w messaging_drivers \<Rightarrow> (string \<times> mq_cfg option) list \<Rightarrow> 'w messaging_state \<Rightarrow> 'w \<Rightarrow>
     (gerr option \<times> 'w messaging_state \<times> 'w) outcome" where
  "messaging_init_fields D [] st w = Val (None, st, w)"
| "messaging_init_fields D ((name, None) # rest) st w = messaging_init_fields D rest st w"
| "messaging_init_fields D ((name, Some cfg) # rest) st w =
     (let engineName = to_upper name in
      case map_of (messaging_factories D) engineName of
        None \<Rightarrow> Val (Some (ErrMsg (''no messaging factory registered for engine '' @ quoted engineName)), st, w)
      | Some factory \<Rightarrow>
          bind_outcome (mf_build factory cfg w) (\<lambda>r.
            case r of
              (Inl err, w') \<Rightarrow>
                Val (Some (ErrWrap (''failed to initialize messaging engine '' @ quoted engineName) err), st, w')
            | (Inr conn, w') \<Rightarrow>
                messaging_init_fields D rest
                  (st\<lparr>mst_defaults := AList.update engineName conn (mst_defaults st),
                      mst_opened := mst_opened st @ [conn]\<rparr>) w'))"

definition messaging_init ::
    "'w messaging_drivers \<Rightarrow> messaging_engines \<Rightarrow> 'w \<Rightarrow> (gerr option \<times> 'w messaging_state \<times> 'w) outcome" where
  "messaging_init D e w = messaging_init_fields D (messaging_engine_fields e) \<lparr>mst_defaults = [], mst_opened = []\<rparr> w"

text \<open>What both branches of \<^verbatim>\<open>Resolve\<close> end with.\<close>

definition finish_resolve ::
    "'w messaging_drivers \<Rightarrow> ('w, 't) adapter \<Rightarrow> 'w mq_client \<Rightarrow> string \<Rightarrow> message_publisher \<Rightarrow> (gerr + 't) outcome" where
  "finish_resolve D adapter conn engineName publishers =
     (case extract_publisher_config engineName publishers of
        Inl err \<Rightarrow> Val (Inl err)
      | Inr pubCfg \<Rightarrow> adapt_messaging D adapter conn pubCfg engineName)"

fun messaging_resolve_fields ::
    "'w messaging_drivers \<Rightarrow> ('w, 't) adapter \<Rightarrow> message_publisher \<Rightarrow> (string \<times> mq_cfg option) list \<Rightarrow>
     'w messaging_state \<Rightarrow> 'w \<Rightarrow> ((gerr + 't) \<times> 'w messaging_state \<times> 'w) outcome" where
  "messaging_resolve_fields D adapter pubs [] st w =
     Val (Inl (ErrMsg ''no valid messaging engine configuration provided''), st, w)"
| "messaging_resolve_fields D adapter pubs ((name, None) # rest) st w =
     messaging_resolve_fields D adapter pubs rest st w"
| "messaging_resolve_fields D adapter pubs ((name, Some cfg) # rest) st w =
     (let engineName = to_upper name in
      case map_of (messaging_factories D) engineName of
        None \<Rightarrow> Val (Inl (ErrMsg (''no messaging factory registered for engine '' @ quoted engineName)), st, w)
      | Some factory \<Rightarrow>
          bind_outcome (mf_build factory cfg w) (\<lambda>r.
            case r of
              (Inl err, w') \<Rightarrow>
                Val (Inl (ErrWrap (''failed to create inline messaging instance for engine '' @ quoted engineName) err), st, w')
            | (Inr conn, w') \<Rightarrow>
                bind_outcome (finish_resolve D adapter conn engineName pubs) (\<lambda>t.
                  Val (t, st\<lparr>mst_opened := mst_opened st @ [conn]\<rparr>, w'))))"

definition messaging_resolve ::
    "'w messaging_drivers \<Rightarrow> ('w, 't) adapter \<Rightarrow> messaging_picker \<Rightarrow> 'w messaging_state \<Rightarrow> 'w \<Rightarrow>
     ((gerr + 't) \<times> 'w messaging_state \<times> 'w) outcome" where
  "messaging_resolve D adapter picker st w =
     (let engineName = to_upper (mk_engine picker) in
      if engineName \<noteq> '''' then
        (case map_of (mst_defaults st) engineName of
           None \<Rightarrow> Val (Inl (ErrMsg (''no default messaging instance found for engine '' @ quoted engineName)), st, w)
         | Some conn \<Rightarrow>
             bind_outcome (finish_resolve D adapter conn engineName (mk_publisher picker)) (\<lambda>t. Val (t, st, w)))
      else messaging_resolve_fields D adapter (mk_publisher picker) (messaging_inline_fields (mk_inline picker)) st w)"

definition messaging_close :: "'w messaging_state \<Rightarrow> 'w \<Rightarrow> gerr option \<times> 'w" where
  "messaging_close st w = (case close_each mq_close (mst_opened st) w of (errs, w') \<Rightarrow> (errors_join errs, w'))"

section \<open>Lemmas\<close>

text \<open>The connection and the notifiers a picker stands for, read off the configuration.\<close>

definition mq_redis_cfg :: "messaging_engines \<Rightarrow> messaging_picker \<Rightarrow> redis_cfg option" where
  "mq_redis_cfg es p = (if mk_engine p = EngineRedis then me_redis es else mi_redis (mk_inline p))"

definition mq_rabbit_cfg :: "messaging_engines \<Rightarrow> messaging_picker \<Rightarrow> rabbit_cfg option" where
  "mq_rabbit_cfg es p = (if mk_engine p = EngineRabbitMQ then me_rabbitmq es else mi_rabbitmq (mk_inline p))"

definition mq_backend :: "'w messaging_drivers \<Rightarrow> messaging_engines \<Rightarrow> messaging_picker \<Rightarrow> 'w mq_client option" where
  "mq_backend D es p =
     (case mq_redis_cfg es p of
        Some c \<Rightarrow> Some (MqRedis (md_streams D c))
      | None \<Rightarrow> map_option (MqRabbit \<circ> md_amqp D) (mq_rabbit_cfg es p))"

fun tx_notifier_of :: "'w mq_client \<Rightarrow> message_publisher \<Rightarrow> 'w tx_notifier option" where
  "tx_notifier_of (MqRedis X) pub = map_option (\<lambda>p. rmsg_as_tx_notifier X (rp_stream p)) (pb_redis pub)"
| "tx_notifier_of (MqRabbit A) pub =
     map_option (\<lambda>p. rabbit_as_tx_notifier A (mp_exchange p) (mp_routingKey p)) (pb_rabbitmq pub)"

fun failure_notifier_of :: "(gerr \<Rightarrow> string) \<Rightarrow> 'w mq_client \<Rightarrow> message_publisher \<Rightarrow> 'w failure_notifier option" where
  "failure_notifier_of etext (MqRedis X) pub =
     map_option (\<lambda>p. rmsg_as_failure_notifier etext X (rp_stream p)) (pb_redis pub)"
| "failure_notifier_of etext (MqRabbit A) pub =
     map_option (\<lambda>p. rabbit_as_failure_notifier etext A (mp_exchange p) (mp_routingKey p)) (pb_rabbitmq pub)"

definition messaging_ready :: "'w messaging_drivers \<Rightarrow> messaging_engines \<Rightarrow> 'w messaging_state \<Rightarrow> bool" where
  "messaging_ready D es st \<longleftrightarrow>
     map_of (mst_defaults st) ''REDIS'' = map_option (MqRedis \<circ> md_streams D) (me_redis es) \<and>
     map_of (mst_defaults st) ''RABBITMQ'' = map_option (MqRabbit \<circ> md_amqp D) (me_rabbitmq es) \<and>
     (\<forall>k c. map_of (mst_defaults st) k = Some c \<longrightarrow> c \<in> set (mst_opened st))"

lemma messaging_factories_simps [simp]:
  "map_of (messaging_factories D) ''REDIS'' = Some (redis_messaging_factory D)"
  "map_of (messaging_factories D) ''RABBITMQ'' = Some (rabbit_messaging_factory D)"
  by (simp_all add: messaging_factories_def)

lemma publisher_names [simp]:
  "equal_fold ''Redis'' ''REDIS''" "equal_fold ''RabbitMQ'' ''RABBITMQ''" "\<not> equal_fold ''Redis'' ''RABBITMQ''"
  by code_simp+

lemmas messaging_factory_defs = redis_messaging_factory_def rabbit_messaging_factory_def

lemma messaging_init_result:
  "\<exists>r st' w'. messaging_init D es w = Val (r, st', w') \<and>
     (case r of None \<Rightarrow> messaging_ready D es st' | Some err \<Rightarrow> connection_error err)"
  by (cases "me_redis es"; cases "me_rabbitmq es")
     (auto simp: messaging_init_def messaging_engine_fields_def messaging_ready_def messaging_factory_defs
       connection_error_def update_conv split: prod.splits option.splits)

text \<open>
  An adapter that is right on both engines: for a client and a publisher of the same engine it is
  what \<open>notifier\<close> gives. Then \<^verbatim>\<open>Resolve\<close> of a valid picker fails only when a connection does.
\<close>

lemma messaging_resolve_result:
  assumes "messaging_ready D es st" "wf_messaging_picker es p"
    and "\<And>X s. \<exists>t. adapter (redis_messaging_factory D) (MqRedis X) (PcRedis s) = Val t \<and>
      notifier (MqRedis X) \<lparr>pb_redis = Some s, pb_rabbitmq = None\<rparr> = Some t"
    and "\<And>A k. \<exists>t. adapter (rabbit_messaging_factory D) (MqRabbit A) (PcRabbitMQ k) = Val t \<and>
      notifier (MqRabbit A) \<lparr>pb_redis = None, pb_rabbitmq = Some k\<rparr> = Some t"
  shows "\<exists>r st' w'. messaging_resolve D adapter p st w = Val (r, st', w') \<and> messaging_ready D es st' \<and>
    set (mst_opened st) \<subseteq> set (mst_opened st') \<and>
    (case r of
       Inl err \<Rightarrow> connection_error err
     | Inr t \<Rightarrow> \<exists>c. mq_backend D es p = Some c \<and> c \<in> set (mst_opened st') \<and> notifier c (mk_publisher p) = Some t)"
proof -
  note defs = messaging_resolve_def messaging_inline_fields_def messaging_ready_def finish_resolve_def
    extract_publisher_config_def publisher_fields_def adapt_messaging_def mq_backend_def mq_redis_cfg_def
    mq_rabbit_cfg_def EngineRedis_def EngineRabbitMQ_def connection_error_def
  from assms(2) show ?thesis
  proof cases
    case (1 c s)
    then show ?thesis using assms(1) assms(3) [of "md_streams D c" s] by (auto simp: defs)
  next
    case (2 d k)
    then show ?thesis using assms(1) assms(4) [of "md_amqp D d" k] by (auto simp: defs)
  next
    case (3 c s)
    then show ?thesis using assms(1) assms(3) [of "md_streams D c" s]
      by (auto simp: defs redis_messaging_factory_def split: prod.splits option.splits)
  next
    case (4 d k)
    then show ?thesis using assms(1) assms(4) [of "md_amqp D d" k]
      by (auto simp: defs rabbit_messaging_factory_def split: prod.splits option.splits)
  qed
qed

lemma resolve_tx_notifier_result:
  assumes "messaging_ready D es st" "wf_messaging_picker es p"
  shows "\<exists>r st' w'. messaging_resolve D mf_tx_adapter p st w = Val (r, st', w') \<and> messaging_ready D es st' \<and>
    set (mst_opened st) \<subseteq> set (mst_opened st') \<and>
    (case r of
       Inl err \<Rightarrow> connection_error err
     | Inr t \<Rightarrow> \<exists>c. mq_backend D es p = Some c \<and> c \<in> set (mst_opened st') \<and> tx_notifier_of c (mk_publisher p) = Some t)"
  using assms by (rule messaging_resolve_result) (simp_all add: messaging_factory_defs)

lemma resolve_failure_notifier_result:
  assumes "messaging_ready D es st" "wf_messaging_picker es p"
  shows "\<exists>r st' w'. messaging_resolve D mf_failure_adapter p st w = Val (r, st', w') \<and> messaging_ready D es st' \<and>
    set (mst_opened st) \<subseteq> set (mst_opened st') \<and>
    (case r of
       Inl err \<Rightarrow> connection_error err
     | Inr t \<Rightarrow> \<exists>c. mq_backend D es p = Some c \<and> c \<in> set (mst_opened st') \<and>
         failure_notifier_of (md_text D) c (mk_publisher p) = Some t)"
  using assms by (rule messaging_resolve_result) (simp_all add: messaging_factory_defs)

end
