(* ===== verification/Solana.thy ===== *)
theory Solana
  imports Poller Jsonrpc
begin

text \<open>
  \<^verbatim>\<open>internal/infra/blockchain/solana\<close>: the JSON types of the node, the extraction of transfer
  instructions, and the two calls that instantiate the polling loop of theory \<open>Poller\<close>.
\<close>

section \<open>Types of the JSON API\<close>

record parsed_info =
  pi_source :: string
  pi_destination :: string
  pi_lamports :: int64

record parsed_instruction =
  pin_info :: parsed_info
  pin_type :: string

record instruction =
  ins_parsed :: "parsed_instruction option"
  ins_program :: string
  ins_programId :: string
  ins_stackHeight :: "int64 option"

record account_key =
  ak_pubkey :: string
  ak_signer :: bool
  ak_source :: string
  ak_writable :: bool

record sol_message =
  msg_accountKeys :: "account_key list"
  msg_instructions :: "instruction list"
  msg_recentBlockhash :: string

record inner_transaction =
  itx_signatures :: "string list"
  itx_message :: sol_message

record sol_transaction =
  stx_meta :: "(string \<times> json) list"
  stx_transaction :: inner_transaction

record block_result =
  bres_blockHeight :: int64
  bres_blockTime :: "int64 option"
  bres_blockhash :: string
  bres_parentSlot :: int64
  bres_previousBlockhash :: string
  bres_transactions :: "sol_transaction list"

section \<open>Their decoding\<close>

definition zero_parsed_info :: parsed_info where
  "zero_parsed_info = \<lparr>pi_source = '''', pi_destination = '''', pi_lamports = 0\<rparr>"

definition parsed_info_fields :: "parsed_info fields" where
  "parsed_info_fields =
     [field ''source'' dec_string pi_source pi_source_update,
      field ''destination'' dec_string pi_destination pi_destination_update,
      field ''lamports'' dec_uint64 pi_lamports pi_lamports_update]"

definition zero_parsed_instruction :: parsed_instruction where
  "zero_parsed_instruction = \<lparr>pin_info = zero_parsed_info, pin_type = ''''\<rparr>"

definition parsed_instruction_fields :: "parsed_instruction fields" where
  "parsed_instruction_fields =
     [field ''info'' (dec_struct parsed_info_fields) pin_info pin_info_update,
      field ''type'' dec_string pin_type pin_type_update]"

definition zero_instruction :: instruction where
  "zero_instruction =
     \<lparr>ins_parsed = None, ins_program = '''', ins_programId = '''', ins_stackHeight = None\<rparr>"

definition instruction_fields :: "instruction fields" where
  "instruction_fields =
     [field ''parsed'' (dec_pointer (\<lambda>j. dec_struct parsed_instruction_fields j zero_parsed_instruction))
        ins_parsed ins_parsed_update,
      field ''program'' dec_string ins_program ins_program_update,
      field ''programId'' dec_string ins_programId ins_programId_update,
      field ''stackHeight'' (dec_pointer (\<lambda>j. dec_int64 j 0)) ins_stackHeight ins_stackHeight_update]"

definition zero_account_key :: account_key where
  "zero_account_key = \<lparr>ak_pubkey = '''', ak_signer = False, ak_source = '''', ak_writable = False\<rparr>"

definition account_key_fields :: "account_key fields" where
  "account_key_fields =
     [field ''pubkey'' dec_string ak_pubkey ak_pubkey_update,
      field ''signer'' dec_bool ak_signer ak_signer_update,
      field ''source'' dec_string ak_source ak_source_update,
      field ''writable'' dec_bool ak_writable ak_writable_update]"

definition zero_sol_message :: sol_message where
  "zero_sol_message = \<lparr>msg_accountKeys = [], msg_instructions = [], msg_recentBlockhash = ''''\<rparr>"

definition sol_message_fields :: "sol_message fields" where
  "sol_message_fields =
     [field ''accountKeys'' (dec_list (\<lambda>j. dec_struct account_key_fields j zero_account_key))
        msg_accountKeys msg_accountKeys_update,
      field ''instructions'' (dec_list (\<lambda>j. dec_struct instruction_fields j zero_instruction))
        msg_instructions msg_instructions_update,
      field ''recentBlockhash'' dec_string msg_recentBlockhash msg_recentBlockhash_update]"

definition zero_inner_transaction :: inner_transaction where
  "zero_inner_transaction = \<lparr>itx_signatures = [], itx_message = zero_sol_message\<rparr>"

definition inner_transaction_fields :: "inner_transaction fields" where
  "inner_transaction_fields =
     [field ''signatures'' (dec_list (\<lambda>j. dec_string j '''')) itx_signatures itx_signatures_update,
      field ''message'' (dec_struct sol_message_fields) itx_message itx_message_update]"

text \<open>The metadata is a \<^verbatim>\<open>map[string]any\<close>: any object, kept as it is.\<close>

fun dec_any_map :: "json \<Rightarrow> (string \<times> json) list \<Rightarrow> (string \<times> json) list dec" where
  "dec_any_map (JObj ms) old = Dec ms None"
| "dec_any_map JNull old = Dec [] None"
| "dec_any_map _ old = Dec old (Some ErrJsonType)"

definition zero_sol_transaction :: sol_transaction where
  "zero_sol_transaction = \<lparr>stx_meta = [], stx_transaction = zero_inner_transaction\<rparr>"

definition sol_transaction_fields :: "sol_transaction fields" where
  "sol_transaction_fields =
     [field ''meta'' dec_any_map stx_meta stx_meta_update,
      field ''transaction'' (dec_struct inner_transaction_fields) stx_transaction stx_transaction_update]"

definition zero_block_result :: block_result where
  "zero_block_result =
     \<lparr>bres_blockHeight = 0, bres_blockTime = None, bres_blockhash = '''', bres_parentSlot = 0,
      bres_previousBlockhash = '''', bres_transactions = []\<rparr>"

definition block_result_fields :: "block_result fields" where
  "block_result_fields =
     [field ''blockHeight'' dec_uint64 bres_blockHeight bres_blockHeight_update,
      field ''blockTime'' (dec_pointer (\<lambda>j. dec_int64 j 0)) bres_blockTime bres_blockTime_update,
      field ''blockhash'' dec_string bres_blockhash bres_blockhash_update,
      field ''parentSlot'' dec_uint64 bres_parentSlot bres_parentSlot_update,
      field ''previousBlockhash'' dec_string bres_previousBlockhash bres_previousBlockhash_update,
      field ''transactions'' (dec_list (\<lambda>j. dec_struct sol_transaction_fields j zero_sol_transaction))
        bres_transactions bres_transactions_update]"

section \<open>Conversion to the domain\<close>

text \<open>The body of the loop over the instructions: a transfer is appended, anything else skipped.\<close>

definition add_transfer :: "string \<Rightarrow> instruction \<Rightarrow> cs_transaction list \<Rightarrow> cs_transaction list" where
  "add_transfer transactionHash ins txs =
     (case ins_parsed ins of
        None \<Rightarrow> txs
      | Some p \<Rightarrow>
          if pin_type p \<noteq> ''transfer'' then txs
          else txs @ [\<lparr>ctx_hash = transactionHash, ctx_from = pi_source (pin_info p),
                       ctx_to = pi_destination (pin_info p)\<rparr>])"

definition to_stream_transactions :: "sol_transaction \<Rightarrow> cs_transaction list" where
  "to_stream_transactions t =
     (case itx_signatures (stx_transaction t) of
        [] \<Rightarrow> []
      | transactionHash # _ \<Rightarrow>
          fold (add_transfer transactionHash) (msg_instructions (itx_message (stx_transaction t))) [])"

definition to_stream_block :: "block_result \<Rightarrow> cs_block" where
  "to_stream_block b =
     \<lparr>blk_height = hex_from_int (bres_blockHeight b), blk_hash = bres_blockhash b,
      blk_transactions = fold (\<lambda>tx txs. txs @ to_stream_transactions tx) (bres_transactions b) []\<rparr>"

section \<open>The calls to the node\<close>

definition sol_get_latest_block_height :: "'w rpc \<Rightarrow> 'w latest_fn" where
  "sol_get_latest_block_height fetch w =
     (case fetch ''getBlockHeight'' [JObj [(''commitment'', JStr ''finalized'')]] w of
        ((data, Some err), w') \<Rightarrow> (('''', Some err), w')
      | ((data, None), w') \<Rightarrow>
          (case unmarshal dec_int64 data 0 of
             (height, Some err) \<Rightarrow> (('''', Some err), w')
           | (height, None) \<Rightarrow> ((hex_from_int height, None), w')))"

text \<open>The request carries \<^verbatim>\<open>height.Int()\<close>, which panics on a height of fewer than two bytes.\<close>

definition sol_get_block_by_height ::
    "'w rpc \<Rightarrow> hex \<Rightarrow> 'w \<Rightarrow> ((block_result \<times> gerr option) \<times> 'w) outcome" where
  "sol_get_block_by_height fetch height w =
     bind_outcome (hex_int height) (\<lambda>i.
       Val (case fetch ''getBlock''
              [JInt (sint i),
               JObj [(''commitment'', JStr ''finalized''), (''encoding'', JStr ''jsonParsed''),
                     (''transactionDetails'', JStr ''full'')]] w of
              ((data, Some err), w') \<Rightarrow> ((zero_block_result, Some err), w')
            | ((data, None), w') \<Rightarrow> (unmarshal (dec_struct block_result_fields) data zero_block_result, w')))"

text \<open>
  The loop calls it on heights it has just read with \<^verbatim>\<open>h.Int()\<close>, so the panic cannot occur
  there; the other branch of this definition is never taken (\<open>sol_get_block_panic_free\<close>).
\<close>

definition sol_get_block :: "'w rpc \<Rightarrow> 'w block_fn" where
  "sol_get_block fetch h w =
     (case sol_get_block_by_height fetch h w of
        Panic \<Rightarrow> ((zero_block, Some (ErrMsg ''panic'')), w)
      | Val ((resp, err), w') \<Rightarrow> ((to_stream_block resp, err), w'))"

definition sol_poll_new_blocks ::
    "'w rpc \<Rightarrow> hex \<Rightarrow> 'w \<Rightarrow> (blockchain_event list \<times> hex \<times> 'w) outcome option" where
  "sol_poll_new_blocks fetch =
     poll_new_blocks (sol_get_latest_block_height fetch) (sol_get_block fetch)"

definition sol_fetch_block_by_height ::
    "'w rpc \<Rightarrow> hex \<Rightarrow> 'w \<Rightarrow> ((cs_block \<times> gerr option) \<times> 'w) outcome" where
  "sol_fetch_block_by_height fetch height w =
     bind_outcome (sol_get_block_by_height fetch height w) (\<lambda>r.
       Val (case r of
              ((resp, Some err), w') \<Rightarrow> ((zero_block, Some err), w')
            | ((resp, None), w') \<Rightarrow> ((to_stream_block resp, None), w')))"

definition sol_subscribe_init :: "'w rpc \<Rightarrow> hex \<Rightarrow> 'w \<Rightarrow> (gerr + hex) \<times> 'w" where
  "sol_subscribe_init fetch = subscribe_init (sol_get_latest_block_height fetch)"

definition sol_subscribe_rounds ::
    "'w rpc \<Rightarrow> nat \<Rightarrow> hex \<Rightarrow> 'w \<Rightarrow> (blockchain_event list \<times> hex \<times> 'w) outcome option" where
  "sol_subscribe_rounds fetch =
     subscribe_rounds (sol_get_latest_block_height fetch) (sol_get_block fetch)"

section \<open>The client as a block source\<close>

lemma length_hex_from_int: "2 \<le> length (hex_from_int v)"
  by (simp add: hex_from_int_def)

interpretation sol: block_source "sol_get_latest_block_height fetch" "sol_get_block fetch" for fetch
proof
  fix w h w'
  assume "sol_get_latest_block_height fetch w = ((h, None), w')"
  then show "2 \<le> length h"
    by (auto simp: sol_get_latest_block_height_def length_hex_from_int
        split: prod.splits option.splits)
qed

lemma sol_get_block_panic_free: "2 \<le> length h \<Longrightarrow> sol_get_block_by_height fetch h w \<noteq> Panic"
  using hex_int_Val_iff [of h] by (auto simp: sol_get_block_by_height_def)

section \<open>Lemmas\<close>

text \<open>The specification of the extraction: the transfers of a transaction, in order.\<close>

definition is_transfer :: "instruction \<Rightarrow> bool" where
  "is_transfer ins \<longleftrightarrow> (\<exists>p. ins_parsed ins = Some p \<and> pin_type p = ''transfer'')"

definition transfer_of :: "string \<Rightarrow> instruction \<Rightarrow> cs_transaction" where
  "transfer_of h ins =
     (let i = pin_info (the (ins_parsed ins)) in
      \<lparr>ctx_hash = h, ctx_from = pi_source i, ctx_to = pi_destination i\<rparr>)"

lemma fold_add_transfer:
  "fold (add_transfer h) inss txs = txs @ map (transfer_of h) (filter is_transfer inss)"
  by (induction inss arbitrary: txs)
     (auto simp: add_transfer_def is_transfer_def transfer_of_def Let_def split: option.splits)

lemma fold_append_concat: "fold (\<lambda>x acc. acc @ f x) xs acc = acc @ concat (map f xs)"
  by (induction xs arbitrary: acc) auto

lemma to_stream_transactions_eq:
  "to_stream_transactions t =
     (case itx_signatures (stx_transaction t) of
        [] \<Rightarrow> []
      | h # _ \<Rightarrow> map (transfer_of h) (filter is_transfer (msg_instructions (itx_message (stx_transaction t)))))"
  by (simp add: to_stream_transactions_def fold_add_transfer split: list.splits)

lemma to_stream_zero: "to_stream_block zero_block_result =
    \<lparr>blk_height = ''0x0'', blk_hash = '''', blk_transactions = []\<rparr>"
  by (simp add: to_stream_block_def zero_block_result_def hex_from_int_nonneg fmt_hex_small)

text \<open>A node that always answers with the same height and with \<^verbatim>\<open>null\<close> for every block.\<close>

definition canned_solana :: "int \<Rightarrow> unit rpc" where
  "canned_solana height method params w =
     (if method = ''getBlockHeight'' then ((Some (JInt height), None), w) else ((Some JNull, None), w))"

section \<open>Blocks as the node sends them\<close>

text \<open>
  The answer of \<^verbatim>\<open>getBlock\<close> with the encoding \<^verbatim>\<open>jsonParsed\<close>. An instruction of a program that the node has no parser
  for is sent raw; the parser of a program yields an object with a type and the arguments or, like that of the
  memo program, a text.
\<close>

datatype node_instruction =
    RawInstruction "string list" string string
  | TextInstruction string string string
  | ParsedInstruction string string string "(string \<times> json) list"

record node_transaction =
  ntx_meta :: "(string \<times> json) list"
  ntx_signatures :: "string list"
  ntx_accountKeys :: "account_key list"
  ntx_instructions :: "node_instruction list"
  ntx_recentBlockhash :: string

record node_block =
  nbl_height :: int
  nbl_hash :: string
  nbl_parentSlot :: int
  nbl_previous :: string
  nbl_transactions :: "node_transaction list"

fun instruction_json :: "node_instruction \<Rightarrow> json" where
  "instruction_json (RawInstruction accounts text_data programId) =
     JObj [(''accounts'', JArr (map JStr accounts)), (''data'', JStr text_data), (''programId'', JStr programId),
           (''stackHeight'', JNull)]"
| "instruction_json (TextInstruction prog programId memo) =
     JObj [(''parsed'', JStr memo), (''program'', JStr prog), (''programId'', JStr programId), (''stackHeight'', JNull)]"
| "instruction_json (ParsedInstruction prog programId ty info) =
     JObj [(''parsed'', JObj [(''info'', JObj info), (''type'', JStr ty)]), (''program'', JStr prog),
           (''programId'', JStr programId), (''stackHeight'', JNull)]"

definition account_key_json :: "account_key \<Rightarrow> json" where
  "account_key_json k =
     JObj [(''pubkey'', JStr (ak_pubkey k)), (''signer'', JBool (ak_signer k)), (''source'', JStr (ak_source k)),
           (''writable'', JBool (ak_writable k))]"

definition node_transaction_json :: "node_transaction \<Rightarrow> json" where
  "node_transaction_json t =
     JObj [(''meta'', JObj (ntx_meta t)),
           (''transaction'', JObj
              [(''message'', JObj
                  [(''accountKeys'', JArr (map account_key_json (ntx_accountKeys t))),
                   (''instructions'', JArr (map instruction_json (ntx_instructions t))),
                   (''recentBlockhash'', JStr (ntx_recentBlockhash t))]),
               (''signatures'', JArr (map JStr (ntx_signatures t)))])]"

definition node_block_json :: "node_block \<Rightarrow> json" where
  "node_block_json b =
     JObj [(''blockHeight'', JInt (nbl_height b)), (''blockTime'', JNull), (''blockhash'', JStr (nbl_hash b)),
           (''parentSlot'', JInt (nbl_parentSlot b)), (''previousBlockhash'', JStr (nbl_previous b)),
           (''transactions'', JArr (map node_transaction_json (nbl_transactions b)))]"

text \<open>
  The arguments are those of the program, once each; where a name is one that the code reads, the value has the type
  that the code expects.
\<close>

definition argument_ok :: "string \<times> json \<Rightarrow> bool" where
  "argument_ok = (\<lambda>(k, j).
     if k = ''source'' \<or> k = ''destination'' then (case j of JStr _ \<Rightarrow> True | _ \<Rightarrow> False)
     else if k = ''lamports'' then (case j of JInt i \<Rightarrow> 0 \<le> i \<and> i < 2 ^ 64 | _ \<Rightarrow> False)
     else find_field parsed_info_fields k = None)"

fun instruction_ok :: "node_instruction \<Rightarrow> bool" where
  "instruction_ok (ParsedInstruction prog programId ty info) \<longleftrightarrow> distinct (map fst info) \<and> list_all argument_ok info"
| "instruction_ok _ \<longleftrightarrow> True"

definition node_block_ok :: "node_block \<Rightarrow> bool" where
  "node_block_ok b \<longleftrightarrow>
     0 \<le> nbl_height b \<and> nbl_height b < 2 ^ 64 \<and> 0 \<le> nbl_parentSlot b \<and> nbl_parentSlot b < 2 ^ 64 \<and>
     (\<forall>t \<in> set (nbl_transactions b). list_all instruction_ok (ntx_instructions t))"

fun text_instruction :: "node_instruction \<Rightarrow> bool" where
  "text_instruction (TextInstruction _ _ _) = True"
| "text_instruction _ = False"

definition has_text :: "node_transaction \<Rightarrow> bool" where
  "has_text t \<longleftrightarrow> (\<exists>x \<in> set (ntx_instructions t). text_instruction x)"

text \<open>The transfers in a block, each with its transaction and its program.\<close>

fun text_or :: "string \<Rightarrow> json option \<Rightarrow> string" where
  "text_or d (Some (JStr s)) = s"
| "text_or d _ = d"

definition argument :: "(string \<times> json) list \<Rightarrow> string \<Rightarrow> string" where
  "argument info k = text_or '''' (map_of info k)"

fun transfers_of :: "string \<Rightarrow> node_instruction \<Rightarrow> (string \<times> cs_transaction) list" where
  "transfers_of sig (ParsedInstruction prog programId ty info) =
     (if ty = ''transfer''
      then [(prog, \<lparr>ctx_hash = sig, ctx_from = argument info ''source'', ctx_to = argument info ''destination''\<rparr>)]
      else [])"
| "transfers_of sig _ = []"

definition transaction_transfers :: "node_transaction \<Rightarrow> (string \<times> cs_transaction) list" where
  "transaction_transfers t =
     (case ntx_signatures t of [] \<Rightarrow> [] | sig # _ \<Rightarrow> concat (map (transfers_of sig) (ntx_instructions t)))"

definition block_transfers :: "node_block \<Rightarrow> (node_transaction \<times> string \<times> cs_transaction) list" where
  "block_transfers b = concat (map (\<lambda>t. map (Pair t) (transaction_transfers t)) (nbl_transactions b))"

definition succeeded :: "node_transaction \<Rightarrow> bool" where
  "succeeded t \<longleftrightarrow> map_of (ntx_meta t) ''err'' = None \<or> map_of (ntx_meta t) ''err'' = Some JNull"

section \<open>What the code decodes of them\<close>

lemmas sol_decoding = find_field_def field_def first_err_def

lemma info_fields [simp]:
  "find_field parsed_info_fields ''source'' = Some (\<lambda>j r. map_dec (\<lambda>v. pi_source_update (\<lambda>_. v) r) (dec_string j (pi_source r)))"
  "find_field parsed_info_fields ''destination'' =
     Some (\<lambda>j r. map_dec (\<lambda>v. pi_destination_update (\<lambda>_. v) r) (dec_string j (pi_destination r)))"
  "find_field parsed_info_fields ''lamports'' =
     Some (\<lambda>j r. map_dec (\<lambda>v. pi_lamports_update (\<lambda>_. v) r) (dec_uint64 j (pi_lamports r)))"
  by (simp_all add: parsed_info_fields_def sol_decoding)

lemma pi_zero: "pi_source zero_parsed_info = ''''" "pi_destination zero_parsed_info = ''''"
  by (simp_all add: zero_parsed_info_def)

lemma dec_argument:
  assumes "argument_ok (k, j)"
  shows "\<exists>r'. dec_members parsed_info_fields ((k, j) # info) r None = dec_members parsed_info_fields info r' None \<and>
    pi_source r' = (if k = ''source'' then text_or (pi_source r) (Some j) else pi_source r) \<and>
    pi_destination r' = (if k = ''destination'' then text_or (pi_destination r) (Some j) else pi_destination r)"
proof -
  let ?text = "\<lambda>d. text_or d (Some j)"
  let ?r = "if k = ''source'' then r\<lparr>pi_source := ?text (pi_source r)\<rparr>
    else if k = ''destination'' then r\<lparr>pi_destination := ?text (pi_destination r)\<rparr>
    else case (k = ''lamports'', j) of (True, JInt i) \<Rightarrow> r\<lparr>pi_lamports := word_of_int i\<rparr> | _ \<Rightarrow> r"
  show ?thesis
    using assms
    by (intro exI [of _ ?r], cases "k = ''source''"; cases "k = ''destination''"; cases "k = ''lamports''"; cases j)
       (simp_all add: argument_ok_def first_err_def)
qed

lemma dec_info:
  "list_all argument_ok info \<Longrightarrow> distinct (map fst info) \<Longrightarrow>
     \<exists>r'. dec_members parsed_info_fields info r None = Dec r' None \<and>
       pi_source r' = text_or (pi_source r) (map_of info ''source'') \<and>
       pi_destination r' = text_or (pi_destination r) (map_of info ''destination'')"
proof (induction info arbitrary: r)
  case (Cons m info)
  obtain k j where m: "m = (k, j)" by (cases m)
  have rest: "list_all argument_ok info" "distinct (map fst info)" and none: "map_of info k = None"
    using Cons.prems m by (simp_all add: map_of_eq_None_iff)
  obtain r1 where r1: "dec_members parsed_info_fields ((k, j) # info) r None = dec_members parsed_info_fields info r1 None"
    "pi_source r1 = (if k = ''source'' then text_or (pi_source r) (Some j) else pi_source r)"
    "pi_destination r1 = (if k = ''destination'' then text_or (pi_destination r) (Some j) else pi_destination r)"
    using dec_argument [of k j info r] Cons.prems(1) m by auto
  from Cons.IH [OF rest, of r1] r1(1) obtain r2 where r2: "dec_members parsed_info_fields (m # info) r None = Dec r2 None"
    "pi_source r2 = text_or (pi_source r1) (map_of info ''source'')"
    "pi_destination r2 = text_or (pi_destination r1) (map_of info ''destination'')"
    unfolding m by auto
  have "pi_source r2 = text_or (pi_source r) (map_of (m # info) ''source'')"
    using none by (cases "k = ''source''"; cases j) (simp_all add: r2(2) r1(2) m)
  moreover have "pi_destination r2 = text_or (pi_destination r) (map_of (m # info) ''destination'')"
    using none by (cases "k = ''destination''"; cases j) (simp_all add: r2(3) r1(3) m)
  ultimately show ?case using r2(1) by blast
qed simp

lemma dec_instruction:
  assumes "instruction_ok x"
  shows "\<exists>v. dec_struct instruction_fields (instruction_json x) zero_instruction =
      Dec v (if text_instruction x then Some ErrJsonType else None) \<and>
    (\<forall>sig. map (transfer_of sig) (filter is_transfer [v]) = map snd (transfers_of sig x))"
proof (cases x)
  case (ParsedInstruction prog programId ty info)
  with assms obtain r where r: "dec_members parsed_info_fields info zero_parsed_info None = Dec r None"
    "pi_source r = argument info ''source''" "pi_destination r = argument info ''destination''"
    using dec_info [of info zero_parsed_info] by (auto simp: argument_def pi_zero)
  have "dec_struct parsed_instruction_fields (JObj [(''info'', JObj info), (''type'', JStr ty)]) zero_parsed_instruction =
      Dec \<lparr>pin_info = r, pin_type = ty\<rparr> None"
    using r(1) by (simp add: parsed_instruction_fields_def zero_parsed_instruction_def sol_decoding)
  with ParsedInstruction r(2,3) show ?thesis
    by (simp add: instruction_fields_def zero_instruction_def sol_decoding is_transfer_def transfer_of_def Let_def)
qed (simp_all add: instruction_fields_def zero_instruction_def sol_decoding is_transfer_def zero_parsed_instruction_def
       parsed_instruction_fields_def equal_fold_def ascii_lower_def)

lemma dec_instructions:
  assumes "list_all instruction_ok xs"
  shows "\<exists>vs. dec_elems (\<lambda>j. dec_struct instruction_fields j zero_instruction) (map instruction_json xs) =
      Dec vs (if \<exists>x \<in> set xs. text_instruction x then Some ErrJsonType else None) \<and>
    (\<forall>sig. map (transfer_of sig) (filter is_transfer vs) = map snd (concat (map (transfers_of sig) xs)))"
proof -
  let ?d = "\<lambda>j. dec_struct instruction_fields j zero_instruction"
  let ?v = "\<lambda>x. fst (dec_result (?d (instruction_json x)))"
  have step: "?d (instruction_json x) = Dec (?v x) (if text_instruction x then Some ErrJsonType else None) \<and>
      (\<forall>sig. map (transfer_of sig) (filter is_transfer [?v x]) = map snd (transfers_of sig x))" if "x \<in> set xs" for x
    using dec_instruction [of x] assms that by (auto simp: list_all_iff)
  have "map (transfer_of sig) (filter is_transfer (map ?v xs)) = map snd (concat (map (transfers_of sig) xs))" for sig
    using step
  proof (induction xs)
    case (Cons x xs)
    have "map (transfer_of sig) (filter is_transfer [?v x]) = map snd (transfers_of sig x)" using Cons.prems [of x] by simp
    moreover have "map (transfer_of sig) (filter is_transfer (map ?v xs)) = map snd (concat (map (transfers_of sig) xs))"
      using Cons by simp
    ultimately show ?case by (simp split: if_splits)
  qed simp
  with dec_elems_some [of xs ?d instruction_json ?v text_instruction ErrJsonType] step show ?thesis by auto
qed

lemma dec_account_key: "dec_struct account_key_fields (account_key_json k) zero_account_key = Dec k None"
  by (simp add: account_key_fields_def account_key_json_def zero_account_key_def sol_decoding)

lemma dec_transaction:
  assumes "list_all instruction_ok (ntx_instructions t)"
  shows "\<exists>v. dec_struct sol_transaction_fields (node_transaction_json t) zero_sol_transaction =
      Dec v (if has_text t then Some ErrJsonType else None) \<and>
    to_stream_transactions v = map snd (transaction_transfers t)"
proof -
  obtain vs where vs: "dec_elems (\<lambda>j. dec_struct instruction_fields j zero_instruction) (map instruction_json (ntx_instructions t)) =
      Dec vs (if has_text t then Some ErrJsonType else None)"
    "\<And>sig. map (transfer_of sig) (filter is_transfer vs) = map snd (concat (map (transfers_of sig) (ntx_instructions t)))"
    using dec_instructions [OF assms] unfolding has_text_def by blast
  have keys: "dec_elems (\<lambda>j. dec_struct account_key_fields j zero_account_key) (map account_key_json (ntx_accountKeys t)) =
      Dec (ntx_accountKeys t) None"
    using dec_elems_map [of "ntx_accountKeys t" _ account_key_json "\<lambda>k. k"] dec_account_key by simp
  have sigs: "dec_elems (\<lambda>j. dec_string j '''') (map JStr (ntx_signatures t)) = Dec (ntx_signatures t) None"
    using dec_elems_map [of "ntx_signatures t" _ JStr "\<lambda>s. s"] by simp
  let ?v = "\<lparr>stx_meta = ntx_meta t, stx_transaction =
      \<lparr>itx_signatures = ntx_signatures t, itx_message =
        \<lparr>msg_accountKeys = ntx_accountKeys t, msg_instructions = vs, msg_recentBlockhash = ntx_recentBlockhash t\<rparr>\<rparr>\<rparr>"
  have "dec_struct sol_transaction_fields (node_transaction_json t) zero_sol_transaction =
      Dec ?v (if has_text t then Some ErrJsonType else None)"
    by (simp add: sol_transaction_fields_def node_transaction_json_def zero_sol_transaction_def inner_transaction_fields_def
        zero_inner_transaction_def sol_message_fields_def zero_sol_message_def sol_decoding vs(1) keys sigs)
  moreover have "to_stream_transactions ?v = map snd (transaction_transfers t)"
    by (simp add: to_stream_transactions_eq transaction_transfers_def vs(2) split: list.splits)
  ultimately show ?thesis by blast
qed

lemma dec_block:
  assumes "node_block_ok b"
  shows "\<exists>v. unmarshal (dec_struct block_result_fields) (Some (node_block_json b)) zero_block_result =
      (v, if \<exists>t \<in> set (nbl_transactions b). has_text t then Some ErrJsonType else None) \<and>
    to_stream_block v = \<lparr>blk_height = hex_from_int (word_of_int (nbl_height b)), blk_hash = nbl_hash b,
      blk_transactions = map (snd \<circ> snd) (block_transfers b)\<rparr>"
proof -
  let ?d = "\<lambda>j. dec_struct sol_transaction_fields j zero_sol_transaction"
  let ?v = "\<lambda>t. fst (dec_result (?d (node_transaction_json t)))"
  have step: "?d (node_transaction_json t) = Dec (?v t) (if has_text t then Some ErrJsonType else None) \<and>
      to_stream_transactions (?v t) = map snd (transaction_transfers t)" if "t \<in> set (nbl_transactions b)" for t
    using dec_transaction [of t] assms that by (auto simp: node_block_ok_def)
  have txs: "dec_elems ?d (map node_transaction_json (nbl_transactions b)) =
      Dec (map ?v (nbl_transactions b)) (if \<exists>t \<in> set (nbl_transactions b). has_text t then Some ErrJsonType else None)"
    using step by (intro dec_elems_some) blast
  let ?b = "\<lparr>bres_blockHeight = word_of_int (nbl_height b), bres_blockTime = None, bres_blockhash = nbl_hash b,
      bres_parentSlot = word_of_int (nbl_parentSlot b), bres_previousBlockhash = nbl_previous b,
      bres_transactions = map ?v (nbl_transactions b)\<rparr>"
  have "unmarshal (dec_struct block_result_fields) (Some (node_block_json b)) zero_block_result =
      (?b, if \<exists>t \<in> set (nbl_transactions b). has_text t then Some ErrJsonType else None)"
    using assms
    by (simp add: unmarshal_def block_result_fields_def node_block_json_def zero_block_result_def node_block_ok_def
        sol_decoding txs)
  moreover have "concat (map (to_stream_transactions \<circ> ?v) (nbl_transactions b)) = map (snd \<circ> snd) (block_transfers b)"
    using step by (simp add: block_transfers_def map_concat o_def cong: map_cong)
  ultimately show ?thesis by (intro exI [of _ ?b]) (simp add: to_stream_block_def fold_append_concat)
qed

section \<open>Properties\<close>

text \<open>A part of a list that is not all of it is shorter.\<close>

lemma map_filter_same: "map f (filter P xs) = map f xs \<longleftrightarrow> (\<forall>x \<in> set xs. P x)"
proof
  assume "map f (filter P xs) = map f xs"
  then have "length (filter P xs) = length xs" by (metis length_map)
  then show "\<forall>x \<in> set xs. P x" by (metis length_filter_less less_irrefl)
qed (simp add: filter_id_conv [THEN iffD2])

text \<open>
  C37. What is read of a block on Solana. From the answer of the node \<^verbatim>\<open>FetchBlockByHeight\<close> takes the instructions whose
  type is \<^verbatim>\<open>transfer\<close>, in order, each with the first signature of its transaction, whatever the program and whether
  or not the transaction succeeded. They are the transfers of the system program that took effect only if
  the block holds no other one. If an instruction of the block was parsed to a text, as those of the memo program are, no
  transfer is read at all: the whole block is refused with an error.
\<close>

theorem sol_fetch_transfers:
  assumes "hex_int h = Val i" and "node_block_ok b"
    and "fetch ''getBlock''
           [JInt (sint i), JObj [(''commitment'', JStr ''finalized''), (''encoding'', JStr ''jsonParsed''),
              (''transactionDetails'', JStr ''full'')]] w = ((Some (node_block_json b), None), w')"
  shows "sol_fetch_block_by_height fetch h w =
      Val (if \<exists>t \<in> set (nbl_transactions b). has_text t then ((zero_block, Some ErrJsonType), w')
           else ((\<lparr>blk_height = hex_from_int (word_of_int (nbl_height b)), blk_hash = nbl_hash b,
                    blk_transactions = map (snd \<circ> snd) (block_transfers b)\<rparr>, None), w')) \<and>
    (map (snd \<circ> snd) (filter (\<lambda>(t, prog, tx). prog = ''system'' \<and> succeeded t) (block_transfers b)) =
       map (snd \<circ> snd) (block_transfers b) \<longleftrightarrow>
     (\<forall>(t, prog, tx) \<in> set (block_transfers b). prog = ''system'' \<and> succeeded t))"
proof
  obtain v where v: "unmarshal (dec_struct block_result_fields) (Some (node_block_json b)) zero_block_result =
      (v, if \<exists>t \<in> set (nbl_transactions b). has_text t then Some ErrJsonType else None)"
    "to_stream_block v = \<lparr>blk_height = hex_from_int (word_of_int (nbl_height b)), blk_hash = nbl_hash b,
      blk_transactions = map (snd \<circ> snd) (block_transfers b)\<rparr>"
    using dec_block [OF assms(2)] by blast
  show "sol_fetch_block_by_height fetch h w =
      Val (if \<exists>t \<in> set (nbl_transactions b). has_text t then ((zero_block, Some ErrJsonType), w')
           else ((\<lparr>blk_height = hex_from_int (word_of_int (nbl_height b)), blk_hash = nbl_hash b,
                    blk_transactions = map (snd \<circ> snd) (block_transfers b)\<rparr>, None), w'))"
    using assms(1,3) v by (simp add: sol_fetch_block_by_height_def sol_get_block_by_height_def)
qed (rule map_filter_same)

text \<open>A transfer of a token, in a transaction that failed.\<close>

definition failed_transfer :: node_block where
  "failed_transfer =
     \<lparr>nbl_height = 7, nbl_hash = ''B'', nbl_parentSlot = 6, nbl_previous = ''A'', nbl_transactions =
       [\<lparr>ntx_meta = [(''err'', JStr ''AccountNotFound'')], ntx_signatures = [''sig''], ntx_accountKeys = [],
          ntx_instructions = [ParsedInstruction ''spl-token'' ''Tokenkeg'' ''transfer''
            [(''amount'', JStr ''1''), (''authority'', JStr ''O''), (''destination'', JStr ''D''), (''source'', JStr ''S'')]],
          ntx_recentBlockhash = ''A''\<rparr>]\<rparr>"

definition failed_node :: "unit rpc" where
  "failed_node method params w = ((Some (node_block_json failed_transfer), None), w)"

theorem sol_fetch_transfers_witness:
  "sol_fetch_block_by_height failed_node ''0x7'' () =
     Val ((\<lparr>blk_height = hex_from_int 7, blk_hash = ''B'',
             blk_transactions = [\<lparr>ctx_hash = ''sig'', ctx_from = ''S'', ctx_to = ''D''\<rparr>]\<rparr>, None), ()) \<and>
   \<not> succeeded (hd (nbl_transactions failed_transfer))"
proof -
  have h: "hex_int ''0x7'' = Val 7" by (simp add: hex_int_def parse_magnitude_def parse_uint_def hexval_def)
  have ok: "node_block_ok failed_transfer"
    by (simp add: node_block_ok_def failed_transfer_def argument_ok_def parsed_info_fields_def sol_decoding equal_fold_def
        ascii_lower_def)
  have "block_transfers failed_transfer =
      [(hd (nbl_transactions failed_transfer), ''spl-token'', \<lparr>ctx_hash = ''sig'', ctx_from = ''S'', ctx_to = ''D''\<rparr>)]"
    by (simp add: block_transfers_def failed_transfer_def transaction_transfers_def argument_def)
  moreover have "\<not> (\<exists>t \<in> set (nbl_transactions failed_transfer). has_text t)"
    by (simp add: failed_transfer_def has_text_def)
  moreover have "\<not> succeeded (hd (nbl_transactions failed_transfer))" by (simp add: failed_transfer_def succeeded_def)
  moreover have "nbl_height failed_transfer = 7" "nbl_hash failed_transfer = ''B''" by (simp_all add: failed_transfer_def)
  ultimately show ?thesis
    using sol_fetch_transfers [OF h ok, of failed_node "()" "()"] by (simp add: failed_node_def)
qed

text \<open>
  One Solana poll is complete, as for Ethereum: it returns, has sent one event per height
  from the start to the finalized height, in order, and continues after that height.
\<close>

theorem sol_poll_complete:
  assumes "sol_get_latest_block_height fetch w = ((latest, None), w1)"
    and "hex_int latest = Val l" "sint l < 2 ^ 63 - 1"
    and "hex_int frm = Val v" "frm < latest"
  shows "\<exists>evs w2. sol_poll_new_blocks fetch frm w = Some (Val (evs, hex_from_int (l + 1), w2)) \<and>
           map ev_height evs = heights_upto frm (sint v) (sint l) \<and>
           list_all (honest_event (sol_get_block fetch)) evs"
  unfolding sol_poll_new_blocks_def using assms by (rule sol.poll_complete)

theorem sol_poll_complete_witness:
  "\<exists>evs w2. sol_poll_new_blocks (canned_solana 3) ''0x1'' () = Some (Val (evs, hex_from_int (3 + 1), w2)) \<and>
     map ev_height evs = heights_upto ''0x1'' (sint (1 :: int64)) (sint (3 :: int64)) \<and>
     list_all (honest_event (sol_get_block (canned_solana 3))) evs"
proof (rule sol_poll_complete)
  show "sol_get_latest_block_height (canned_solana 3) () = ((hex_from_int 3, None), ())"
    by (simp add: sol_get_latest_block_height_def canned_solana_def unmarshal_def)
  show "hex_int (hex_from_int 3) = Val 3" by (rule hex_int_hex_from_int_raw)
  show "hex_int ''0x1'' = Val 1"
    by (simp add: hex_int_def parse_magnitude_def parse_uint_def hexval_def)
  show "''0x1'' < hex_from_int 3"
    by (simp add: hex_from_int_nonneg fmt_hex_small less_char_def)
qed simp

text \<open>
  A block that is not confirmed yet. The node answers \<^verbatim>\<open>null\<close>, and \<^verbatim>\<open>FetchBlockByHeight\<close> succeeds
  with an empty block at height \<^verbatim>\<open>0x0\<close>, whatever height was asked for.
\<close>

theorem sol_fetch_null_block:
  assumes "hex_int h = Val i"
    and "fetch ''getBlock''
           [JInt (sint i), JObj [(''commitment'', JStr ''finalized''), (''encoding'', JStr ''jsonParsed''),
              (''transactionDetails'', JStr ''full'')]] w = ((Some JNull, None), w')"
  shows "sol_fetch_block_by_height fetch h w =
           Val ((\<lparr>blk_height = ''0x0'', blk_hash = '''', blk_transactions = []\<rparr>, None), w')"
  using assms
  by (simp add: sol_fetch_block_by_height_def sol_get_block_by_height_def unmarshal_def to_stream_zero)

theorem sol_fetch_null_block_witness:
  "sol_fetch_block_by_height (canned_solana 3) ''0x9'' () =
     Val ((\<lparr>blk_height = ''0x0'', blk_hash = '''', blk_transactions = []\<rparr>, None), ())"
  by (rule sol_fetch_null_block [where i = 9])
     (simp_all add: canned_solana_def hex_int_def parse_magnitude_def parse_uint_def hexval_def)

end
