(* ===== verification/Delivery.thy ===== *)
theory Delivery
  imports Storage_Postgres Messaging
begin

text \<open>
  Who is told what of a block. The locale \<open>notify_env\<close> states what \<^verbatim>\<open>NotifyWatchedTransactions\<close>
  relies on, in terms of the messages sent so far (\<open>outbox\<close>), and proves what it delivers. It is
  interpreted on the code's own parts: the Postgres storage as guard and wallet storage, and the
  RabbitMQ notifier over a broker that behaves as documented (\<open>amqp_broker\<close>).
\<close>

section \<open>What a block calls for\<close>

type_synonym notification = "string \<times> string \<times> ww_transaction list"

definition called_for :: "(string \<Rightarrow> string) \<Rightarrow> (string \<times> string) set \<Rightarrow> ww_block \<Rightarrow> string \<Rightarrow> bool" where
  "called_for norm W b a \<longleftrightarrow> (norm (wb_network b), a) \<in> W \<and> filter (involves a) (wb_transactions b) \<noteq> []"

text \<open>
  At most one message per wallet, each to a wallet that is watched, with the last transaction of the block for each hash
  of one that involves it; and the same with the wallet's transactions themselves.
\<close>

definition indexed_messages :: "(string \<Rightarrow> string) \<Rightarrow> (string \<times> string) set \<Rightarrow> ww_block \<Rightarrow> notification list \<Rightarrow> bool" where
  "indexed_messages norm W b msgs \<longleftrightarrow>
     distinct (map (fst \<circ> snd) msgs) \<and>
     (\<forall>(n, a, ts) \<in> set msgs. n = wb_network b \<and> called_for norm W b a \<and> mset ts = indexed_for a (wb_transactions b))"

definition sound_messages :: "(string \<Rightarrow> string) \<Rightarrow> (string \<times> string) set \<Rightarrow> ww_block \<Rightarrow> notification list \<Rightarrow> bool" where
  "sound_messages norm W b msgs \<longleftrightarrow>
     distinct (map (fst \<circ> snd) msgs) \<and>
     (\<forall>(n, a, ts) \<in> set msgs. n = wb_network b \<and> called_for norm W b a \<and>
        mset ts = mset (filter (involves a) (wb_transactions b)))"

lemma sound_if_unique:
  "distinct (map wtx_hash (wb_transactions b)) \<Longrightarrow> indexed_messages norm W b msgs \<longleftrightarrow> sound_messages norm W b msgs"
  by (simp add: indexed_messages_def sound_messages_def unique_hashes)

definition complete_messages :: "(string \<Rightarrow> string) \<Rightarrow> (string \<times> string) set \<Rightarrow> ww_block \<Rightarrow> notification list \<Rightarrow> bool" where
  "complete_messages norm W b msgs \<longleftrightarrow> (\<forall>a. called_for norm W b a \<longrightarrow> (\<exists>ts. (wb_network b, a, ts) \<in> set msgs))"

text \<open>
  A notification after the other: all of them, or up to the one that fails, which may have been sent all the same.
\<close>

definition told_until ::
    "(string \<Rightarrow> string) \<Rightarrow> (string \<times> string) set \<Rightarrow> ww_block \<Rightarrow> gerr option \<Rightarrow> notification list \<Rightarrow> bool" where
  "told_until norm W b r sent \<longleftrightarrow>
     (\<exists>msgs. indexed_messages norm W b msgs \<and> complete_messages norm W b msgs \<and>
        (case r of
           None \<Rightarrow> sent = msgs
         | Some e \<Rightarrow> \<exists>f < length msgs. sent = take f msgs \<or> sent = take (Suc f) msgs))"

lemma told_until_failed:
  "indexed_messages norm W b msgs \<Longrightarrow> complete_messages norm W b msgs \<Longrightarrow> f < length msgs \<Longrightarrow>
     told_until norm W b (Some e) (take f msgs) \<and> told_until norm W b (Some e) (take (Suc f) msgs)"
  by (auto simp: told_until_def)

section \<open>The contract\<close>

locale notify_env = watch_source +
  fixes s :: "'w ww_service"
    and outbox :: "'w \<Rightarrow> notification list"
  assumes storage: "wsv_storage s = watch"
    and filter_silent: "ws_filter watch n addrs w = (f, w') \<Longrightarrow> outbox w' = outbox w"
    and claim_frame: "inv w \<Longrightarrow> ig_claim (wsv_guard s) n h d w = (r, w') \<Longrightarrow>
        inv w' \<and> watched w' = watched w \<and> outbox w' = outbox w"
    and mark_frame: "inv w \<Longrightarrow> ig_mark (wsv_guard s) n h w = (r, w') \<Longrightarrow>
        inv w' \<and> watched w' = watched w \<and> outbox w' = outbox w"
    and notify_frame: "inv w \<Longrightarrow> tn_notify (wsv_notifier s) n a ts w = (r, w') \<Longrightarrow> inv w' \<and> watched w' = watched w"
    and notify_ok: "tn_notify (wsv_notifier s) n a ts w = (None, w') \<Longrightarrow> outbox w' = outbox w @ [(n, a, ts)]"
    and notify_err: "tn_notify (wsv_notifier s) n a ts w = (Some e, w') \<Longrightarrow>
        outbox w' = outbox w \<or> outbox w' = outbox w @ [(n, a, ts)]"
begin

lemma notify_wallets_until:
  "notify_wallets (wsv_notifier s) n ms w = (r, w') \<Longrightarrow> inv w \<Longrightarrow>
     inv w' \<and> watched w' = watched w \<and>
     (case r of
        None \<Rightarrow> outbox w' = outbox w @ map (Pair n) ms
      | Some e \<Rightarrow> \<exists>f < length ms. outbox w' = outbox w @ map (Pair n) (take f ms) \<or>
          outbox w' = outbox w @ map (Pair n) (take (Suc f) ms))"
proof (induction ms arbitrary: w)
  case (Cons m ms)
  obtain a ts where m: "m = (a, ts)" by (cases m)
  obtain x w1 where x: "tn_notify (wsv_notifier s) n a ts w = (x, w1)" by (metis surj_pair)
  note frame = notify_frame [OF Cons.prems(2) x]
  show ?case
  proof (cases x)
    case None
    with Cons.prems(1) x m have "notify_wallets (wsv_notifier s) n ms w1 = (r, w')" by simp
    note rest = Cons.IH [OF this]
    have sent: "outbox w1 = outbox w @ [(n, a, ts)]" using notify_ok [of n a ts w w1] x None by simp
    show ?thesis
    proof (cases r)
      case (Some e)
      with rest frame obtain f where "inv w'" "watched w' = watched w" "f < length ms"
        "outbox w' = outbox w1 @ map (Pair n) (take f ms) \<or> outbox w' = outbox w1 @ map (Pair n) (take (Suc f) ms)"
        by auto
      with Some sent m show ?thesis by (auto intro!: exI [of _ "Suc f"])
    qed (use rest frame sent m in auto)
  next
    case (Some e)
    with Cons.prems(1) x m have r: "r = Some e" "w' = w1" by simp_all
    with notify_err [of n a ts w e w1] x Some frame m show ?thesis by (auto intro!: exI [of _ 0])
  qed
qed simp

lemma notify_wallets_sends:
  assumes "notify_wallets (wsv_notifier s) n ms w = (r, w')" and "inv w"
  shows "inv w' \<and> watched w' = watched w \<and>
     (\<exists>k. outbox w' = outbox w @ map (Pair n) (take k ms) \<and> (r = None \<longrightarrow> length ms \<le> k))"
  using notify_wallets_until [OF assms]
  by (cases r) (auto intro: exI [of _ "length ms"])

text \<open>The matching of a block, as messages in the order in which the map is iterated.\<close>

lemma matching_messages:
  assumes "get_transactions_by_wallet ord watch (wb_network b) (wb_transactions b) w = (Inr m, w')"
    and "fair_orders ord" and "inv w"
  shows "indexed_messages norm (watched w) b (map (Pair (wb_network b)) (take k (io_wallets ord m)))"
    and "length (io_wallets ord m) \<le> k \<Longrightarrow>
      complete_messages norm (watched w) b (map (Pair (wb_network b)) (take k (io_wallets ord m)))"
proof -
  note exact = matching_indexed [OF assms]
  have perm: "permuting (io_wallets ord)" using assms(2) by (simp add: fair_orders_def)
  then have d: "distinct (map fst (io_wallets ord m))"
    using exact(1) by (metis mset_eq_imp_distinct_iff mset_map permuting_mset)
  have entry: "map_of m a = Some ts" if "(a, ts) \<in> set (io_wallets ord m)" for a ts
    using that exact(1) perm by (simp add: permuting_set)
  have want: "called_for norm (watched w) b a \<and> mset ts = indexed_for a (wb_transactions b)"
    if "map_of m a = Some ts" for a ts
    using exact(2) [of a] that by (auto simp: called_for_def split: if_splits)
  have "distinct (map (fst \<circ> snd) (map (Pair (wb_network b)) (take k (io_wallets ord m))))"
    using distinct_take [OF d, of k] by (simp add: take_map o_def)
  moreover have "called_for norm (watched w) b a \<and> mset ts = indexed_for a (wb_transactions b)"
    if "(a, ts) \<in> set (take k (io_wallets ord m))" for a ts
    using want [OF entry] in_set_takeD [OF that] by blast
  ultimately show "indexed_messages norm (watched w) b (map (Pair (wb_network b)) (take k (io_wallets ord m)))"
    by (auto simp: indexed_messages_def)
  assume k: "length (io_wallets ord m) \<le> k"
  have "\<exists>ts. (a, ts) \<in> set (io_wallets ord m)" if "called_for norm (watched w) b a" for a
    using exact(2) [of a] that perm by (auto simp: called_for_def permuting_set dest!: map_of_SomeD)
  with k show "complete_messages norm (watched w) b (map (Pair (wb_network b)) (take k (io_wallets ord m)))"
    by (force simp: complete_messages_def)
qed

text \<open>Processing a block: what it sends, and that nothing is missing when it reports success.\<close>

lemma processed_indexed:
  assumes "notify_watched_transactions ord s b w = (r, w')" and "inv w" and "fair_orders ord"
  shows "inv w' \<and> watched w' = watched w \<and>
    (\<exists>msgs. outbox w' = outbox w @ msgs \<and> indexed_messages norm (watched w) b msgs \<and>
       (r = None \<longrightarrow> complete_messages norm (watched w) b msgs))"
proof -
  have silent: "indexed_messages norm W b []" for W by (simp add: indexed_messages_def)
  obtain c w1 where c: "ig_claim (wsv_guard s) (wb_network b) (wb_hash b) (wsv_maxProcessingTime s) w = (c, w1)"
    by (metis surj_pair)
  note f1 = claim_frame [OF assms(2) c]
  obtain g w2 where g: "get_transactions_by_wallet ord watch (wb_network b) (wb_transactions b) w1 = (g, w2)"
    by (metis surj_pair)
  have f2: "inv w2 \<and> watched w2 = watched w \<and> outbox w2 = outbox w"
    using matching_frame [OF _ g] f1 g filter_silent
    by (auto simp: get_transactions_by_wallet_def Let_def split: prod.splits sum.splits)
  show ?thesis
  proof (cases "c = None \<and> (\<exists>m. g = Inr m)")
    case False
    then have "r \<noteq> None \<and> (w' = w1 \<or> w' = w2)"
      using assms(1) c g storage
      by (cases c; cases g) (auto simp: notify_watched_transactions_def notify_watched_wallet_transactions_def)
    with f1 f2 silent show ?thesis by auto
  next
    case True
    then obtain m where m: "g = Inr m" "c = None" by blast
    obtain x w3 where x: "notify_wallets (wsv_notifier s) (wb_network b) (io_wallets ord m) w2 = (x, w3)"
      by (metis surj_pair)
    have iw2: "inv w2" using f2 by simp
    obtain k where k: "inv w3" "watched w3 = watched w" "r = x \<longrightarrow> r = None \<longrightarrow> length (io_wallets ord m) \<le> k"
      "outbox w3 = outbox w @ map (Pair (wb_network b)) (take k (io_wallets ord m))"
      using notify_wallets_sends [OF x iw2] f2 by auto
    have "r = x \<and> inv w' \<and> watched w' = watched w3 \<and> outbox w' = outbox w3"
      using assms(1) c g m x storage k(1) mark_frame [OF k(1)]
      by (cases x) (auto simp: notify_watched_transactions_def notify_watched_wallet_transactions_def split: prod.splits)
    with k matching_messages [OF _ assms(3), of b w1 m w2 k] g m f1 show ?thesis
      by (auto intro!: exI [of _ "map (Pair (wb_network b)) (take k (io_wallets ord m))"])
  qed
qed

text \<open>What is sent once the claim is granted and the wallets are matched.\<close>

lemma processed_granted:
  assumes "notify_watched_transactions ord s b w = (r, w')" and "inv w" and "fair_orders ord"
    and "ig_claim (wsv_guard s) (wb_network b) (wb_hash b) (wsv_maxProcessingTime s) w = (None, w1)"
    and "get_transactions_by_wallet ord watch (wb_network b) (wb_transactions b) w1 = (Inr m, w2)"
  shows "\<exists>sent. outbox w' = outbox w @ sent \<and> told_until norm (watched w) b r sent"
proof -
  note f1 = claim_frame [OF assms(2,4)]
  have f2: "inv w2 \<and> watched w2 = watched w \<and> outbox w2 = outbox w"
    using matching_frame [OF _ assms(5)] f1 assms(5) filter_silent
    by (auto simp: get_transactions_by_wallet_def Let_def split: prod.splits sum.splits)
  let ?ms = "io_wallets ord m"
  let ?msgs = "map (Pair (wb_network b)) ?ms"
  obtain x w3 where x: "notify_wallets (wsv_notifier s) (wb_network b) ?ms w2 = (x, w3)" by (metis surj_pair)
  note sent = notify_wallets_until [OF x f2 [THEN conjunct1]]
  have r: "r = x \<and> outbox w' = outbox w3"
    using assms(1,4,5) x storage sent mark_frame [of w3]
    by (cases x) (auto simp: notify_watched_transactions_def notify_watched_wallet_transactions_def split: prod.splits)
  have msgs: "indexed_messages norm (watched w) b ?msgs" "complete_messages norm (watched w) b ?msgs"
    using matching_messages [OF assms(5,3), of "length ?ms"] f1 by simp_all
  show ?thesis
  proof (cases x)
    case None
    with sent r f2 msgs show ?thesis by (auto simp: told_until_def)
  next
    case (Some e)
    with sent f2 obtain f where "f < length ?msgs"
      "outbox w3 = outbox w @ take f ?msgs \<or> outbox w3 = outbox w @ take (Suc f) ?msgs"
      by (auto simp: take_map)
    with Some r told_until_failed [OF msgs, of f e] show ?thesis by auto
  qed
qed

lemma processed:
  assumes "notify_watched_transactions ord s b w = (r, w')" and "inv w" and "fair_orders ord"
    and "distinct (map wtx_hash (wb_transactions b))"
  shows "inv w' \<and> watched w' = watched w \<and>
    (\<exists>msgs. outbox w' = outbox w @ msgs \<and> sound_messages norm (watched w) b msgs \<and>
       (r = None \<longrightarrow> complete_messages norm (watched w) b msgs))"
  using processed_indexed [OF assms(1-3)] unfolding sound_if_unique [OF assms(4)] .

end

section \<open>A broker\<close>

text \<open>
  The documented behaviour of publishing, in terms of the messages that the broker has accepted: a
  publication without error is accepted, one with an error may have been.
\<close>

locale amqp_broker =
  fixes A :: "'m amqp"
    and accepted :: "'m \<Rightarrow> (string \<times> string \<times> publishing) list"
  assumes publish_ok: "am_publish A ex key mandatory immediate p m = (None, m') \<Longrightarrow>
        accepted m' = accepted m @ [(ex, key, p)]"
    and publish_err: "am_publish A ex key mandatory immediate p m = (Some e, m') \<Longrightarrow>
        accepted m' = accepted m \<or> accepted m' = accepted m @ [(ex, key, p)]"
    and uuid_silent: "am_uuid A m = (u, m') \<Longrightarrow> accepted m' = accepted m"

text \<open>What a subscriber reads of an accepted message.\<close>

definition read_notification :: "string \<times> string \<times> publishing \<Rightarrow> notification" where
  "read_notification e =
     (let m = fst (decode_txs (pb_body (snd (snd e)))) in
      (xm_network m, xm_wallet_address m, map message_tx (xm_transactions m)))"

text \<open>The notifications that reach the subscribers of an exchange and a routing key.\<close>

definition inbox :: "string \<Rightarrow> string \<Rightarrow> (string \<times> string \<times> publishing) list \<Rightarrow> notification list" where
  "inbox ex key es = map read_notification (filter (\<lambda>(x, k, p). x = ex \<and> k = key) es)"

lemma inbox_simps [simp]:
  "inbox ex key [] = []" "inbox ex key (es @ es') = inbox ex key es @ inbox ex key es'"
  by (simp_all add: inbox_def)

lemma read_published:
  "pb_body p = marshal_txs (make_txs_message n a ts) \<Longrightarrow> inbox ex key [(ex, key, p)] = [(n, a, ts)]"
  by (simp add: inbox_def read_notification_def decode_marshal_txs make_txs_message_def Let_def o_def)

section \<open>Redis streams\<close>

text \<open>The same of a server of streams: an entry that was added without an error is in its stream.\<close>

locale stream_server =
  fixes X :: "'x streams"
    and entries :: "'x \<Rightarrow> (string \<times> (string \<times> field_value) list) list"
  assumes xadd_ok: "sx_xadd X stream entry_id vs x = (None, x') \<Longrightarrow> entries x' = entries x @ [(stream, vs)]"
    and xadd_err: "sx_xadd X stream entry_id vs x = (Some e, x') \<Longrightarrow>
        entries x' = entries x \<or> entries x' = entries x @ [(stream, vs)]"

text \<open>What a reader takes from the fields of an entry.\<close>

definition field_text :: "(string \<times> field_value) list \<Rightarrow> string \<Rightarrow> string" where
  "field_text vs k = (case map_of vs k of Some (FStr s) \<Rightarrow> s | _ \<Rightarrow> '''')"

definition field_txs :: "(string \<times> field_value) list \<Rightarrow> string \<Rightarrow> ww_transaction list" where
  "field_txs vs k =
     (case map_of vs k of
        Some (FJson (JArr js)) \<Rightarrow> map message_tx (fst (dec_result (dec_elems dec_tx_message js)))
      | _ \<Rightarrow> [])"

definition read_entry :: "(string \<times> field_value) list \<Rightarrow> notification" where
  "read_entry vs = (field_text vs ''network'', field_text vs ''wallet'', field_txs vs ''transactions'')"

definition stream_inbox :: "string \<Rightarrow> (string \<times> (string \<times> field_value) list) list \<Rightarrow> notification list" where
  "stream_inbox stream es = map (read_entry \<circ> snd) (filter (\<lambda>e. fst e = stream) es)"

lemma stream_inbox_simps [simp]:
  "stream_inbox stream [] = []" "stream_inbox stream (es @ es') = stream_inbox stream es @ stream_inbox stream es'"
  by (simp_all add: stream_inbox_def)

lemma rmsg_publishes:
  assumes "tn_notify (rmsg_as_tx_notifier X stream) n a ts x = (r, x')"
  obtains vs where "sx_xadd X stream ''*'' vs x = (r, x')" "stream_inbox stream [(stream, vs)] = [(n, a, ts)]"
proof -
  have "dec_elems dec_tx_message (map rmsg_marshal_tx ts) = Dec (map tx_to_message ts) None"
    by (rule dec_elems_map) (rule dec_rmsg_tx)
  then show thesis
    by (intro that [of "[(''network'', FStr n), (''wallet'', FStr a), (''transactions'', FJson (JArr (map rmsg_marshal_tx ts)))]"])
       (use assms in \<open>simp_all add: rmsg_as_tx_notifier_def rmsg_notify_transactions_def rmsg_txs_message_def
          stream_inbox_def read_entry_def field_text_def field_txs_def o_def\<close>)
qed

section \<open>A node: Postgres and a broker\<close>

abbreviation on_db :: "('d \<Rightarrow> 'r \<times> 'd) \<Rightarrow> 'd \<times> 'm \<Rightarrow> 'r \<times> ('d \<times> 'm)" where
  "on_db \<equiv> on_part fst (\<lambda>d w. (d, snd w))"

abbreviation on_mq :: "('m \<Rightarrow> 'r \<times> 'm) \<Rightarrow> 'd \<times> 'm \<Rightarrow> 'r \<times> ('d \<times> 'm)" where
  "on_mq \<equiv> on_part snd (\<lambda>m w. (fst w, m))"

definition node_watch :: "(pg \<times> 'm) watch_storage" where
  "node_watch = \<lparr>ws_filter = (\<lambda>n addrs. on_db (ws_filter pg_watch n addrs))\<rparr>"

definition node_guard :: "(pg \<times> 'm) idempotency_guard" where
  "node_guard = \<lparr>ig_claim = (\<lambda>n h d. on_db (ig_claim pg_guard n h d)), ig_mark = (\<lambda>n h. on_db (ig_mark pg_guard n h))\<rparr>"

definition node_notifier :: "'m amqp \<Rightarrow> string \<Rightarrow> string \<Rightarrow> (pg \<times> 'm) tx_notifier" where
  "node_notifier A ex key =
     \<lparr>tn_notify = (\<lambda>n a ts. on_mq (tn_notify (rabbit_as_tx_notifier A ex key) n a ts))\<rparr>"

definition node_service :: "'m amqp \<Rightarrow> string \<Rightarrow> string \<Rightarrow> (pg \<times> 'm) ww_service" where
  "node_service A ex key = ww_new node_watch (node_notifier A ex key) [ww_with_guard node_guard]"

lemma node_service_simps [simp]:
  "wsv_storage (node_service A ex key) = node_watch" "wsv_guard (node_service A ex key) = node_guard"
  "wsv_notifier (node_service A ex key) = node_notifier A ex key"
  "wsv_maxProcessingTime (node_service A ex key) = defaultMaxProcessingTime"
  by (simp_all add: node_service_def ww_new_def ww_with_guard_def)

lemma on_db_frame: "on_db f w = (r, w') \<Longrightarrow> snd w' = snd w \<and> f (fst w) = (r, fst w')"
  by (auto simp: on_part_iff)

lemma on_mq_frame: "on_mq f w = (r, w') \<Longrightarrow> fst w' = fst w \<and> f (snd w) = (r, snd w')"
  by (auto simp: on_part_iff)

lemma pg_claim_wallets: "pg_wallets (snd (pg_claim n h d w)) = pg_wallets w"
proof -
  have 1: "pg_wallets (snd (claim_or_extend_if_expired n h t w)) = pg_wallets w" for n t w
    unfolding claim_or_extend_if_expired_def by (rule pg_exec_frame) (simp_all split: option.splits)
  have 2: "pg_wallets (snd (find_claim n h w)) = pg_wallets w" for n w
    unfolding find_claim_def by (rule pg_exec_frame) (simp_all split: option.splits)
  have "claim_or_extend_if_expired n h t w = (x, w1) \<Longrightarrow> pg_wallets w1 = pg_wallets w" for n t x w1
    using 1 [of n t w] by simp
  moreover have "find_claim n h w1 = (x, w2) \<Longrightarrow> pg_wallets w2 = pg_wallets w1" for n w1 x w2
    using 2 [of n w1] by simp
  ultimately show ?thesis by (auto simp: pg_claim_def Let_def split: prod.splits sum.splits)
qed

lemma pg_mark_wallets: "pg_wallets (snd (pg_mark n h w)) = pg_wallets w"
proof -
  have "pg_wallets (snd (mark_claim_as_completed n h w)) = pg_wallets w" for n
    unfolding mark_claim_as_completed_def by (rule pg_exec_frame) simp_all
  then have "mark_claim_as_completed n h w = (x, w1) \<Longrightarrow> pg_wallets w1 = pg_wallets w" for n x w1
    by (metis snd_conv)
  then show ?thesis by (auto simp: pg_mark_def split: prod.splits sum.splits)
qed

lemma rabbit_publishes:
  assumes "tn_notify (rabbit_as_tx_notifier A ex key) n a ts m = (r, m')"
  obtains u m1 p where "am_uuid A m = (u, m1)" "am_publish A ex key False False p m1 = (r, m')"
    "pb_body p = marshal_txs (make_txs_message n a ts)"
proof -
  obtain u m1 where u: "am_uuid A m = (u, m1)" by (metis surj_pair)
  show thesis
    by (rule that [OF u])
       (use assms u in \<open>auto simp: rabbit_as_tx_notifier_def rabbit_notify_transactions_def rabbit_publish_def\<close>)
qed

sublocale amqp_broker \<subseteq> node: notify_env node_watch "\<lambda>w. pg_watched (fst w)" to_upper "\<lambda>w. pg_unique (fst w)"
  "node_service A ex key" "\<lambda>w. inbox ex key (accepted (snd w))" for ex key
proof
  fix w :: "pg \<times> 'm" and n addrs f w'
  assume "pg_unique (fst w)" "ws_filter node_watch n addrs w = (f, w')"
  then show "pg_unique (fst w') \<and> pg_watched (fst w') = pg_watched (fst w)"
    using pg_ws.filter_frame [of "fst w" n addrs f "fst w'"] by (auto simp: node_watch_def dest!: on_db_frame)
next
  fix w :: "pg \<times> 'm" and n addrs hits w'
  assume "pg_unique (fst w)" "ws_filter node_watch n addrs w = (Inr hits, w')" "distinct addrs"
  then show "distinct hits \<and> set hits = {a \<in> set addrs. (to_upper n, a) \<in> pg_watched (fst w)}"
    using pg_ws.filter_ok [of "fst w" n addrs hits "fst w'"] by (auto simp: node_watch_def dest!: on_db_frame)
next
  fix w :: "pg \<times> 'm" and n addrs f w'
  assume "ws_filter node_watch n addrs w = (f, w')"
  then show "inbox ex key (accepted (snd w')) = inbox ex key (accepted (snd w))"
    by (auto simp: node_watch_def dest!: on_db_frame)
next
  fix w :: "pg \<times> 'm" and n h d r w'
  assume "pg_unique (fst w)" "ig_claim (wsv_guard (node_service A ex key)) n h d w = (r, w')"
  then show "pg_unique (fst w') \<and> pg_watched (fst w') = pg_watched (fst w) \<and>
      inbox ex key (accepted (snd w')) = inbox ex key (accepted (snd w))"
    using pg_claim_wallets [of n h d "fst w"]
    by (auto simp: node_guard_def pg_guard_def pg_unique_def pg_watched_def dest!: on_db_frame)
next
  fix w :: "pg \<times> 'm" and n h r w'
  assume "pg_unique (fst w)" "ig_mark (wsv_guard (node_service A ex key)) n h w = (r, w')"
  then show "pg_unique (fst w') \<and> pg_watched (fst w') = pg_watched (fst w) \<and>
      inbox ex key (accepted (snd w')) = inbox ex key (accepted (snd w))"
    using pg_mark_wallets [of n h "fst w"]
    by (auto simp: node_guard_def pg_guard_def pg_unique_def pg_watched_def dest!: on_db_frame)
next
  fix w :: "pg \<times> 'm" and n a ts r w'
  assume "pg_unique (fst w)" "tn_notify (wsv_notifier (node_service A ex key)) n a ts w = (r, w')"
  then show "pg_unique (fst w') \<and> pg_watched (fst w') = pg_watched (fst w)"
    by (auto simp: node_notifier_def dest!: on_mq_frame)
next
  fix w :: "pg \<times> 'm" and n a ts w'
  assume "tn_notify (wsv_notifier (node_service A ex key)) n a ts w = (None, w')"
  then have "tn_notify (rabbit_as_tx_notifier A ex key) n a ts (snd w) = (None, snd w')"
    by (auto simp: node_notifier_def dest!: on_mq_frame)
  then show "inbox ex key (accepted (snd w')) = inbox ex key (accepted (snd w)) @ [(n, a, ts)]"
    by (rule rabbit_publishes) (auto simp: read_published dest!: publish_ok uuid_silent)
next
  fix w :: "pg \<times> 'm" and n a ts e w'
  assume "tn_notify (wsv_notifier (node_service A ex key)) n a ts w = (Some e, w')"
  then have "tn_notify (rabbit_as_tx_notifier A ex key) n a ts (snd w) = (Some e, snd w')"
    by (auto simp: node_notifier_def dest!: on_mq_frame)
  then show "inbox ex key (accepted (snd w')) = inbox ex key (accepted (snd w)) \<or>
      inbox ex key (accepted (snd w')) = inbox ex key (accepted (snd w)) @ [(n, a, ts)]"
    by (rule rabbit_publishes) (auto simp: read_published dest!: publish_err uuid_silent)
qed simp

context amqp_broker
begin

lemmas node_processed = node.processed

end

end
