(* ===== verification/Blockproc.thy ===== *)
theory Blockproc
  imports Delivery
begin

text \<open>
  \<^verbatim>\<open>internal/blockproc\<close>: the conversion of observed blocks, the loop that hands them to
  \<^verbatim>\<open>walletwatch\<close>, and the life cycle of the service over that of \<^verbatim>\<open>chainstream\<close>.
\<close>

section \<open>The loop\<close>

definition convert_transaction :: "cs_transaction \<Rightarrow> ww_transaction" where
  "convert_transaction tx = \<lparr>wtx_hash = ctx_hash tx, wtx_from = ctx_from tx, wtx_to = ctx_to tx\<rparr>"

definition map_observed_to_wallet_block :: "observed_block \<Rightarrow> ww_block" where
  "map_observed_to_wallet_block b =
     \<lparr>wb_network = ob_network b, wb_height = blk_height (ob_block b), wb_hash = blk_hash (ob_block b),
      wb_transactions = map convert_transaction (blk_transactions (ob_block b))\<rparr>"

text \<open>
  The results of \<^verbatim>\<open>chflow.Receive\<close> one after the other, \<open>None\<close> for \<^verbatim>\<open>!ok\<close>; the first component
  tells whether the loop returned or is blocked in the next \<^verbatim>\<open>Receive\<close>. \<open>notify k\<close> is the \<open>k\<close>-th call of
  \<^verbatim>\<open>NotifyWatchedTransactions\<close>; its error is logged only.
\<close>

fun handle_wallet_activity ::
    "(nat \<Rightarrow> ww_block \<Rightarrow> 'w \<Rightarrow> gerr option \<times> 'w) \<Rightarrow> nat \<Rightarrow> observed_block option list \<Rightarrow> 'w \<Rightarrow> bool \<times> 'w" where
  "handle_wallet_activity notify k [] w = (False, w)"
| "handle_wallet_activity notify k (None # received) w = (True, w)"
| "handle_wallet_activity notify k (Some block # received) w =
     (case notify k (map_observed_to_wallet_block block) w of
        (err, w') \<Rightarrow> handle_wallet_activity notify (Suc k) received w')"

section \<open>The service\<close>

record 'w bp_service =
  bps_started :: bool
  bps_close :: bool
  bps_chainstream :: "'w cs_service"
  bps_walletwatch :: "'w ww_service"

definition bp_new :: "'w cs_service \<Rightarrow> 'w ww_service \<Rightarrow> 'w bp_service" where
  "bp_new cs ww = \<lparr>bps_started = False, bps_close = False, bps_chainstream = cs, bps_walletwatch = ww\<rparr>"

text \<open>
  \<open>bps_close\<close>: whether \<^verbatim>\<open>closeFunc\<close> is set. On success the loop starts, over the channel of the
  pipeline that \<^verbatim>\<open>chainstream.Start\<close> returned.
\<close>

definition bp_start ::
    "((string \<times> 'w blockchain) list \<Rightarrow> (string \<times> 'w blockchain) list) \<Rightarrow> 'w bp_service \<Rightarrow> 'w \<Rightarrow>
     ((gerr + cs_state) \<times> 'w bp_service \<times> 'w) outcome" where
  "bp_start ord s w =
     (if bps_started s then Val (Inl BlockprocAlreadyStarted, s, w)
      else
        bind_outcome (cs_start ord (bps_chainstream s) w) (\<lambda>(r, cs, w').
          case r of
            Inl err \<Rightarrow> Val (Inl err, s\<lparr>bps_chainstream := cs\<rparr>, w')
          | Inr st \<Rightarrow> Val (Inr st, s\<lparr>bps_chainstream := cs, bps_close := True, bps_started := True\<rparr>, w')))"

definition bp_close :: "'w bp_service \<Rightarrow> 'w bp_service outcome" where
  "bp_close s =
     bind_outcome (if bps_close s then cs_close (bps_chainstream s) else Val (bps_chainstream s))
       (\<lambda>cs. Val (s\<lparr>bps_chainstream := cs, bps_close := False, bps_started := False\<rparr>))"

section \<open>Lemmas\<close>

lemma convert_simps [simp]:
  "wtx_hash (convert_transaction tx) = ctx_hash tx" "wtx_from (convert_transaction tx) = ctx_from tx"
  "wtx_to (convert_transaction tx) = ctx_to tx"
  by (simp_all add: convert_transaction_def)

definition call_service :: "(nat \<Rightarrow> iter_orders) \<Rightarrow> 'w ww_service \<Rightarrow> nat \<Rightarrow> ww_block \<Rightarrow> 'w \<Rightarrow> gerr option \<times> 'w" where
  "call_service ords s k b w = notify_watched_transactions (ords k) s b w"

definition distinct_hashes :: "observed_block \<Rightarrow> bool" where
  "distinct_hashes b \<longleftrightarrow> distinct (map ctx_hash (blk_transactions (ob_block b)))"

lemma distinct_hashes_converted:
  "distinct_hashes b \<Longrightarrow> distinct (map wtx_hash (wb_transactions (map_observed_to_wallet_block b)))"
  by (simp add: distinct_hashes_def map_observed_to_wallet_block_def o_def)

text \<open>The blocks that the loop processes: those before the first \<open>None\<close>.\<close>

fun processed_blocks :: "observed_block option list \<Rightarrow> observed_block list" where
  "processed_blocks (Some b # received) = b # processed_blocks received"
| "processed_blocks _ = []"

text \<open>The results of the calls it makes, of which it only logs the errors.\<close>

fun activity_replies ::
    "(nat \<Rightarrow> ww_block \<Rightarrow> 'w \<Rightarrow> gerr option \<times> 'w) \<Rightarrow> nat \<Rightarrow> observed_block option list \<Rightarrow> 'w \<Rightarrow> gerr option list" where
  "activity_replies notify k (Some block # received) w =
     (case notify k (map_observed_to_wallet_block block) w of
        (err, w') \<Rightarrow> err # activity_replies notify (Suc k) received w')"
| "activity_replies notify k _ w = []"

lemma length_activity_replies [simp]:
  "length (activity_replies notify k received w) = length (processed_blocks received)"
  by (induction received arbitrary: k w rule: processed_blocks.induct) (simp_all add: split_beta)

text \<open>What is sent for a block: sound messages, and all of them when the call reports success.\<close>

definition block_told ::
    "(string \<Rightarrow> string) \<Rightarrow> (string \<times> string) set \<Rightarrow> observed_block \<times> gerr option \<Rightarrow> notification list \<Rightarrow> bool" where
  "block_told norm W = (\<lambda>(b, reply) msgs.
     sound_messages norm W (map_observed_to_wallet_block b) msgs \<and>
     (reply = None \<longrightarrow> complete_messages norm W (map_observed_to_wallet_block b) msgs))"

context notify_env
begin

lemma activity_told:
  "handle_wallet_activity (call_service ords s) k received w = (d, w') \<Longrightarrow> inv w \<Longrightarrow> (\<And>k. fair_orders (ords k)) \<Longrightarrow>
     (\<forall>b \<in> set (processed_blocks received). distinct_hashes b) \<Longrightarrow>
     watched w' = watched w \<and>
     (\<exists>sent. outbox w' = outbox w @ concat sent \<and>
        list_all2 (block_told norm (watched w))
          (zip (processed_blocks received) (activity_replies (call_service ords s) k received w)) sent)"
proof (induction received arbitrary: k w)
  case (Cons x received)
  show ?case
  proof (cases x)
    case (Some b)
    obtain r w1 where r: "notify_watched_transactions (ords k) s (map_observed_to_wallet_block b) w = (r, w1)"
      by (metis surj_pair)
    have d: "distinct (map wtx_hash (wb_transactions (map_observed_to_wallet_block b)))"
      using Cons.prems(4) Some by (intro distinct_hashes_converted) simp
    note p = processed [OF r Cons.prems(2,3) d]
    have call: "call_service ords s k (map_observed_to_wallet_block b) w = (r, w1)" using r by (simp add: call_service_def)
    then have h: "handle_wallet_activity (call_service ords s) (Suc k) received w1 = (d, w')"
      using Cons.prems(1) Some by simp
    from Cons.IH [OF h _ Cons.prems(3)] p Cons.prems(4) Some obtain sent where
      "watched w' = watched w" "outbox w' = outbox w1 @ concat sent"
      "list_all2 (block_told norm (watched w))
         (zip (processed_blocks received) (activity_replies (call_service ords s) (Suc k) received w1)) sent"
      by auto
    moreover from p obtain msgs where "outbox w1 = outbox w @ msgs" "block_told norm (watched w) (b, r) msgs"
      by (auto simp: block_told_def)
    ultimately show ?thesis using Some call by (auto intro!: exI [of _ "msgs # sent"])
  qed (use Cons.prems in \<open>auto intro: exI [of _ "[]"]\<close>)
qed (auto intro: exI [of _ "[]"])

end

lemma bp_start_success:
  assumes "bp_start ord s w = Val (Inr st, s', w')"
  obtains cs where "\<not> bps_started s" "cs_start ord (bps_chainstream s) w = Val (Inr st, cs, w')"
    "s' = s\<lparr>bps_chainstream := cs, bps_close := True, bps_started := True\<rparr>"
proof -
  from assms obtain r cs w1 where r: "\<not> bps_started s" "cs_start ord (bps_chainstream s) w = Val (r, cs, w1)"
    "(case r of Inl err \<Rightarrow> Val (Inl err, s\<lparr>bps_chainstream := cs\<rparr>, w1)
      | Inr st \<Rightarrow> Val (Inr st, s\<lparr>bps_chainstream := cs, bps_close := True, bps_started := True\<rparr>, w1)) = Val (Inr st, s', w')"
    by (auto simp: bp_start_def bind_outcome_Val_iff split: if_splits)
  with that show thesis by (cases r) auto
qed

lemma bp_start_failure:
  assumes "bp_start ord s w = Val (Inl e, s', w')" and "\<not> bps_started s"
  obtains cs where "cs_start ord (bps_chainstream s) w = Val (Inl e, cs, w')" "s' = s\<lparr>bps_chainstream := cs\<rparr>"
proof -
  from assms obtain r cs w1 where r: "cs_start ord (bps_chainstream s) w = Val (r, cs, w1)"
    "(case r of Inl err \<Rightarrow> Val (Inl err, s\<lparr>bps_chainstream := cs\<rparr>, w1)
      | Inr st \<Rightarrow> Val (Inr st, s\<lparr>bps_chainstream := cs, bps_close := True, bps_started := True\<rparr>, w1)) = Val (Inl e, s', w')"
    by (auto simp: bp_start_def bind_outcome_Val_iff)
  with that show thesis by (cases r) auto
qed

section \<open>A broker in memory\<close>

text \<open>It stands for the parameter in the examples, with the fates of the coming publications.\<close>

record broker =
  bk_accepted :: "(string \<times> string \<times> publishing) list"
  bk_fates :: "fate list"

definition broker_publish :: "string \<Rightarrow> string \<Rightarrow> bool \<Rightarrow> bool \<Rightarrow> publishing \<Rightarrow> broker \<Rightarrow> gerr option \<times> broker" where
  "broker_publish ex key mandatory immediate p m =
     (let yes = m\<lparr>bk_accepted := bk_accepted m @ [(ex, key, p)], bk_fates := tl (bk_fates m)\<rparr> in
      case bk_fates m of
        Fails e # _ \<Rightarrow> (Some (ErrExternal e), m\<lparr>bk_fates := tl (bk_fates m)\<rparr>)
      | LosesReply e # _ \<Rightarrow> (Some (ErrExternal e), yes)
      | _ \<Rightarrow> (None, yes))"

definition memory_amqp :: "broker amqp" where
  "memory_amqp =
     \<lparr>am_dial = (\<lambda>uri m. (None, m)), am_open_channel = (\<lambda>m. (None, m)), am_publish = broker_publish,
      am_close_channel = (\<lambda>m. (None, m)), am_close_conn = (\<lambda>m. (None, m)), am_now = (\<lambda>m. 0),
      am_uuid = (\<lambda>m. (''id'', m))\<rparr>"

definition broker_empty :: broker where
  "broker_empty = \<lparr>bk_accepted = [], bk_fates = []\<rparr>"

interpretation bk: amqp_broker memory_amqp bk_accepted
  by unfold_locales (auto simp: memory_amqp_def broker_publish_def Let_def split: list.splits fate.splits)

section \<open>Material of the examples\<close>

definition demo_observed :: observed_block where
  "demo_observed =
     \<lparr>ob_network = ''ETH'', ob_block =
       \<lparr>blk_height = ''0x1'', blk_hash = ''0xb'',
        blk_transactions = [\<lparr>ctx_hash = ''h1'', ctx_from = ''0xa'', ctx_to = ''0xc''\<rparr>]\<rparr>\<rparr>"

definition demo_db :: pg where
  "demo_db = pg_empty\<lparr>pg_wallets :=
     [\<lparr>mw_network = ''ETH'', mw_address = ''0xa''\<rparr>, \<lparr>mw_network = ''ETH'', mw_address = ''0xc''\<rparr>]\<rparr>"

definition node_call :: "pg \<times> broker \<Rightarrow> gerr option \<times> pg \<times> broker" where
  "node_call =
     notify_watched_transactions plain_orders (node_service memory_amqp '''' ''txs'') (map_observed_to_wallet_block demo_observed)"

text \<open>The second publication fails.\<close>

definition failing_node :: "pg \<times> broker" where
  "failing_node = (demo_db, broker_empty\<lparr>bk_fates := [Runs, Fails ''down'']\<rparr>)"

lemma failing_node_facts:
  "fst (node_call failing_node) = Some (ErrExternal ''down'')"
  "pg_fates (fst (snd (node_call failing_node))) = []"
  "pg_clock (fst (snd (node_call failing_node))) = 0"
  "pg_wallets (fst (snd (node_call failing_node))) = pg_wallets demo_db"
  "fst (node_call (pg_wait (defaultMaxProcessingTime + 1) (fst (snd (node_call failing_node))), snd (snd (node_call failing_node)))) =
     None"
  "fst (pg_claim (wb_network (map_observed_to_wallet_block demo_observed)) (wb_hash (map_observed_to_wallet_block demo_observed))
     defaultMaxProcessingTime (fst failing_node)) = None"
  "pg_fates (snd (pg_claim (wb_network (map_observed_to_wallet_block demo_observed))
     (wb_hash (map_observed_to_wallet_block demo_observed)) defaultMaxProcessingTime (fst failing_node))) = []"
  by code_simp+

definition demo_message :: "string \<Rightarrow> notification" where
  "demo_message a = (''ETH'', a, [demo_tx ''h1'' ''0xa'' ''0xc''])"

lemma demo_observed_processed:
  "inbox '''' ''txs'' (bk_accepted (snd (snd
     (notify_watched_transactions plain_orders (node_service memory_amqp '''' ''txs'')
       (map_observed_to_wallet_block demo_observed) (demo_db, broker_empty))))) =
   [demo_message ''0xa'', demo_message ''0xc'']"
  by code_simp

section \<open>After a notification that failed\<close>

context amqp_broker
begin

text \<open>The parts of a call on the database: the claim, the matching, which leaves the claims alone, and the publications.\<close>

lemma node_claims:
  "pg_claim n h ttl (fst w) = (r, d) \<Longrightarrow> ig_claim node_guard n h ttl w = (r, (d, snd w))"
  by (cases w) (simp add: node_guard_def pg_guard_def on_part_def)

lemma node_matching_frame:
  "get_transactions_by_wallet ord node_watch n txs w = (f, w') \<Longrightarrow> pg_idem (fst w') = pg_idem (fst w) \<and> snd w' = snd w"
proof -
  assume g: "get_transactions_by_wallet ord node_watch n txs w = (f, w')"
  then obtain addrs x where "ws_filter node_watch n addrs w = (x, w')"
    by (auto simp: get_transactions_by_wallet_def Let_def split: prod.splits sum.splits)
  then have d: "snd w' = snd w" "filter_monitored_wallets (to_upper n) addrs (fst w) = (x, fst w')"
    by (auto simp: node_watch_def pg_watch_def pg_filter_watched_wallets_def dest!: on_db_frame)
  have "pg_idem (snd (filter_monitored_wallets (to_upper n) addrs (fst w))) = pg_idem (fst w)"
    unfolding filter_monitored_wallets_def by (rule pg_exec_frame) simp_all
  with d show ?thesis by simp
qed

lemma node_notify_frame:
  "notify_wallets (node_notifier A ex key) n ms w = (r, w') \<Longrightarrow> fst w' = fst w"
proof (induction ms arbitrary: w)
  case (Cons m ms)
  obtain a ts where m: "m = (a, ts)" by (cases m)
  obtain x w1 where x: "tn_notify (node_notifier A ex key) n a ts w = (x, w1)" by (metis surj_pair)
  then have "fst w1 = fst w" by (auto simp: node_notifier_def dest!: on_mq_frame)
  with Cons x m show ?case by (cases x) auto
qed simp

text \<open>A call that fails behind its claim leaves the claims as it made them.\<close>

lemma node_failed_claims:
  assumes "pg_claim (wb_network b) (wb_hash b) defaultMaxProcessingTime (fst w) = (None, d)"
    and "notify_watched_transactions ord (node_service A ex key) b w = (Some e, w')"
  shows "pg_idem (fst w') = pg_idem d"
  using assms(2) node_claims [OF assms(1)]
  by (auto simp: notify_watched_transactions_def notify_watched_wallet_transactions_def split: prod.splits sum.splits option.splits
      dest!: node_matching_frame node_notify_frame)

lemma node_refused:
  assumes "fst (pg_claim (wb_network b) (wb_hash b) defaultMaxProcessingTime (fst w)) \<noteq> None"
    and "notify_watched_transactions ord (node_service A ex key) b w = (r, w')"
  shows "r \<noteq> None \<and> snd w' = snd w"
proof -
  obtain x d where "pg_claim (wb_network b) (wb_hash b) defaultMaxProcessingTime (fst w) = (Some x, d)"
    using assms(1) by (metis not_None_eq prod.collapse)
  from node_claims [OF this] assms(2) show ?thesis by (auto simp: notify_watched_transactions_def)
qed

text \<open>Without a statement that fails, the wallets are matched.\<close>

lemma node_matching_ok:
  "pg_fates (fst w) = [] \<Longrightarrow> \<exists>m w'. get_transactions_by_wallet ord node_watch n txs w = (Inr m, w')"
  by (rule get_transactions_ok)
     (simp add: node_watch_def on_part_def pg_watch_def pg_filter_watched_wallets_def filter_monitored_wallets_def pg_exec_def)

lemma node_granted:
  assumes "pg_claim (wb_network b) (wb_hash b) defaultMaxProcessingTime (fst w) = (None, d)"
    and "get_transactions_by_wallet ord node_watch (wb_network b) (wb_transactions b) (d, snd w) = (Inr m, w0)"
    and "notify_watched_transactions ord (node_service A ex key) b w = (r, w')" and "fair_orders ord" and "pg_unique (fst w)"
  shows "\<exists>sent. inbox ex key (accepted (snd w')) = inbox ex key (accepted (snd w)) @ sent \<and>
    told_until to_upper (pg_watched (fst w)) b r sent"
  using node.processed_granted [OF assms(3,5,4) _ assms(2)] node_claims [OF assms(1)] by simp

end

section \<open>Properties\<close>

text \<open>
  Processing a block on Postgres and RabbitMQ, under any failing or reply-losing statement and
  publication and any iteration orders: every message a subscriber of the exchange and key reads goes to a wallet that is
  registered for the network (in any spelling) and appears in the block, holds exactly the wallet's
  transactions, and is sent once; when the call reports success, every such wallet got its message.
  The hashes of the block's transactions are distinct.
\<close>

theorem block_notified:
  assumes "amqp_broker A accepted"
    and "notify_watched_transactions ord (node_service A ex key) b w = (r, w')"
    and "pg_unique (fst w)" and "fair_orders ord" and "distinct (map wtx_hash (wb_transactions b))"
  shows "\<exists>msgs. inbox ex key (accepted (snd w')) = inbox ex key (accepted (snd w)) @ msgs \<and>
           sound_messages to_upper (pg_watched (fst w)) b msgs \<and>
           (r = None \<longrightarrow> complete_messages to_upper (pg_watched (fst w)) b msgs)"
  using amqp_broker.node_processed [OF assms] by blast

theorem block_notified_witness:
  "\<exists>r w'. notify_watched_transactions plain_orders (node_service memory_amqp '''' ''txs'')
       (map_observed_to_wallet_block demo_observed) (demo_db, broker_empty) = (r, w') \<and>
     sound_messages to_upper (pg_watched demo_db) (map_observed_to_wallet_block demo_observed)
       [demo_message ''0xa'', demo_message ''0xc'']"
proof -
  obtain r w' where p: "notify_watched_transactions plain_orders (node_service memory_amqp '''' ''txs'')
       (map_observed_to_wallet_block demo_observed) (demo_db, broker_empty) = (r, w')" by (metis surj_pair)
  have u: "pg_unique (fst (demo_db, broker_empty))"
    and h: "distinct (map wtx_hash (wb_transactions (map_observed_to_wallet_block demo_observed)))"
    by (simp_all add: pg_unique_def demo_db_def map_observed_to_wallet_block_def demo_observed_def)
  from block_notified [OF bk.amqp_broker_axioms p u fair_plain h] obtain msgs where
    "inbox '''' ''txs'' (bk_accepted (snd w')) = inbox '''' ''txs'' (bk_accepted (snd (demo_db, broker_empty))) @ msgs"
    "sound_messages to_upper (pg_watched (fst (demo_db, broker_empty))) (map_observed_to_wallet_block demo_observed) msgs"
    by blast
  with demo_observed_processed p show ?thesis by (simp add: broker_empty_def)
qed



text \<open>
  The life cycle of \<^verbatim>\<open>blockproc\<close>: after a start that failed, \<^verbatim>\<open>Close\<close> returns and does nothing, and
  the service can be started again; after one that succeeded, a second start is refused without an
  effect, and \<^verbatim>\<open>Close\<close> returns with the service as it was before the start.
\<close>

theorem blockproc_lifecycle:
  assumes "bp_start ord (bp_new cs ww) w = Val (r, s', w')" and "\<not> svc_started cs" and "svc_close cs = None"
  shows "case r of
      Inl e \<Rightarrow> bp_close s' = Val s' \<and> \<not> bps_started s' \<and> \<not> svc_started (bps_chainstream s')
    | Inr st \<Rightarrow> bp_start ord' s' w2 = Val (Inl BlockprocAlreadyStarted, s', w2) \<and> bp_close s' = Val (bp_new cs ww)"
proof (cases r)
  case (Inl e)
  from bp_start_failure [of ord "bp_new cs ww" w e s' w'] assms(1) Inl obtain cs' where
    c: "cs_start ord cs w = Val (Inl e, cs', w')" and s': "s' = (bp_new cs ww)\<lparr>bps_chainstream := cs'\<rparr>"
    by (auto simp: bp_new_def)
  obtain st where "cs' = cs\<lparr>svc_close := Some st\<rparr>" by (rule cs_start_failure [OF c assms(2)])
  with assms(2) s' Inl show ?thesis by (simp add: bp_close_def bp_new_def)
next
  case (Inr st)
  from bp_start_success [of ord "bp_new cs ww" w st s' w'] assms(1) Inr obtain cs' where
    c: "cs_start ord cs w = Val (Inr st, cs', w')"
    and s': "s' = (bp_new cs ww)\<lparr>bps_chainstream := cs', bps_close := True, bps_started := True\<rparr>"
    by (auto simp: bp_new_def)
  have "cs_close cs' = Val (cs\<lparr>svc_started := False, svc_close := None\<rparr>)"
    by (rule cs_started_close [OF c])
  moreover have "cs\<lparr>svc_started := False, svc_close := None\<rparr> = cs" using assms(2,3) by (cases cs) simp
  ultimately show ?thesis using s' Inr by (simp add: bp_start_def bp_close_def bp_new_def)
qed

definition idle_watch :: "unit ww_service" where
  "idle_watch = ww_new watch_all \<lparr>tn_notify = (\<lambda>n a ts w. (None, w))\<rparr> []"

theorem blockproc_lifecycle_witness:
  "\<exists>s' st. bp_start (\<lambda>xs. xs) (bp_new (demo_service steady_client) idle_watch) () = Val (Inr st, s', ()) \<and>
     bp_close s' = Val (bp_new (demo_service steady_client) idle_watch)"
proof -
  obtain s' st where p: "bp_start (\<lambda>xs. xs) (bp_new (demo_service steady_client) idle_watch) () = Val (Inr st, s', ())"
    using demo_service_start by (simp add: bp_start_def bp_new_def)
  have "\<not> svc_started (demo_service steady_client)" "svc_close (demo_service steady_client) = None"
    by (simp_all add: demo_service_def cs_new_def)
  from blockproc_lifecycle [OF p this] p show ?thesis by auto
qed

end
