(* ===== verification/Bootstrap.thy ===== *)
theory Bootstrap
  imports Bootstrap_Messaging Ethereum Solana Retry Blockproc
begin

text \<open>
  \<^verbatim>\<open>internal/bootstrap/bootstrap.go\<close>: \<^verbatim>\<open>New\<close> builds the services from a configuration, \<^verbatim>\<open>Close\<close>
  closes what was opened. The package variables of the two resolvers and the state of everything
  outside are one state (\<open>boot\<close>), threaded by \<open>boot_bind\<close>, which returns at the first error. What is
  outside the repository is the record \<open>drivers\<close>: opening connections, the HTTP exchange of a
  client configuration, the generator of request identifiers, the retry library.
\<close>

section \<open>State\<close>

record 'w boot =
  bo_storage :: "'w storage_state"
  bo_messaging :: "'w messaging_state"
  bo_world :: 'w

record 'w drivers =
  dv_storage :: "'w storage_drivers"
  dv_messaging :: "'w messaging_drivers"
  dv_http :: "http_config \<Rightarrow> 'w http_exchange"
  dv_uuid :: "'w \<Rightarrow> string \<times> 'w"
  dv_do :: "'w do_fn"

type_synonym ('w, 'a) boot_step = "'w boot \<Rightarrow> ((gerr + 'a) \<times> 'w boot) outcome"

definition boot_return :: "'a \<Rightarrow> ('w, 'a) boot_step" where
  "boot_return x s = Val (Inr x, s)"

definition boot_bind :: "('w, 'a) boot_step \<Rightarrow> ('a \<Rightarrow> ('w, 'b) boot_step) \<Rightarrow> ('w, 'b) boot_step" where
  "boot_bind m f s =
     bind_outcome (m s) (\<lambda>r. case r of (Inl err, s') \<Rightarrow> Val (Inl err, s') | (Inr x, s') \<Rightarrow> f x s')"

definition boot_storage_init :: "'w drivers \<Rightarrow> storage_engines \<Rightarrow> ('w, unit) boot_step" where
  "boot_storage_init D es s =
     bind_outcome (storage_init (dv_storage D) es (bo_world s)) (\<lambda>(err, st, w).
       Val (case err of None \<Rightarrow> Inr () | Some e \<Rightarrow> Inl e, s\<lparr>bo_storage := st, bo_world := w\<rparr>))"

definition boot_messaging_init :: "'w drivers \<Rightarrow> messaging_engines \<Rightarrow> ('w, unit) boot_step" where
  "boot_messaging_init D es s =
     bind_outcome (messaging_init (dv_messaging D) es (bo_world s)) (\<lambda>(err, st, w).
       Val (case err of None \<Rightarrow> Inr () | Some e \<Rightarrow> Inl e, s\<lparr>bo_messaging := st, bo_world := w\<rparr>))"

definition resolve_storage :: "'w drivers \<Rightarrow> storage_picker \<Rightarrow> ('w, 'w storage_client) boot_step" where
  "resolve_storage D p s =
     bind_outcome (storage_resolve (dv_storage D) p (bo_storage s) (bo_world s)) (\<lambda>(r, st, w).
       Val (r, s\<lparr>bo_storage := st, bo_world := w\<rparr>))"

definition resolve_messaging ::
    "'w drivers \<Rightarrow> ('w, 't) adapter \<Rightarrow> messaging_picker \<Rightarrow> ('w, 't) boot_step" where
  "resolve_messaging D adapter p s =
     bind_outcome (messaging_resolve (dv_messaging D) adapter p (bo_messaging s) (bo_world s)) (\<lambda>(r, st, w).
       Val (r, s\<lparr>bo_messaging := st, bo_world := w\<rparr>))"

section \<open>The clients of the networks\<close>

definition eth_eventsChannelBufferSize :: nat where "eth_eventsChannelBufferSize = 200"
definition sol_eventsChannelBufferSize :: nat where "sol_eventsChannelBufferSize = 200"

text \<open>\<^verbatim>\<open>Subscribe\<close> as \<^verbatim>\<open>chainstream\<close> sees it: the error of the first request, or a channel.\<close>

definition eth_new_client :: "'w rpc \<Rightarrow> 'w blockchain" where
  "eth_new_client conn =
     \<lparr>bc_fetch_block_by_height = (\<lambda>h w. Val (eth_fetch_block_by_height conn h w)),
      bc_subscribe = (\<lambda>h w. case eth_subscribe_init conn h w of
          (Inl err, w') \<Rightarrow> (Inl err, w')
        | (Inr start, w') \<Rightarrow> (Inr eth_eventsChannelBufferSize, w'))\<rparr>"

definition sol_new_client :: "'w rpc \<Rightarrow> 'w blockchain" where
  "sol_new_client conn =
     \<lparr>bc_fetch_block_by_height = sol_fetch_block_by_height conn,
      bc_subscribe = (\<lambda>h w. case sol_subscribe_init conn h w of
          (Inl err, w') \<Rightarrow> (Inl err, w')
        | (Inr start, w') \<Rightarrow> (Inr sol_eventsChannelBufferSize, w'))\<rparr>"

definition build_jsonrpc_client :: "'w drivers \<Rightarrow> jsonrpc_cfg \<Rightarrow> 'w rpc" where
  "build_jsonrpc_client D c =
     (let httpClient = http_new_client
        [with_timeout (hcf_timeout (jcf_http c)), with_retry_max (hcf_retryMax (jcf_http c)),
         with_retry_wait_max (hcf_retryWaitMax (jcf_http c)), with_retry_wait_min (hcf_retryWaitMin (jcf_http c))]
      in rpc_fetch (dv_uuid D) (dv_http D httpClient) (jcf_endpoint c))"

section \<open>The services\<close>

definition setup_wallet_registry :: "'w drivers \<Rightarrow> registry_cfg \<Rightarrow> ('w, 'w wr_service) boot_step" where
  "setup_wallet_registry D c =
     boot_bind (resolve_storage D (gcf_storage c)) (\<lambda>walletStorage.
       boot_return (wr_new (stc_registry walletStorage)))"

definition setup_wallet_watch :: "'w drivers \<Rightarrow> walletwatch_cfg \<Rightarrow> ('w, 'w ww_service) boot_step" where
  "setup_wallet_watch D c =
     boot_bind (resolve_storage D (wcf_storage c)) (\<lambda>walletStorage.
     boot_bind (resolve_messaging D mf_tx_adapter (wcf_notifier c)) (\<lambda>transactionNotifier.
     let opts = (if 0 < wcf_maxProcessingTime c then [ww_with_max_processing_time (wcf_maxProcessingTime c)] else []) in
     boot_bind
       (case wcf_guard c of
          None \<Rightarrow> boot_return opts
        | Some p \<Rightarrow> boot_bind (resolve_storage D p) (\<lambda>guard. boot_return (opts @ [ww_with_guard (stc_guard guard)])))
       (\<lambda>opts. boot_return (ww_new (stc_watch walletStorage) transactionNotifier opts))))"

definition chain_networks :: "'w drivers \<Rightarrow> networks_cfg \<Rightarrow> (string \<times> 'w blockchain) list" where
  "chain_networks D n =
     (case ncf_ethereum n of
        None \<Rightarrow> []
      | Some c \<Rightarrow> [(ProviderEthereum, eth_new_client (build_jsonrpc_client D c))]) @
     (case ncf_solana n of
        None \<Rightarrow> []
      | Some c \<Rightarrow> [(ProviderSolana, sol_new_client (build_jsonrpc_client D c))])"

definition build_retrier :: "'w drivers \<Rightarrow> retry_cfg \<Rightarrow> 'w retrier" where
  "build_retrier D c =
     \<lparr>rt_execute = retry_execute (dv_do D)
        (retry_new [with_attempts (ycf_attempts c), with_delay (ycf_delay c), with_max_delay (ycf_maxDelay c)])\<rparr>"

definition setup_chain_stream :: "'w drivers \<Rightarrow> chainstream_cfg \<Rightarrow> ('w, 'w cs_service) boot_step" where
  "setup_chain_stream D c =
     (let networks = chain_networks D (scf_networks c);
          opts = (case scf_retry c of None \<Rightarrow> [] | Some r \<Rightarrow> [cs_with_retry (build_retrier D r)]) in
      boot_bind
        (case scf_checkpoint c of
           None \<Rightarrow> boot_return opts
         | Some p \<Rightarrow>
             boot_bind (resolve_storage D p) (\<lambda>storage. boot_return (opts @ [cs_with_checkpoint (stc_checkpoint storage)])))
        (\<lambda>opts. boot_bind
          (case scf_notifier c of
             None \<Rightarrow> boot_return opts
           | Some p \<Rightarrow>
               boot_bind (resolve_messaging D mf_failure_adapter p) (\<lambda>n. boot_return (opts @ [cs_with_notifier n])))
          (\<lambda>opts. boot_return (cs_new networks opts))))"

section \<open>New and Close\<close>

record 'w bootstrap =
  bt_chainstream :: "'w cs_service"
  bt_walletwatch :: "'w ww_service"
  bt_walletregistry :: "'w wr_service"
  bt_blockproc :: "'w bp_service"

definition bootstrap_new :: "'w drivers \<Rightarrow> config \<Rightarrow> ('w, 'w bootstrap) boot_step" where
  "bootstrap_new D c =
     boot_bind (boot_storage_init D (en_storage (cf_engines c))) (\<lambda>_.
     boot_bind (boot_messaging_init D (en_messaging (cf_engines c))) (\<lambda>_.
     boot_bind (setup_chain_stream D (cf_chainstream c)) (\<lambda>chainstream.
     boot_bind (setup_wallet_watch D (cf_walletwatch c)) (\<lambda>walletwatch.
     boot_bind (setup_wallet_registry D (cf_walletregistry c)) (\<lambda>walletregistry.
     boot_return
       \<lparr>bt_chainstream = chainstream, bt_walletwatch = walletwatch, bt_walletregistry = walletregistry,
        bt_blockproc = bp_new chainstream walletwatch\<rparr>)))))"

definition bootstrap_close :: "'w boot \<Rightarrow> gerr option \<times> 'w boot" where
  "bootstrap_close s =
     (case storage_close (bo_storage s) (bo_world s) of
        (e1, w1) \<Rightarrow> (case messaging_close (bo_messaging s) w1 of
          (e2, w2) \<Rightarrow> (errors_join [e1, e2], s\<lparr>bo_world := w2\<rparr>)))"

section \<open>Lemmas\<close>

text \<open>
  The rules of a step that does not panic, fails only with the error of a connection and otherwise
  ends in \<open>Q\<close>. Each \<open>resolve\<close> keeps the state ready and what is already tracked.
\<close>

definition boot_ok :: "('w, 'a) boot_step \<Rightarrow> 'w boot \<Rightarrow> ('a \<Rightarrow> 'w boot \<Rightarrow> bool) \<Rightarrow> bool" where
  "boot_ok m s Q \<longleftrightarrow>
     (\<exists>r s'. m s = Val (r, s') \<and> (case r of Inl err \<Rightarrow> connection_error err | Inr x \<Rightarrow> Q x s'))"

lemma boot_ok_return: "Q x s \<Longrightarrow> boot_ok (boot_return x) s Q"
  by (simp add: boot_ok_def boot_return_def)

lemma boot_ok_bind:
  assumes "boot_ok m s Q" "\<And>x s'. Q x s' \<Longrightarrow> boot_ok (f x) s' R"
  shows "boot_ok (boot_bind m f) s R"
proof -
  obtain r s' where m: "m s = Val (r, s')" "case r of Inl err \<Rightarrow> connection_error err | Inr x \<Rightarrow> Q x s'"
    using assms(1) by (auto simp: boot_ok_def)
  show ?thesis
  proof (cases r)
    case (Inl err)
    with m show ?thesis by (simp add: boot_ok_def boot_bind_def)
  next
    case (Inr x)
    with m assms(2) [of x s'] show ?thesis by (simp add: boot_ok_def boot_bind_def)
  qed
qed

lemma boot_ok_mono: "boot_ok m s Q \<Longrightarrow> (\<And>x s'. Q x s' \<Longrightarrow> R x s') \<Longrightarrow> boot_ok m s R"
  unfolding boot_ok_def by (metis (mono_tags, lifting) old.sum.simps(6) sum.case_eq_if sum.collapse(2))

definition backends_ready :: "'w drivers \<Rightarrow> engines \<Rightarrow> 'w boot \<Rightarrow> bool" where
  "backends_ready D es s \<longleftrightarrow>
     storage_ready (dv_storage D) (en_storage es) (bo_storage s) \<and>
     messaging_ready (dv_messaging D) (en_messaging es) (bo_messaging s)"

text \<open>\<open>later\<close>: a ready state in which everything tracked before still is.\<close>

definition later :: "'w drivers \<Rightarrow> engines \<Rightarrow> 'w boot \<Rightarrow> 'w boot \<Rightarrow> bool" where
  "later D es s s' \<longleftrightarrow> backends_ready D es s' \<and>
     set (sts_opened (bo_storage s)) \<subseteq> set (sts_opened (bo_storage s')) \<and>
     set (mst_opened (bo_messaging s)) \<subseteq> set (mst_opened (bo_messaging s'))"

lemma later_trans: "later D es s s' \<Longrightarrow> later D es s' s'' \<Longrightarrow> later D es s s''"
  by (auto simp: later_def)

lemma later_refl: "backends_ready D es s \<Longrightarrow> later D es s s"
  by (simp add: later_def)

lemma later_ready: "later D es s s' \<Longrightarrow> backends_ready D es s'"
  by (simp add: later_def)

text \<open>What the configuration asks for, and that it will be closed.\<close>

definition storage_for :: "'w drivers \<Rightarrow> engines \<Rightarrow> 'w boot \<Rightarrow> storage_picker \<Rightarrow> 'w storage_client \<Rightarrow> bool" where
  "storage_for D es s p c \<longleftrightarrow>
     storage_backend (dv_storage D) (en_storage es) p = Some c \<and> c \<in> set (sts_opened (bo_storage s))"

definition messaging_for ::
    "('w mq_client \<Rightarrow> message_publisher \<Rightarrow> 't option) \<Rightarrow> 'w drivers \<Rightarrow> engines \<Rightarrow> 'w boot \<Rightarrow> messaging_picker \<Rightarrow> 't \<Rightarrow> bool" where
  "messaging_for notifier D es s p t \<longleftrightarrow>
     (\<exists>c. mq_backend (dv_messaging D) (en_messaging es) p = Some c \<and> c \<in> set (mst_opened (bo_messaging s)) \<and>
          notifier c (mk_publisher p) = Some t)"

definition registry_wired :: "'w drivers \<Rightarrow> engines \<Rightarrow> registry_cfg \<Rightarrow> 'w wr_service \<Rightarrow> 'w boot \<Rightarrow> bool" where
  "registry_wired D es c wr s \<longleftrightarrow> (\<exists>st. storage_for D es s (gcf_storage c) st \<and> wr = wr_new (stc_registry st))"

definition watch_wired :: "'w drivers \<Rightarrow> engines \<Rightarrow> walletwatch_cfg \<Rightarrow> 'w ww_service \<Rightarrow> 'w boot \<Rightarrow> bool" where
  "watch_wired D es c ww s \<longleftrightarrow>
     (\<exists>st. storage_for D es s (wcf_storage c) st \<and> wsv_storage ww = stc_watch st) \<and>
     messaging_for tx_notifier_of D es s (wcf_notifier c) (wsv_notifier ww) \<and>
     wsv_maxProcessingTime ww =
       (if 0 < wcf_maxProcessingTime c then wcf_maxProcessingTime c else defaultMaxProcessingTime) \<and>
     (case wcf_guard c of
        None \<Rightarrow> wsv_guard ww = nop_guard
      | Some p \<Rightarrow> \<exists>st. storage_for D es s p st \<and> wsv_guard ww = stc_guard st)"

definition stream_wired :: "'w drivers \<Rightarrow> engines \<Rightarrow> chainstream_cfg \<Rightarrow> 'w cs_service \<Rightarrow> 'w boot \<Rightarrow> bool" where
  "stream_wired D es c cs s \<longleftrightarrow>
     \<not> svc_started cs \<and> svc_close cs = None \<and> svc_networks cs = chain_networks D (scf_networks c) \<and>
     svc_retry cs = map_option (build_retrier D) (scf_retry c) \<and>
     (case scf_checkpoint c of
        None \<Rightarrow> svc_storage cs = nop_checkpoint
      | Some p \<Rightarrow> \<exists>st. storage_for D es s p st \<and> svc_storage cs = stc_checkpoint st) \<and>
     (case scf_notifier c of
        None \<Rightarrow> svc_notifier cs = log_failure_notifier
      | Some p \<Rightarrow> messaging_for (failure_notifier_of (md_text (dv_messaging D))) D es s p (svc_notifier cs))"

lemma storage_for_later: "later D es s s' \<Longrightarrow> storage_for D es s p c \<Longrightarrow> storage_for D es s' p c"
  by (auto simp: later_def storage_for_def)

lemma messaging_for_later: "later D es s s' \<Longrightarrow> messaging_for f D es s p t \<Longrightarrow> messaging_for f D es s' p t"
  by (auto simp: later_def messaging_for_def)

lemma watch_wired_later: "later D es s s' \<Longrightarrow> watch_wired D es c ww s \<Longrightarrow> watch_wired D es c ww s'"
  by (auto simp: watch_wired_def split: option.splits intro: storage_for_later messaging_for_later)

lemma stream_wired_later: "later D es s s' \<Longrightarrow> stream_wired D es c cs s \<Longrightarrow> stream_wired D es c cs s'"
  by (auto simp: stream_wired_def split: option.splits intro: storage_for_later messaging_for_later)

lemma resolve_storage_ok:
  assumes "backends_ready D es s" "wf_storage_picker (en_storage es) p"
  shows "boot_ok (resolve_storage D p) s (\<lambda>c s'. later D es s s' \<and> storage_for D es s' p c)"
proof -
  have "storage_ready (dv_storage D) (en_storage es) (bo_storage s)" using assms(1) by (simp add: backends_ready_def)
  from storage_resolve_result [OF this assms(2), of "bo_world s"]
  obtain r st' w' where r: "storage_resolve (dv_storage D) p (bo_storage s) (bo_world s) = Val (r, st', w')" and rest: "storage_ready (dv_storage D) (en_storage es) st'"
    "set (sts_opened (bo_storage s)) \<subseteq> set (sts_opened st')"
    "case r of Inl err \<Rightarrow> connection_error err | Inr x \<Rightarrow> storage_backend (dv_storage D) (en_storage es) p = Some x \<and> x \<in> set (sts_opened st')"
    by blast
  with assms(1) show ?thesis
    by (cases r) (auto simp: boot_ok_def resolve_storage_def later_def backends_ready_def storage_for_def)
qed

lemma resolve_tx_notifier_ok:
  assumes "backends_ready D es s" "wf_messaging_picker (en_messaging es) p"
  shows "boot_ok (resolve_messaging D mf_tx_adapter p) s (\<lambda>t s'. later D es s s' \<and> messaging_for tx_notifier_of D es s' p t)"
proof -
  have "messaging_ready (dv_messaging D) (en_messaging es) (bo_messaging s)" using assms(1) by (simp add: backends_ready_def)
  from resolve_tx_notifier_result [OF this assms(2), of "bo_world s"]
  obtain r st' w' where r: "messaging_resolve (dv_messaging D) mf_tx_adapter p (bo_messaging s) (bo_world s) = Val (r, st', w')" and rest: "messaging_ready (dv_messaging D) (en_messaging es) st'"
    "set (mst_opened (bo_messaging s)) \<subseteq> set (mst_opened st')"
    "case r of Inl err \<Rightarrow> connection_error err | Inr x \<Rightarrow> \<exists>c. mq_backend (dv_messaging D) (en_messaging es) p = Some c \<and> c \<in> set (mst_opened st') \<and>
         tx_notifier_of c (mk_publisher p) = Some x"
    by blast
  with assms(1) show ?thesis
    by (cases r) (auto simp: boot_ok_def resolve_messaging_def later_def backends_ready_def messaging_for_def)
qed

lemma resolve_failure_notifier_ok:
  assumes "backends_ready D es s" "wf_messaging_picker (en_messaging es) p"
  shows "boot_ok (resolve_messaging D mf_failure_adapter p) s (\<lambda>t s'. later D es s s' \<and>
    messaging_for (failure_notifier_of (md_text (dv_messaging D))) D es s' p t)"
proof -
  have "messaging_ready (dv_messaging D) (en_messaging es) (bo_messaging s)" using assms(1) by (simp add: backends_ready_def)
  from resolve_failure_notifier_result [OF this assms(2), of "bo_world s"]
  obtain r st' w' where r: "messaging_resolve (dv_messaging D) mf_failure_adapter p (bo_messaging s) (bo_world s) = Val (r, st', w')" and rest: "messaging_ready (dv_messaging D) (en_messaging es) st'"
    "set (mst_opened (bo_messaging s)) \<subseteq> set (mst_opened st')"
    "case r of Inl err \<Rightarrow> connection_error err | Inr x \<Rightarrow> \<exists>c. mq_backend (dv_messaging D) (en_messaging es) p = Some c \<and> c \<in> set (mst_opened st') \<and>
         failure_notifier_of (md_text (dv_messaging D)) c (mk_publisher p) = Some x"
    by blast
  with assms(1) show ?thesis
    by (cases r) (auto simp: boot_ok_def resolve_messaging_def later_def backends_ready_def messaging_for_def)
qed

lemmas bind_storage = boot_ok_bind [OF resolve_storage_ok]
  and bind_tx_notifier = boot_ok_bind [OF resolve_tx_notifier_ok]
  and bind_failure_notifier = boot_ok_bind [OF resolve_failure_notifier_ok]

lemma setup_wallet_registry_ok:
  assumes "backends_ready D es s" "wf_storage_picker (en_storage es) (gcf_storage c)"
  shows "boot_ok (setup_wallet_registry D c) s (\<lambda>wr s'. later D es s s' \<and> registry_wired D es c wr s')"
  unfolding setup_wallet_registry_def
  by (rule bind_storage [OF assms], rule boot_ok_return) (auto simp: registry_wired_def)

lemma optional_storage_ok:
  assumes "backends_ready D es s" "pred_option (wf_storage_picker (en_storage es)) p"
  shows "boot_ok (case p of None \<Rightarrow> boot_return opts
      | Some q \<Rightarrow> boot_bind (resolve_storage D q) (\<lambda>c. boot_return (opts @ [f c]))) s
    (\<lambda>opts' s'. later D es s s' \<and>
       (case p of None \<Rightarrow> opts' = opts | Some q \<Rightarrow> \<exists>c. storage_for D es s' q c \<and> opts' = opts @ [f c]))"
proof (cases p)
  case None
  then show ?thesis using assms(1) by (auto intro!: boot_ok_return later_refl)
next
  case (Some q)
  with assms have wf: "wf_storage_picker (en_storage es) q" by simp
  show ?thesis unfolding Some option.case
    by (rule bind_storage [OF assms(1) wf], rule boot_ok_return) auto
qed

lemma optional_notifier_ok:
  assumes "backends_ready D es s" "pred_option (wf_messaging_picker (en_messaging es)) p"
  shows "boot_ok (case p of None \<Rightarrow> boot_return opts
      | Some q \<Rightarrow> boot_bind (resolve_messaging D mf_failure_adapter q) (\<lambda>n. boot_return (opts @ [f n]))) s
    (\<lambda>opts' s'. later D es s s' \<and>
       (case p of None \<Rightarrow> opts' = opts
        | Some q \<Rightarrow> \<exists>n. messaging_for (failure_notifier_of (md_text (dv_messaging D))) D es s' q n \<and> opts' = opts @ [f n]))"
proof (cases p)
  case None
  then show ?thesis using assms(1) by (auto intro!: boot_ok_return later_refl)
next
  case (Some q)
  with assms have wf: "wf_messaging_picker (en_messaging es) q" by simp
  show ?thesis unfolding Some option.case
    by (rule bind_failure_notifier [OF assms(1) wf], rule boot_ok_return) auto
qed

lemma setup_wallet_watch_ok:
  assumes "backends_ready D es s" "wf_storage_picker (en_storage es) (wcf_storage c)"
    "wf_messaging_picker (en_messaging es) (wcf_notifier c)"
    "pred_option (wf_storage_picker (en_storage es)) (wcf_guard c)"
  shows "boot_ok (setup_wallet_watch D c) s (\<lambda>ww s'. later D es s s' \<and> watch_wired D es c ww s')"
  unfolding setup_wallet_watch_def Let_def
proof (rule bind_storage [OF assms(1,2)], elim conjE)
  fix st s1
  assume 1: "later D es s s1" "storage_for D es s1 (wcf_storage c) st"
  let ?opts = "if 0 < wcf_maxProcessingTime c then [ww_with_max_processing_time (wcf_maxProcessingTime c)] else []"
  show "boot_ok (boot_bind (resolve_messaging D mf_tx_adapter (wcf_notifier c)) (\<lambda>tn. boot_bind
      (case wcf_guard c of None \<Rightarrow> boot_return ?opts
       | Some p \<Rightarrow> boot_bind (resolve_storage D p) (\<lambda>guard. boot_return (?opts @ [ww_with_guard (stc_guard guard)])))
      (\<lambda>opts. boot_return (ww_new (stc_watch st) tn opts)))) s1 (\<lambda>ww s'. later D es s s' \<and> watch_wired D es c ww s')"
  proof (rule bind_tx_notifier [OF later_ready [OF 1(1)] assms(3)], elim conjE)
    fix tn s2
    assume 2: "later D es s1 s2" "messaging_for tx_notifier_of D es s2 (wcf_notifier c) tn"
    show "boot_ok (boot_bind
        (case wcf_guard c of None \<Rightarrow> boot_return ?opts
         | Some p \<Rightarrow> boot_bind (resolve_storage D p) (\<lambda>guard. boot_return (?opts @ [ww_with_guard (stc_guard guard)])))
        (\<lambda>opts. boot_return (ww_new (stc_watch st) tn opts))) s2 (\<lambda>ww s'. later D es s s' \<and> watch_wired D es c ww s')"
    proof (rule boot_ok_bind [OF optional_storage_ok [OF later_ready [OF 2(1)] assms(4)]], elim conjE, rule boot_ok_return)
      fix opts s3
      assume 3: "later D es s2 s3" "case wcf_guard c of None \<Rightarrow> opts = ?opts
          | Some p \<Rightarrow> \<exists>g. storage_for D es s3 p g \<and> opts = ?opts @ [ww_with_guard (stc_guard g)]"
      note facts = storage_for_later [OF later_trans [OF 2(1) 3(1)] 1(2)] messaging_for_later [OF 3(1) 2(2)]
      have "watch_wired D es c (ww_new (stc_watch st) tn opts) s3"
        unfolding watch_wired_def using facts 3(2)
        by (auto simp: ww_new_def ww_with_max_processing_time_def ww_with_guard_def split: option.splits)
      then show "later D es s s3 \<and> watch_wired D es c (ww_new (stc_watch st) tn opts) s3"
        using later_trans [OF later_trans [OF 1(1) 2(1)] 3(1)] by simp
    qed
  qed
qed

lemma setup_chain_stream_ok:
  assumes "backends_ready D es s" "pred_option (wf_storage_picker (en_storage es)) (scf_checkpoint c)"
    "pred_option (wf_messaging_picker (en_messaging es)) (scf_notifier c)"
  shows "boot_ok (setup_chain_stream D c) s (\<lambda>cs s'. later D es s s' \<and> stream_wired D es c cs s')"
  unfolding setup_chain_stream_def Let_def
proof (rule boot_ok_bind [OF optional_storage_ok [OF assms(1,2)]], elim conjE)
  fix opts1 s1
  let ?opts = "case scf_retry c of None \<Rightarrow> [] | Some r \<Rightarrow> [cs_with_retry (build_retrier D r)]"
  let ?N = "\<lambda>s' q n. messaging_for (failure_notifier_of (md_text (dv_messaging D))) D es s' q n"
  assume 1: "later D es s s1" "case scf_checkpoint c of None \<Rightarrow> opts1 = ?opts
      | Some q \<Rightarrow> \<exists>st. storage_for D es s1 q st \<and> opts1 = ?opts @ [cs_with_checkpoint (stc_checkpoint st)]"
  show "boot_ok (boot_bind
      (case scf_notifier c of None \<Rightarrow> boot_return opts1
       | Some p \<Rightarrow> boot_bind (resolve_messaging D mf_failure_adapter p) (\<lambda>n. boot_return (opts1 @ [cs_with_notifier n])))
      (\<lambda>opts. boot_return (cs_new (chain_networks D (scf_networks c)) opts))) s1
      (\<lambda>cs s'. later D es s s' \<and> stream_wired D es c cs s')"
  proof (rule boot_ok_bind [OF optional_notifier_ok [OF later_ready [OF 1(1)] assms(3)]], elim conjE, rule boot_ok_return)
    fix opts2 s2
    assume 2: "later D es s1 s2" "case scf_notifier c of None \<Rightarrow> opts2 = opts1
        | Some q \<Rightarrow> \<exists>n. ?N s2 q n \<and> opts2 = opts1 @ [cs_with_notifier n]"
    have "case scf_checkpoint c of None \<Rightarrow> opts1 = ?opts
      | Some q \<Rightarrow> \<exists>st. storage_for D es s2 q st \<and> opts1 = ?opts @ [cs_with_checkpoint (stc_checkpoint st)]"
      using 1(2) storage_for_later [OF 2(1)] by (fastforce split: option.splits)
    with 2(2) have "stream_wired D es c (cs_new (chain_networks D (scf_networks c)) opts2) s2"
      by (auto simp: stream_wired_def cs_new_def cs_with_retry_def cs_with_checkpoint_def cs_with_notifier_def
          split: option.splits)
    then show "later D es s s2 \<and> stream_wired D es c (cs_new (chain_networks D (scf_networks c)) opts2) s2"
      using later_trans [OF 1(1) 2(1)] by simp
  qed
qed

lemma boot_storage_init_ok:
  "boot_ok (boot_storage_init D es) s (\<lambda>_ s'. storage_ready (dv_storage D) es (bo_storage s'))"
  using storage_init_result [of "dv_storage D" es "bo_world s"]
  by (auto simp: boot_ok_def boot_storage_init_def split: option.splits)

lemma boot_messaging_init_ok:
  "storage_ready (dv_storage D) (en_storage es) (bo_storage s) \<Longrightarrow>
   boot_ok (boot_messaging_init D (en_messaging es)) s (\<lambda>_ s'. backends_ready D es s')"
  using messaging_init_result [of "dv_messaging D" "en_messaging es" "bo_world s"]
  by (auto simp: boot_ok_def boot_messaging_init_def backends_ready_def split: option.splits)

section \<open>An installation in memory\<close>

definition redis_on :: "('w \<Rightarrow> 'd) \<Rightarrow> ('d \<Rightarrow> 'w \<Rightarrow> 'w) \<Rightarrow> 'd redis \<Rightarrow> 'w redis" where
  "redis_on get put R =
     \<lparr>rd_get = (\<lambda>k. on_part get put (rd_get R k)), rd_set = (\<lambda>k v ttl. on_part get put (rd_set R k v ttl)),
      rd_setnx = (\<lambda>k v ttl. on_part get put (rd_setnx R k v ttl)), rd_sadd = (\<lambda>k a. on_part get put (rd_sadd R k a)),
      rd_srem = (\<lambda>k a. on_part get put (rd_srem R k a)),
      rd_smismember = (\<lambda>k addrs. on_part get put (rd_smismember R k addrs)),
      rd_ping = on_part get put (rd_ping R), rd_close = on_part get put (rd_close R)\<rparr>"

definition amqp_on :: "('w \<Rightarrow> 'm) \<Rightarrow> ('m \<Rightarrow> 'w \<Rightarrow> 'w) \<Rightarrow> 'm amqp \<Rightarrow> 'w amqp" where
  "amqp_on get put A =
     \<lparr>am_dial = (\<lambda>uri. on_part get put (am_dial A uri)), am_open_channel = on_part get put (am_open_channel A),
      am_publish = (\<lambda>x k m i p. on_part get put (am_publish A x k m i p)),
      am_close_channel = on_part get put (am_close_channel A), am_close_conn = on_part get put (am_close_conn A),
      am_now = am_now A \<circ> get, am_uuid = on_part get put (am_uuid A)\<rparr>"

definition streams_on :: "('w \<Rightarrow> 'x) \<Rightarrow> ('x \<Rightarrow> 'w \<Rightarrow> 'w) \<Rightarrow> 'x streams \<Rightarrow> 'w streams" where
  "streams_on get put X =
     \<lparr>sx_ping = on_part get put (sx_ping X), sx_xadd = (\<lambda>k i vs. on_part get put (sx_xadd X k i vs)),
      sx_close = on_part get put (sx_close X)\<rparr>"

abbreviation redis_on_db :: "'d redis \<Rightarrow> ('d \<times> 'm) redis" where
  "redis_on_db \<equiv> redis_on fst (\<lambda>d w. (d, snd w))"

abbreviation amqp_on_mq :: "'m amqp \<Rightarrow> ('d \<times> 'm) amqp" where
  "amqp_on_mq \<equiv> amqp_on snd (\<lambda>m w. (fst w, m))"

definition demo_streams :: "'w streams" where
  "demo_streams = \<lparr>sx_ping = Pair None, sx_xadd = (\<lambda>_ _ _. Pair None), sx_close = Pair None\<rparr>"

definition demo_drivers :: "(redis_memory \<times> broker) drivers" where
  "demo_drivers =
     \<lparr>dv_storage = \<lparr>sd_redis = (\<lambda>_. redis_on_db memory_redis),
        sd_pool = (\<lambda>_. \<lparr>pp_new = Pair None, pp_get = (\<lambda>_. pg_empty), pp_put = (\<lambda>_ w. w), pp_close = (\<lambda>w. w)\<rparr>)\<rparr>,
      dv_messaging = \<lparr>md_streams = (\<lambda>_. demo_streams), md_amqp = (\<lambda>_. amqp_on_mq memory_amqp), md_text = (\<lambda>_. ''error'')\<rparr>,
      dv_http = (\<lambda>_ _ _. Pair (Inl (ErrExternal ''down''))), dv_uuid = Pair ''1'', dv_do = (\<lambda>_ op w. (DoNil, snd (op w)))\<rparr>"

lemmas boot_steps = boot_bind_def boot_return_def boot_storage_init_def storage_init_def storage_engine_fields_def
  boot_messaging_init_def messaging_init_def messaging_engine_fields_def resolve_storage_def storage_resolve_def
  storage_inline_fields_def resolve_messaging_def messaging_resolve_def messaging_inline_fields_def
  setup_chain_stream_def setup_wallet_watch_def setup_wallet_registry_def finish_resolve_def
  extract_publisher_config_def publisher_fields_def adapt_messaging_def messaging_factory_defs

lemma demo_connections [simp]:
  "rstore_new (sd_redis (dv_storage demo_drivers) c) w = (None, w)"
  "rabbit_new (md_amqp (dv_messaging demo_drivers) d) uri w = (None, w)"
  by (simp_all add: demo_drivers_def redis_on_def amqp_on_def memory_redis_def memory_amqp_def rstore_new_def
      rabbit_new_def on_part_def)

text \<open>The result of \<^verbatim>\<open>New\<close> on an accepted configuration.\<close>

lemma bootstrap_result:
  assumes "config_load print process env = (c, None)"
  shows "\<exists>r s'. bootstrap_new D c s = Val (r, s') \<and>
    (case r of
       Inl err \<Rightarrow> connection_error err
     | Inr b \<Rightarrow>
         stream_wired D (cf_engines c) (cf_chainstream c) (bt_chainstream b) s' \<and>
         watch_wired D (cf_engines c) (cf_walletwatch c) (bt_walletwatch b) s' \<and>
         registry_wired D (cf_engines c) (cf_walletregistry c) (bt_walletregistry b) s' \<and>
         bt_blockproc b = bp_new (bt_chainstream b) (bt_walletwatch b))"
proof -
  let ?es = "cf_engines c"
  have "wf_config c" by (rule load_wf [OF assms])
  then have wf: "wf_storage_picker (en_storage ?es) (gcf_storage (cf_walletregistry c))"
    "wf_storage_picker (en_storage ?es) (wcf_storage (cf_walletwatch c))"
    "wf_messaging_picker (en_messaging ?es) (wcf_notifier (cf_walletwatch c))"
    "pred_option (wf_storage_picker (en_storage ?es)) (wcf_guard (cf_walletwatch c))"
    "pred_option (wf_storage_picker (en_storage ?es)) (scf_checkpoint (cf_chainstream c))"
    "pred_option (wf_messaging_picker (en_messaging ?es)) (scf_notifier (cf_chainstream c))"
    by (simp_all add: wf_config_def)
  show ?thesis
    unfolding bootstrap_new_def
    apply (rule boot_ok_def [THEN iffD1])
    apply (rule boot_ok_bind [OF boot_storage_init_ok])
    apply (rule boot_ok_bind [OF boot_messaging_init_ok], assumption)
    apply (rule boot_ok_bind [OF setup_chain_stream_ok [OF _ wf(5,6)]], assumption, elim conjE)
    apply (rule boot_ok_bind [OF setup_wallet_watch_ok [OF later_ready wf(2-4)]], assumption, elim conjE)
    apply (rule boot_ok_bind [OF setup_wallet_registry_ok [OF later_ready wf(1)]], assumption, elim conjE)
    apply (rule boot_ok_return)
    apply (auto intro: watch_wired_later stream_wired_later)
    done
qed

section \<open>Properties\<close>

text \<open>
  C15. A configuration that \<^verbatim>\<open>Load\<close> accepts boots. Whatever the state before and whatever the drivers do,
  \<^verbatim>\<open>New\<close> does not panic: no type assertion of a factory or an adapter fails, and no engine or publisher is
  missing. Its only errors are those of a connection that could not be opened. When it
  succeeds, every service is wired as the configuration says: each storage interface and each notifier
  is the one of the selected engine or of the inline configuration, with its stream or its exchange and routing key,
  the options not configured have their defaults, the networks have the clients of their endpoints, and every
  connection used is one that \<^verbatim>\<open>Close\<close> will close.
\<close>

theorem bootstrap_wired:
  assumes "config_load print process env = (c, None)"
  shows "\<exists>r s'. bootstrap_new D c s = Val (r, s') \<and>
    (case r of
       Inl err \<Rightarrow> connection_error err
     | Inr b \<Rightarrow>
         stream_wired D (cf_engines c) (cf_chainstream c) (bt_chainstream b) s' \<and>
         watch_wired D (cf_engines c) (cf_walletwatch c) (bt_walletwatch b) s' \<and>
         registry_wired D (cf_engines c) (cf_walletregistry c) (bt_walletregistry b) s' \<and>
         bt_blockproc b = bp_new (bt_chainstream b) (bt_walletwatch b))"
  using assms by (rule bootstrap_result)

text \<open>In memory, the demonstration configuration boots.\<close>

theorem bootstrap_wired_witness:
  "\<exists>b s'. bootstrap_new demo_drivers demo_config
       \<lparr>bo_storage = \<lparr>sts_defaults = [], sts_opened = []\<rparr>, bo_messaging = \<lparr>mst_defaults = [], mst_opened = []\<rparr>,
        bo_world = (mem_empty, broker_empty)\<rparr> = Val (Inr b, s') \<and>
     watch_wired demo_drivers (cf_engines demo_config) (cf_walletwatch demo_config) (bt_walletwatch b) s'"
proof -
  let ?s = "\<lparr>bo_storage = \<lparr>sts_defaults = [], sts_opened = []\<rparr>, bo_messaging = \<lparr>mst_defaults = [], mst_opened = []\<rparr>,
    bo_world = (mem_empty, broker_empty)\<rparr> :: (redis_memory \<times> broker) boot"
  have "config_load (\<lambda>_. undefined) (\<lambda>env :: unit. (demo_config, None)) () = (demo_config, None)"
    using check_config_ok [of demo_config] demo_config_wf by (simp add: config_load_def validate_config_def validate_def)
  note bootstrap_wired [OF this, of demo_drivers ?s]
  moreover have "\<exists>b s'. bootstrap_new demo_drivers demo_config ?s = Val (Inr b, s')"
    by (simp add: bootstrap_new_def boot_steps demo_config_def demo_picker_def demo_mpicker_def EngineRedis_def)
  ultimately show ?thesis by auto
qed

end
