(* ===== verification/Site.thy ===== *)
theory Site
  imports Bootstrap
begin

text \<open>
  An installation with one server of each kind: a PostgreSQL database, a Redis server for storage, an AMQP broker
  and a Redis server for streams. Every connection that \<^verbatim>\<open>bootstrap\<close> opens reaches its server; opening it may
  fail, and so may every command. On such a site, whatever the configuration picks for the wallets, for the claims and for
  the notifications, the \<^verbatim>\<open>walletwatch\<close> service has what \<open>notify_env\<close> asks for.
\<close>

section \<open>The servers\<close>

record ('r, 'm, 'x) site =
  at_pg :: pg
  at_redis :: 'r
  at_amqp :: 'm
  at_streams :: 'x

abbreviation put_pg :: "pg \<Rightarrow> ('r, 'm, 'x) site \<Rightarrow> ('r, 'm, 'x) site" where
  "put_pg d w \<equiv> w\<lparr>at_pg := d\<rparr>"

abbreviation put_redis :: "'r \<Rightarrow> ('r, 'm, 'x) site \<Rightarrow> ('r, 'm, 'x) site" where
  "put_redis d w \<equiv> w\<lparr>at_redis := d\<rparr>"

abbreviation put_amqp :: "'m \<Rightarrow> ('r, 'm, 'x) site \<Rightarrow> ('r, 'm, 'x) site" where
  "put_amqp d w \<equiv> w\<lparr>at_amqp := d\<rparr>"

abbreviation put_streams :: "'x \<Rightarrow> ('r, 'm, 'x) site \<Rightarrow> ('r, 'm, 'x) site" where
  "put_streams d w \<equiv> w\<lparr>at_streams := d\<rparr>"

lemma site_parts: "part at_pg put_pg" "part at_redis put_redis" "part at_amqp put_amqp" "part at_streams put_streams"
  by (simp_all add: part_def)

text \<open>The drivers of a site: what the repository calls, on the part of its server.\<close>

definition site_drivers :: "'r redis \<Rightarrow> 'm amqp \<Rightarrow> 'x streams \<Rightarrow> ('r, 'm, 'x) site drivers \<Rightarrow> bool" where
  "site_drivers R A X D \<longleftrightarrow>
     (\<forall>c. pp_get (sd_pool (dv_storage D) c) = at_pg \<and> pp_put (sd_pool (dv_storage D) c) = put_pg) \<and>
     (\<forall>c. sd_redis (dv_storage D) c = redis_on at_redis put_redis R) \<and>
     (\<forall>c. md_amqp (dv_messaging D) c = amqp_on at_amqp put_amqp A) \<and>
     (\<forall>c. md_streams (dv_messaging D) c = streams_on at_streams put_streams X)"

section \<open>Clients on a part\<close>

text \<open>An operation that only calls its server is the operation of that server on its part.\<close>

lemma redis_filter_on:
  "part get put \<Longrightarrow> redis_filter_watched_wallets (redis_on get put R) n as = on_part get put (redis_filter_watched_wallets R n as)"
  by (rule ext) (auto simp: redis_filter_watched_wallets_def redis_on_def on_part_def part_def split: prod.splits sum.splits)

lemma redis_claim_on:
  "part get put \<Longrightarrow> redis_claim (redis_on get put R) n h ttl = on_part get put (redis_claim R n h ttl)"
  by (rule ext)
     (auto simp: redis_claim_def redis_on_def on_part_def part_def Let_def split: prod.splits sum.splits if_splits)

lemma redis_mark_on: "redis_mark (redis_on get put R) n h = on_part get put (redis_mark R n h)"
  by (rule ext) (simp add: redis_mark_def redis_on_def on_part_def)

lemma rabbit_notify_on:
  "part get put \<Longrightarrow> tn_notify (rabbit_as_tx_notifier (amqp_on get put A) ex key) n a ts =
     on_part get put (tn_notify (rabbit_as_tx_notifier A ex key) n a ts)"
  by (rule ext)
     (auto simp: rabbit_as_tx_notifier_def rabbit_notify_transactions_def rabbit_publish_def amqp_on_def on_part_def
        part_def split: prod.splits)

lemma rmsg_notify_on:
  "tn_notify (rmsg_as_tx_notifier (streams_on get put X) stream) n a ts =
     on_part get put (tn_notify (rmsg_as_tx_notifier X stream) n a ts)"
  by (rule ext) (simp add: rmsg_as_tx_notifier_def rmsg_notify_transactions_def rmsg_txs_message_def streams_on_def on_part_def)

section \<open>What the configuration picks\<close>

definition on_redis :: "storage_picker \<Rightarrow> bool" where
  "on_redis p \<longleftrightarrow>
     sp_engine p = EngineRedis \<or> (sp_engine p \<noteq> EnginePostgreSQL \<and> si_redis (sp_inline p) \<noteq> None)"

definition watched_at ::
    "storage_picker \<Rightarrow> ('r \<Rightarrow> string \<Rightarrow> string set) \<Rightarrow> ('r, 'm, 'x) site \<Rightarrow> (string \<times> string) set" where
  "watched_at p mem_at w = (if on_redis p then redis_watched mem_at (at_redis w) else pg_watched (at_pg w))"

text \<open>PostgreSQL keeps networks in upper case, Redis as they are spelled.\<close>

definition norm_at :: "storage_picker \<Rightarrow> string \<Rightarrow> string" where
  "norm_at p = (if on_redis p then (\<lambda>n. n) else to_upper)"

text \<open>What the subscribers of the configured stream, or of the exchange and the routing key, read.\<close>

definition outbox_at ::
    "messaging_engines \<Rightarrow> messaging_picker \<Rightarrow> ('m \<Rightarrow> (string \<times> string \<times> publishing) list) \<Rightarrow>
     ('x \<Rightarrow> (string \<times> (string \<times> field_value) list) list) \<Rightarrow> ('r, 'm, 'x) site \<Rightarrow> notification list" where
  "outbox_at es p accepted entries w =
     (if mq_redis_cfg es p \<noteq> None
      then (case pb_redis (mk_publisher p) of
              None \<Rightarrow> [] | Some k \<Rightarrow> stream_inbox (rp_stream k) (entries (at_streams w)))
      else (case pb_rabbitmq (mk_publisher p) of
              None \<Rightarrow> [] | Some k \<Rightarrow> inbox (mp_exchange k) (mp_routingKey k) (accepted (at_amqp w))))"

lemma storage_for_site:
  assumes "site_drivers R A X D" and "storage_for D es s p st"
  shows "if on_redis p then st = redis_client (redis_on at_redis put_redis R)
         else \<exists>L. st = pg_client L \<and> pp_get L = at_pg \<and> pp_put L = put_pg"
  using assms
  by (auto simp: site_drivers_def storage_for_def storage_backend_def on_redis_def EngineRedis_def EnginePostgreSQL_def
      split: if_splits option.splits)

lemma notifier_for_site:
  assumes "site_drivers R A X D" and "messaging_for tx_notifier_of D es s p t"
  shows "if mq_redis_cfg (en_messaging es) p \<noteq> None
    then \<exists>k. pb_redis (mk_publisher p) = Some k \<and> t = rmsg_as_tx_notifier (streams_on at_streams put_streams X) (rp_stream k)
    else \<exists>k. pb_rabbitmq (mk_publisher p) = Some k \<and>
           t = rabbit_as_tx_notifier (amqp_on at_amqp put_amqp A) (mp_exchange k) (mp_routingKey k)"
  using assms by (auto simp: site_drivers_def messaging_for_def mq_backend_def split: option.splits)

section \<open>The service on a site\<close>

text \<open>A call that leaves the registered wallets alone, and one that sends nothing.\<close>

definition wallets_same :: "('r \<Rightarrow> string \<Rightarrow> string set) \<Rightarrow> ('r, 'm, 'x) site \<Rightarrow> ('r, 'm, 'x) site \<Rightarrow> bool" where
  "wallets_same mem_at w w' \<longleftrightarrow>
     pg_wallets (at_pg w') = pg_wallets (at_pg w) \<and>
     (\<forall>n. mem_at (at_redis w') (walletStorageKey n) = mem_at (at_redis w) (walletStorageKey n))"

definition out_same :: "('r, 'm, 'x) site \<Rightarrow> ('r, 'm, 'x) site \<Rightarrow> bool" where
  "out_same w w' \<longleftrightarrow> at_amqp w' = at_amqp w \<and> at_streams w' = at_streams w"

lemma wallets_same_watched:
  "wallets_same mem_at w w' \<Longrightarrow>
     watched_at p mem_at w' = watched_at p mem_at w \<and> pg_unique (at_pg w') = pg_unique (at_pg w)"
  by (simp add: wallets_same_def watched_at_def redis_watched_def pg_watched_def pg_unique_def)

lemma out_same_outbox: "out_same w w' \<Longrightarrow> outbox_at es p accepted entries w' = outbox_at es p accepted entries w"
  by (simp add: out_same_def outbox_at_def split: option.split)

locale site_servers = redis_server R str_at mem_at clock pass same stored + amqp_broker A accepted + stream_server X entries
  for R :: "'r redis" and str_at mem_at clock pass same stored
    and A :: "'m amqp" and accepted and X :: "'x streams" and entries
begin

lemma same_members: "same d d' \<Longrightarrow> mem_at d' = mem_at d"
  by (simp add: same)

lemma claim_members: "redis_claim R n h ttl d = (r, d') \<Longrightarrow> mem_at d' (walletStorageKey m) = mem_at d (walletStorageKey m)"
  using claim_effect [of n h ttl d r d'] redis_keys(4) [THEN not_sym] by (auto simp: same stored)

lemma mark_members: "redis_mark R n h d = (r, d') \<Longrightarrow> mem_at d' (walletStorageKey m) = mem_at d (walletStorageKey m)"
  using mark_effect [of n h d r d'] redis_keys(4) [THEN not_sym] by (auto simp: same stored)

lemma guard_frame:
  assumes "site_drivers R A X D" and "watch_wired D es c ww s"
  shows "ig_claim (wsv_guard ww) n h ttl w = (r, w') \<Longrightarrow> wallets_same mem_at w w' \<and> out_same w w'"
    and "ig_mark (wsv_guard ww) n h w = (r, w') \<Longrightarrow> wallets_same mem_at w w' \<and> out_same w w'"
proof -
  have "wsv_guard ww = nop_guard \<or> wsv_guard ww = redis_guard (redis_on at_redis put_redis R) \<or>
      (\<exists>L. wsv_guard ww = stc_guard (pg_client L) \<and> pp_get L = at_pg \<and> pp_put L = put_pg)"
    using assms(2) storage_for_site [OF assms(1)]
    by (force simp: watch_wired_def redis_client_def split: option.splits if_splits)
  note which = this
  have pg: "pg_wallets d' = pg_wallets d" if "pg_claim n h ttl d = (r, d') \<or> pg_mark n h d = (r, d')" for d d'
    using that pg_claim_wallets [of n h ttl d] pg_mark_wallets [of n h d] by auto
  from which show "ig_claim (wsv_guard ww) n h ttl w = (r, w') \<Longrightarrow> wallets_same mem_at w w' \<and> out_same w w'"
    using pg claim_members [of n h ttl "at_redis w" r]
    by (auto simp: nop_guard_def nop_claim_def redis_guard_def redis_claim_on [OF site_parts(2)] pg_client_def in_pool_def
        on_part_iff wallets_same_def out_same_def)
  from which show "ig_mark (wsv_guard ww) n h w = (r, w') \<Longrightarrow> wallets_same mem_at w w' \<and> out_same w w'"
    using pg mark_members [of n h "at_redis w" r]
    by (auto simp: nop_guard_def nop_mark_def redis_guard_def redis_mark_on pg_client_def in_pool_def
        on_part_iff wallets_same_def out_same_def)
qed

lemma filter_site:
  assumes "site_drivers R A X D" and "watch_wired D es c ww s"
    and "ws_filter (wsv_storage ww) n addrs w = (f, w')"
  shows "out_same w w'"
    and "pg_unique (at_pg w) \<Longrightarrow> pg_unique (at_pg w') \<and>
      watched_at (wcf_storage c) mem_at w' = watched_at (wcf_storage c) mem_at w"
    and "pg_unique (at_pg w) \<Longrightarrow> f = Inr hits \<Longrightarrow> distinct addrs \<Longrightarrow>
      distinct hits \<and> set hits = {a \<in> set addrs. (norm_at (wcf_storage c) n, a) \<in> watched_at (wcf_storage c) mem_at w}"
proof -
  obtain st where st: "storage_for D es s (wcf_storage c) st" "wsv_storage ww = stc_watch st"
    using assms(2) by (auto simp: watch_wired_def)
  note which = storage_for_site [OF assms(1) st(1)]
  note ops = redis_client_def redis_watch_def redis_filter_on [OF site_parts(2)] pg_client_def in_pool_def on_part_iff
  show "out_same w w'" using which assms(3) by (auto simp: st(2) ops out_same_def split: if_splits)
  show "pg_unique (at_pg w) \<Longrightarrow> pg_unique (at_pg w') \<and>
      watched_at (wcf_storage c) mem_at w' = watched_at (wcf_storage c) mem_at w"
    using which assms(3) pg_ws.filter_frame [of "at_pg w" n addrs f] ws.filter_frame [where w = "at_redis w" and n = n and addrs = addrs and f = f]
    by (auto simp: st(2) ops pg_watch_def watched_at_def split: if_splits)
  show "pg_unique (at_pg w) \<Longrightarrow> f = Inr hits \<Longrightarrow> distinct addrs \<Longrightarrow>
      distinct hits \<and> set hits = {a \<in> set addrs. (norm_at (wcf_storage c) n, a) \<in> watched_at (wcf_storage c) mem_at w}"
    using which assms(3) pg_ws.filter_ok [of "at_pg w" n addrs hits] ws.filter_ok [where w = "at_redis w" and n = n and addrs = addrs and hits = hits]
    by (auto simp: st(2) ops pg_watch_def watched_at_def norm_at_def split: if_splits)
qed

end

context site_servers
begin

lemma notifier_site:
  assumes "site_drivers R A X D" and "watch_wired D es c ww s"
    and "tn_notify (wsv_notifier ww) n a ts w = (r, w')"
  shows "wallets_same mem_at w w'"
    and "r = None \<Longrightarrow> outbox_at (en_messaging es) (wcf_notifier c) accepted entries w' =
      outbox_at (en_messaging es) (wcf_notifier c) accepted entries w @ [(n, a, ts)]"
    and "r = Some e \<Longrightarrow> outbox_at (en_messaging es) (wcf_notifier c) accepted entries w' =
        outbox_at (en_messaging es) (wcf_notifier c) accepted entries w \<or>
      outbox_at (en_messaging es) (wcf_notifier c) accepted entries w' =
        outbox_at (en_messaging es) (wcf_notifier c) accepted entries w @ [(n, a, ts)]"
proof -
  let ?p = "wcf_notifier c"
  let ?out = "outbox_at (en_messaging es) ?p accepted entries"
  have wired: "messaging_for tx_notifier_of D es s ?p (wsv_notifier ww)"
    using assms(2) by (simp add: watch_wired_def)
  have "wallets_same mem_at w w' \<and> (r = None \<longrightarrow> ?out w' = ?out w @ [(n, a, ts)]) \<and>
      (\<forall>e. r = Some e \<longrightarrow> ?out w' = ?out w \<or> ?out w' = ?out w @ [(n, a, ts)])"
  proof (cases "mq_redis_cfg (en_messaging es) ?p = None")
    case False
    with notifier_for_site [OF assms(1) wired] obtain k where k: "pb_redis (mk_publisher ?p) = Some k"
      "wsv_notifier ww = rmsg_as_tx_notifier (streams_on at_streams put_streams X) (rp_stream k)" by auto
    with assms(3) obtain x where x: "tn_notify (rmsg_as_tx_notifier X (rp_stream k)) n a ts (at_streams w) = (r, x)"
      "w' = put_streams x w"
      by (auto simp: rmsg_notify_on on_part_iff)
    from x(1) obtain vs where "sx_xadd X (rp_stream k) ''*'' vs (at_streams w) = (r, x)"
      "stream_inbox (rp_stream k) [(rp_stream k, vs)] = [(n, a, ts)]" by (rule rmsg_publishes)
    with xadd_ok xadd_err k(1) False x(2) show ?thesis
      by (cases r) (fastforce simp: outbox_at_def wallets_same_def)+
  next
    case True
    with notifier_for_site [OF assms(1) wired] obtain k where k: "pb_rabbitmq (mk_publisher ?p) = Some k"
      "wsv_notifier ww = rabbit_as_tx_notifier (amqp_on at_amqp put_amqp A) (mp_exchange k) (mp_routingKey k)" by auto
    with assms(3) obtain m where m: "w' = put_amqp m w"
      "tn_notify (rabbit_as_tx_notifier A (mp_exchange k) (mp_routingKey k)) n a ts (at_amqp w) = (r, m)"
      by (auto simp: rabbit_notify_on [OF site_parts(3)] on_part_iff)
    from m(2) obtain u m1 p where p: "am_uuid A (at_amqp w) = (u, m1)"
      "am_publish A (mp_exchange k) (mp_routingKey k) False False p m1 = (r, m)"
      "pb_body p = marshal_txs (make_txs_message n a ts)" by (rule rabbit_publishes)
    then have "accepted m1 = accepted (at_amqp w)"
      "inbox (mp_exchange k) (mp_routingKey k) [(mp_exchange k, mp_routingKey k, p)] = [(n, a, ts)]"
      by (auto dest: uuid_silent simp: read_published)
    with p(2) publish_ok publish_err k(1) True m(1) show ?thesis
      by (cases r) (fastforce simp: outbox_at_def wallets_same_def)+
  qed
  then show "wallets_same mem_at w w'" and "r = None \<Longrightarrow> ?out w' = ?out w @ [(n, a, ts)]"
    and "r = Some e \<Longrightarrow> ?out w' = ?out w \<or> ?out w' = ?out w @ [(n, a, ts)]" by auto
qed

text \<open>So the service that was wired has what \<open>notify_env\<close> asks for.\<close>

lemma wired_env:
  assumes D: "site_drivers R A X D" and ww: "watch_wired D es c ww s"
  shows "notify_env (wsv_storage ww) (watched_at (wcf_storage c) mem_at) (norm_at (wcf_storage c))
    (\<lambda>w. pg_unique (at_pg w)) ww (outbox_at (en_messaging es) (wcf_notifier c) accepted entries)"
proof
  fix w n addrs f w'
  assume "pg_unique (at_pg w)" "ws_filter (wsv_storage ww) n addrs w = (f, w')"
  then show "pg_unique (at_pg w') \<and> watched_at (wcf_storage c) mem_at w' = watched_at (wcf_storage c) mem_at w"
    using filter_site(2) [OF D ww] by blast
next
  fix w n addrs hits w'
  assume "pg_unique (at_pg w)" "ws_filter (wsv_storage ww) n addrs w = (Inr hits, w')" "distinct addrs"
  then show "distinct hits \<and>
      set hits = {a \<in> set addrs. (norm_at (wcf_storage c) n, a) \<in> watched_at (wcf_storage c) mem_at w}"
    using filter_site(3) [OF D ww] by blast
next
  fix w n addrs f w'
  assume "ws_filter (wsv_storage ww) n addrs w = (f, w')"
  then show "outbox_at (en_messaging es) (wcf_notifier c) accepted entries w' =
      outbox_at (en_messaging es) (wcf_notifier c) accepted entries w"
    using filter_site(1) [OF D ww] by (intro out_same_outbox)
next
  fix w n h d r w'
  assume "pg_unique (at_pg w)" "ig_claim (wsv_guard ww) n h d w = (r, w')"
  then show "pg_unique (at_pg w') \<and> watched_at (wcf_storage c) mem_at w' = watched_at (wcf_storage c) mem_at w \<and>
      outbox_at (en_messaging es) (wcf_notifier c) accepted entries w' =
      outbox_at (en_messaging es) (wcf_notifier c) accepted entries w"
    using guard_frame(1) [OF D ww] wallets_same_watched out_same_outbox by metis
next
  fix w n h r w'
  assume "pg_unique (at_pg w)" "ig_mark (wsv_guard ww) n h w = (r, w')"
  then show "pg_unique (at_pg w') \<and> watched_at (wcf_storage c) mem_at w' = watched_at (wcf_storage c) mem_at w \<and>
      outbox_at (en_messaging es) (wcf_notifier c) accepted entries w' =
      outbox_at (en_messaging es) (wcf_notifier c) accepted entries w"
    using guard_frame(2) [OF D ww] wallets_same_watched out_same_outbox by metis
next
  fix w n a ts r w'
  assume "pg_unique (at_pg w)" "tn_notify (wsv_notifier ww) n a ts w = (r, w')"
  then show "pg_unique (at_pg w') \<and> watched_at (wcf_storage c) mem_at w' = watched_at (wcf_storage c) mem_at w"
    using notifier_site(1) [OF D ww] wallets_same_watched by metis
qed (use notifier_site(2,3) [OF D ww] in \<open>blast+\<close>)

end

end
