(* ===== verification/Deployment.thy ===== *)
theory Deployment
  imports Site
begin

text \<open>
  From the environment to the messages: an environment is loaded, \<^verbatim>\<open>bootstrap.New\<close> builds the services
  on the servers of a site, and \<^verbatim>\<open>walletwatch\<close> notifies. The selection of the backends is that of the configuration.
\<close>

section \<open>A site in memory\<close>

record stream_memory =
  sm_entries :: "(string \<times> (string \<times> field_value) list) list"
  sm_fates :: "fate list"

definition memory_xadd ::
    "string \<Rightarrow> string \<Rightarrow> (string \<times> field_value) list \<Rightarrow> stream_memory \<Rightarrow> gerr option \<times> stream_memory" where
  "memory_xadd stream entry_id vs x =
     (let yes = x\<lparr>sm_entries := sm_entries x @ [(stream, vs)], sm_fates := tl (sm_fates x)\<rparr> in
      case sm_fates x of
        Fails e # _ \<Rightarrow> (Some (ErrExternal e), x\<lparr>sm_fates := tl (sm_fates x)\<rparr>)
      | LosesReply e # _ \<Rightarrow> (Some (ErrExternal e), yes)
      | _ \<Rightarrow> (None, yes))"

definition memory_streams :: "stream_memory streams" where
  "memory_streams = \<lparr>sx_ping = Pair None, sx_xadd = memory_xadd, sx_close = Pair None\<rparr>"

interpretation sm: stream_server memory_streams sm_entries
  by unfold_locales (auto simp: memory_streams_def memory_xadd_def Let_def split: list.splits fate.splits)

interpretation demo_site: site_servers memory_redis rm_strings rm_sets rm_clock mem_pass mem_same mem_stored
  memory_amqp bk_accepted memory_streams sm_entries
  by unfold_locales

type_synonym memory_site = "(redis_memory, broker, stream_memory) site"

definition deploy_drivers :: "memory_site drivers" where
  "deploy_drivers =
     \<lparr>dv_storage = \<lparr>sd_redis = (\<lambda>_. redis_on at_redis put_redis memory_redis),
        sd_pool = (\<lambda>_. \<lparr>pp_new = Pair None, pp_get = at_pg, pp_put = put_pg, pp_close = (\<lambda>w. w)\<rparr>)\<rparr>,
      dv_messaging = \<lparr>md_streams = (\<lambda>_. streams_on at_streams put_streams memory_streams),
        md_amqp = (\<lambda>_. amqp_on at_amqp put_amqp memory_amqp), md_text = (\<lambda>_. ''error'')\<rparr>,
      dv_http = (\<lambda>_ _ _. Pair (Inl (ErrExternal ''down''))), dv_uuid = Pair ''1'', dv_do = (\<lambda>_ op w. (DoNil, snd (op w)))\<rparr>"

lemma deploy_site: "site_drivers memory_redis memory_amqp memory_streams deploy_drivers"
  by (simp add: site_drivers_def deploy_drivers_def)

text \<open>Wallets on the Redis engine, claims on the PostgreSQL engine, notifications on a stream of the Redis engine.\<close>

definition deploy_config :: config where
  "deploy_config =
     (let inline = \<lparr>si_redis = None, si_postgresql = None\<rparr>;
          rd = \<lparr>sp_engine = EngineRedis, sp_inline = inline\<rparr>;
          pg = \<lparr>sp_engine = EnginePostgreSQL, sp_inline = inline\<rparr>;
          mq = \<lparr>mk_engine = EngineRedis, mk_inline = \<lparr>mi_redis = None, mi_rabbitmq = None\<rparr>,
            mk_publisher = \<lparr>pb_redis = Some \<lparr>rp_stream = ''tx''\<rparr>, pb_rabbitmq = None\<rparr>\<rparr> in
      demo_config
        \<lparr>cf_engines := (cf_engines demo_config)
           \<lparr>en_storage := (en_storage (cf_engines demo_config))\<lparr>se_postgresql := Some \<lparr>pcf_dsn = ''pg://db''\<rparr>\<rparr>,
            en_messaging := \<lparr>me_redis = se_redis (en_storage (cf_engines demo_config)), me_rabbitmq = None\<rparr>\<rparr>,
         cf_walletregistry := \<lparr>gcf_storage = rd\<rparr>,
         cf_walletwatch := \<lparr>wcf_maxProcessingTime = 60, wcf_guard = Some pg, wcf_storage = rd, wcf_notifier = mq\<rparr>,
         cf_chainstream := (cf_chainstream demo_config)\<lparr>scf_checkpoint := Some pg\<rparr>\<rparr>)"

definition deploy_world :: memory_site where
  "deploy_world =
     \<lparr>at_pg = pg_empty,
      at_redis = mem_empty\<lparr>rm_sets := (\<lambda>_. {})(walletStorageKey ''ETH'' := {''0xa'', ''0xc''})\<rparr>,
      at_amqp = broker_empty, at_streams = \<lparr>sm_entries = [], sm_fates = []\<rparr>\<rparr>"

definition deploy_boot :: "memory_site boot" where
  "deploy_boot =
     \<lparr>bo_storage = \<lparr>sts_defaults = [], sts_opened = []\<rparr>, bo_messaging = \<lparr>mst_defaults = [], mst_opened = []\<rparr>,
      bo_world = deploy_world\<rparr>"

lemma deploy_connections [simp]:
  "pg_new (sd_pool (dv_storage deploy_drivers) c) w = (None, w)"
  "rstore_new (sd_redis (dv_storage deploy_drivers) d) w = (None, w)"
  "rmsg_new (md_streams (dv_messaging deploy_drivers) d) w = (None, w)"
  by (simp_all add: deploy_drivers_def redis_on_def memory_redis_def streams_on_def memory_streams_def pg_new_def
      rstore_new_def rmsg_new_def on_part_def)

lemma deploy_config_wf: "wf_config deploy_config"
  by (simp add: wf_config_def deploy_config_def demo_config_def wf_engines_def wf_jsonrpc_def http_cfg_zero_def
      networks_zero_def wf_storage_simps wf_messaging_simps tag_defs demo_redis_def Let_def)

lemma deploy_load: "config_load (\<lambda>_. undefined) (\<lambda>env :: unit. (deploy_config, None)) () = (deploy_config, None)"
  using check_config_ok [of deploy_config] deploy_config_wf
  by (simp add: config_load_def validate_config_def validate_def)

lemma deploy_boots: "\<exists>b s'. bootstrap_new deploy_drivers deploy_config deploy_boot = Val (Inr b, s')"
  by (simp add: bootstrap_new_def boot_steps deploy_config_def deploy_boot_def demo_config_def EnginePostgreSQL_def
      EngineRedis_def Let_def)

section \<open>Property\<close>



end
