(* ===== verification/Workers.thy ===== *)
theory Workers
  imports Idempotency
begin

text \<open>
  Many calls of \<^verbatim>\<open>NotifyWatchedTransactions\<close> at once, in one process or in several that share their storage: the
  call as a machine whose steps are its calls to the outside, and runs that interleave any number of such machines
  with each other and with time. A process that dies is a machine that takes no further step.
\<close>

section \<open>One call, step by step\<close>

text \<open>Before the claim, before the matching, in the loop over the wallets that are left, before the completion.\<close>

datatype worker_pc =
    WClaim
  | WMatch
  | WNotify "(string \<times> ww_transaction list) list"
  | WMark
  | WReturned "gerr option"

fun worker_step :: "iter_orders \<Rightarrow> 'w ww_service \<Rightarrow> ww_block \<Rightarrow> worker_pc \<Rightarrow> 'w \<Rightarrow> worker_pc \<times> 'w" where
  "worker_step ord s b WClaim w =
     (case ig_claim (wsv_guard s) (wb_network b) (wb_hash b) (wsv_maxProcessingTime s) w of
        (Some err, w') \<Rightarrow> (WReturned (Some err), w')
      | (None, w') \<Rightarrow> (WMatch, w'))"
| "worker_step ord s b WMatch w =
     (case get_transactions_by_wallet ord (wsv_storage s) (wb_network b) (wb_transactions b) w of
        (Inl err, w') \<Rightarrow> (WReturned (Some err), w')
      | (Inr matching, w') \<Rightarrow> (WNotify (io_wallets ord matching), w'))"
| "worker_step ord s b (WNotify []) w = (WMark, w)"
| "worker_step ord s b (WNotify ((wallet, txs) # rest)) w =
     (case tn_notify (wsv_notifier s) (wb_network b) wallet txs w of
        (Some err, w') \<Rightarrow> (WReturned (Some err), w')
      | (None, w') \<Rightarrow> (WNotify rest, w'))"
| "worker_step ord s b WMark w =
     (case ig_mark (wsv_guard s) (wb_network b) (wb_hash b) w of (err, w') \<Rightarrow> (WReturned None, w'))"
| "worker_step ord s b (WReturned r) w = (WReturned r, w)"

definition worker_steps ::
    "iter_orders \<Rightarrow> 'w ww_service \<Rightarrow> ww_block \<Rightarrow> nat \<Rightarrow> worker_pc \<times> 'w \<Rightarrow> worker_pc \<times> 'w" where
  "worker_steps ord s b n = ((\<lambda>(pc, w). worker_step ord s b pc w) ^^ n)"

lemma worker_steps_simps [simp]:
  "worker_steps ord s b 0 c = c"
  "worker_steps ord s b (Suc n) (pc, w) = worker_steps ord s b n (worker_step ord s b pc w)"
  by (simp_all add: worker_steps_def funpow_Suc_right del: funpow.simps(2))

lemma worker_notifies:
  "worker_steps ord s b (Suc (length ms)) (WNotify ms, w) =
     (case notify_wallets (wsv_notifier s) (wb_network b) ms w of
        (Some err, w') \<Rightarrow> (WReturned (Some err), w')
      | (None, w') \<Rightarrow> (WMark, w'))"
proof (induction ms arbitrary: w)
  case (Cons m ms)
  have stays: "worker_steps ord s b n (WReturned r, w') = (WReturned r, w')" for n r w'
    by (induction n) simp_all
  obtain a ts where "m = (a, ts)" by (cases m)
  with Cons stays [of "Suc (length ms)"] show ?case
    by (simp add: split_beta del: worker_steps_simps(2) split: option.split)
       (simp add: split_beta split: option.split)
qed simp

lemma worker_steps_add: "worker_steps ord s b (m + n) c = worker_steps ord s b n (worker_steps ord s b m c)"
  by (simp add: worker_steps_def funpow_add add.commute [of m] del: funpow.simps)

text \<open>A call that is left alone does what the function of its theory does.\<close>

lemma worker_alone:
  assumes "notify_watched_transactions ord s b w = (r, w')"
  shows "\<exists>n. worker_steps ord s b n (WClaim, w) = (WReturned r, w')"
proof -
  note defs = notify_watched_transactions_def notify_watched_wallet_transactions_def
  obtain c w1 where c: "ig_claim (wsv_guard s) (wb_network b) (wb_hash b) (wsv_maxProcessingTime s) w = (c, w1)"
    by (metis surj_pair)
  obtain g w2 where g: "get_transactions_by_wallet ord (wsv_storage s) (wb_network b) (wb_transactions b) w1 = (g, w2)"
    by (metis surj_pair)
  show ?thesis
  proof (cases "\<exists>m. c = None \<and> g = Inr m")
    case False
    have "worker_steps ord s b (if c = None then 2 else 1) (WClaim, w) = (WReturned r, w')"
      using False assms c g by (cases c; cases g) (auto simp: defs numeral_2_eq_2)
    then show ?thesis by blast
  next
    case True
    then obtain m where m: "c = None" "g = Inr m" by blast
    let ?ms = "io_wallets ord m"
    obtain x w3 where x: "notify_wallets (wsv_notifier s) (wb_network b) ?ms w2 = (x, w3)" by (metis surj_pair)
    have "worker_steps ord s b 2 (WClaim, w) = (WNotify ?ms, w2)" using m c g by (simp add: numeral_2_eq_2)
    then have *: "worker_steps ord s b (2 + Suc (length ?ms)) (WClaim, w) =
        (case x of Some err \<Rightarrow> (WReturned (Some err), w3) | None \<Rightarrow> (WMark, w3))"
      unfolding worker_steps_add worker_notifies using x by (simp add: worker_notifies del: worker_steps_simps)
    have "worker_steps ord s b (2 + Suc (length ?ms) + (if x = None then 1 else 0)) (WClaim, w) = (WReturned r, w')"
      unfolding worker_steps_add [of ord s b "2 + Suc (length ?ms)"] *
      using assms m c g x by (cases x) (auto simp: defs split: prod.splits)
    then show ?thesis by blast
  qed
qed

section \<open>Runs of many calls\<close>

record 'w call =
  cl_service :: "'w ww_service"
  cl_block :: ww_block
  cl_pc :: worker_pc

definition new_call :: "'w ww_service \<Rightarrow> ww_block \<Rightarrow> 'w call" where
  "new_call s b = \<lparr>cl_service = s, cl_block = b, cl_pc = WClaim\<rparr>"

type_synonym block_id = "string \<times> string"

text \<open>
  What is observed of a run: a call has claimed its block, with the time and the duration; it calls the notifier for a
  wallet, whatever comes of it; it has completed the block.
\<close>

datatype fleet_event =
    Began nat block_id int int
  | Told nat block_id string int
  | Finished nat block_id int

fun caller :: "fleet_event \<Rightarrow> nat" where
  "caller (Began i k t d) = i"
| "caller (Told i k a t) = i"
| "caller (Finished i k t) = i"

fun moment :: "fleet_event \<Rightarrow> int" where
  "moment (Began i k t d) = t"
| "moment (Told i k a t) = t"
| "moment (Finished i k t) = t"

definition block_id :: "ww_block \<Rightarrow> block_id" where
  "block_id b = (wb_network b, wb_hash b)"

definition call_events :: "nat \<Rightarrow> 'w call \<Rightarrow> int \<Rightarrow> 'w \<Rightarrow> fleet_event list" where
  "call_events i c t w =
     (let s = cl_service c; b = cl_block c in
      case cl_pc c of
        WClaim \<Rightarrow>
          if fst (ig_claim (wsv_guard s) (wb_network b) (wb_hash b) (wsv_maxProcessingTime s) w) = None
          then [Began i (block_id b) t (wsv_maxProcessingTime s)] else []
      | WNotify ((wallet, txs) # rest) \<Rightarrow> [Told i (block_id b) wallet t]
      | WMark \<Rightarrow>
          if fst (ig_mark (wsv_guard s) (wb_network b) (wb_hash b) w) = None then [Finished i (block_id b) t] else []
      | _ \<Rightarrow> [])"

type_synonym 'w fleet = "nat \<Rightarrow> 'w call option"

text \<open>
  Calls of the services \<open>S\<close> start at any moment, under numbers not used before; steps of calls and whatever \<open>calm\<close>
  allows to happen outside are interleaved at will.
\<close>

inductive fleet_run ::
    "'w ww_service set \<Rightarrow> ('w \<Rightarrow> 'w \<Rightarrow> bool) \<Rightarrow> ('w \<Rightarrow> int) \<Rightarrow> 'w \<Rightarrow> 'w fleet \<Rightarrow> fleet_event list \<Rightarrow> 'w \<Rightarrow> bool"
  for S calm now w0 where
  start: "fleet_run S calm now w0 (\<lambda>_. None) [] w0"
| call: "fleet_run S calm now w0 fl evs w \<Longrightarrow> fl i = None \<Longrightarrow> s \<in> S \<Longrightarrow>
    fleet_run S calm now w0 (fl(i \<mapsto> new_call s b)) evs w"
| step: "fleet_run S calm now w0 fl evs w \<Longrightarrow> fl i = Some c \<Longrightarrow> fair_orders ord \<Longrightarrow>
    worker_step ord (cl_service c) (cl_block c) (cl_pc c) w = (pc, w') \<Longrightarrow>
    fleet_run S calm now w0 (fl(i \<mapsto> c\<lparr>cl_pc := pc\<rparr>)) (evs @ call_events i c (now w) w) w'"
| outside: "fleet_run S calm now w0 fl evs w \<Longrightarrow> calm w w' \<Longrightarrow> fleet_run S calm now w0 fl evs w'"

section \<open>The life of a call\<close>

definition own :: "nat \<Rightarrow> fleet_event list \<Rightarrow> fleet_event list" where
  "own i evs = filter (\<lambda>e. caller e = i) evs"

lemma own_simps [simp]: "own i [] = []" "own i (evs @ evs') = own i evs @ own i evs'"
  by (simp_all add: own_def)

lemma own_call_events [simp]: "own j (call_events i c t w) = (if i = j then call_events i c t w else [])"
  by (auto simp: own_def call_events_def Let_def split: worker_pc.split list.split)

text \<open>A claim, then tellings of distinct wallets, none of them of those in \<open>left\<close>.\<close>

definition telling :: "nat \<Rightarrow> 'w call \<Rightarrow> string list \<Rightarrow> fleet_event list \<Rightarrow> bool" where
  "telling i c left es \<longleftrightarrow>
     (\<exists>t ats. es = Began i (block_id (cl_block c)) t (wsv_maxProcessingTime (cl_service c)) #
          map (\<lambda>(a, u). Told i (block_id (cl_block c)) a u) ats \<and> distinct (map fst ats @ left))"

fun lived :: "nat \<Rightarrow> 'w call \<Rightarrow> worker_pc \<Rightarrow> fleet_event list \<Rightarrow> bool" where
  "lived i c WClaim es \<longleftrightarrow> es = []"
| "lived i c WMatch es \<longleftrightarrow> (\<exists>t. es = [Began i (block_id (cl_block c)) t (wsv_maxProcessingTime (cl_service c))])"
| "lived i c (WNotify rest) es \<longleftrightarrow> telling i c (map fst rest) es"
| "lived i c WMark es \<longleftrightarrow> telling i c [] es"
| "lived i c (WReturned r) es \<longleftrightarrow>
     es = [] \<or> telling i c [] es \<or> (\<exists>es' t. telling i c [] es' \<and> es = es' @ [Finished i (block_id (cl_block c)) t])"

lemma telling_begins:
  "distinct left \<Longrightarrow>
     telling i c left [Began i (block_id (cl_block c)) t (wsv_maxProcessingTime (cl_service c))]"
  unfolding telling_def by (rule exI [of _ t], rule exI [of _ "[]"]) simp

lemma telling_next:
  assumes "telling i c (a # left) es"
  shows "telling i c left (es @ [Told i (block_id (cl_block c)) a t])"
proof -
  from assms obtain u ats where
    "es = Began i (block_id (cl_block c)) u (wsv_maxProcessingTime (cl_service c)) #
       map (\<lambda>(a, u). Told i (block_id (cl_block c)) a u) ats" "distinct (map fst ats @ a # left)"
    by (auto simp: telling_def)
  then show ?thesis unfolding telling_def by (intro exI [of _ u] exI [of _ "ats @ [(a, t)]"]) auto
qed

lemma telling_fewer: "telling i c left es \<Longrightarrow> telling i c [] es"
  by (auto simp: telling_def)

lemma matching_distinct:
  assumes "get_transactions_by_wallet ord storage n txs w = (Inr m, w')" and "fair_orders ord"
  shows "distinct (map fst (io_wallets ord m))"
proof -
  from assms obtain addrs watched where "distinct (map fst m)" by (rule get_transactions_spec)
  with assms(2) show ?thesis
    unfolding fair_orders_def by (metis mset_eq_imp_distinct_iff mset_map permuting_mset)
qed

lemma lived_step:
  assumes "lived i c (cl_pc c) es" and "fair_orders ord"
    and "worker_step ord (cl_service c) (cl_block c) (cl_pc c) w = (pc, w')"
  shows "lived i c pc (es @ call_events i c t w)"
proof -
  let ?s = "cl_service c" and ?b = "cl_block c"
  note ev = call_events_def Let_def
  show ?thesis
  proof (cases "cl_pc c")
    case WClaim
    with assms show ?thesis by (auto simp: ev split: prod.splits option.splits)
  next
    case WMatch
    note m = this
    obtain g w1 where g: "get_transactions_by_wallet ord (wsv_storage ?s) (wb_network ?b) (wb_transactions ?b) w = (g, w1)"
      by (metis surj_pair)
    show ?thesis
    proof (cases g)
      case (Inl e)
      with assms g m show ?thesis by (auto simp: ev telling_begins)
    next
      case (Inr ms)
      with assms g m matching_distinct [of ord "wsv_storage ?s"] show ?thesis
        by (auto simp: ev telling_begins)
    qed
  next
    case (WNotify rest)
    show ?thesis
    proof (cases rest)
      case (Cons m rest')
      with WNotify assms(1) have "telling i c (fst m # map fst rest') es" by simp
      from telling_next [OF this, of t] telling_fewer [OF telling_next [OF this, of t]] WNotify Cons assms(3)
      show ?thesis by (cases m) (auto simp: ev split: prod.splits option.splits)
    qed (use WNotify assms in \<open>simp add: ev\<close>)
  next
    case WMark
    with assms show ?thesis by (auto simp: ev split: prod.splits)
  next
    case (WReturned r)
    then have "call_events i c t w = []" by (simp add: ev)
    moreover have "pc = cl_pc c" using assms(3) WReturned by simp
    ultimately show ?thesis using assms(1) by simp
  qed
qed

definition lives :: "'w fleet \<Rightarrow> fleet_event list \<Rightarrow> bool" where
  "lives fl evs \<longleftrightarrow> (\<forall>i. case fl i of None \<Rightarrow> own i evs = [] | Some c \<Rightarrow> lived i c (cl_pc c) (own i evs))"

lemma lived_pc [simp]: "lived i (c\<lparr>cl_pc := q\<rparr>) pc es = lived i c pc es"
  by (cases pc) (simp_all add: telling_def)

lemma fleet_lives: "fleet_run S calm now w0 fl evs w \<Longrightarrow> lives fl evs"
proof (induction rule: fleet_run.induct)
  case (step fl evs w i c ord pc w')
  then have each: "case fl j of None \<Rightarrow> own j evs = [] | Some c \<Rightarrow> lived j c (cl_pc c) (own j evs)" for j
    by (simp add: lives_def)
  from each [of i] step.hyps(2) have "lived i c (cl_pc c) (own i evs)" by simp
  from lived_step [OF this step.hyps(3,4)] each show ?case by (simp add: lives_def cong: option.case_cong)
next
  case (call fl evs w i s b)
  from call.IH have "case fl i of None \<Rightarrow> own i evs = [] | Some c \<Rightarrow> lived i c (cl_pc c) (own i evs)" by (simp add: lives_def)
  with call.hyps(2) have "own i evs = []" by simp
  with call.IH show ?case by (simp add: lives_def new_call_def cong: option.case_cong)
qed (auto simp: lives_def)

text \<open>The order of the events of one call.\<close>

fun in_order :: "fleet_event \<Rightarrow> fleet_event \<Rightarrow> bool" where
  "in_order (Began i k t d) (Told j k' a t') = (k = k')"
| "in_order (Began i k t d) (Finished j k' t') = (k = k')"
| "in_order (Told i k a t) (Told j k' a' t') = (k = k' \<and> a \<noteq> a')"
| "in_order (Told i k a t) (Finished j k' t') = (k = k')"
| "in_order _ _ = False"

fun about :: "fleet_event \<Rightarrow> block_id" where
  "about (Began i k t d) = k"
| "about (Told i k a t) = k"
| "about (Finished i k t) = k"

lemma telling_order:
  assumes "telling i c left es"
  shows "sorted_wrt in_order es" and "sorted_wrt in_order (es @ [Finished i (block_id (cl_block c)) t])"
    and "\<exists>t d. Began i (block_id (cl_block c)) t d \<in> set es" and "e \<in> set es \<Longrightarrow> about e = block_id (cl_block c)"
proof -
  obtain u ats where es: "es = Began i (block_id (cl_block c)) u (wsv_maxProcessingTime (cl_service c)) #
       map (\<lambda>(a, u). Told i (block_id (cl_block c)) a u) ats" "distinct (map fst ats)"
    using assms by (auto simp: telling_def)
  have "sorted_wrt in_order (map (\<lambda>(a, u). Told i (block_id (cl_block c)) a u) ats)"
    using es(2) by (induction ats) force+
  then show "sorted_wrt in_order es" "sorted_wrt in_order (es @ [Finished i (block_id (cl_block c)) t])"
    unfolding es by (auto simp: sorted_wrt_append)
  show "\<exists>t d. Began i (block_id (cl_block c)) t d \<in> set es" and "e \<in> set es \<Longrightarrow> about e = block_id (cl_block c)"
    unfolding es by auto
qed

lemma lived_shape:
  assumes "lived i c pc es"
  shows "es = [] \<or> telling i c [] es \<or> (\<exists>es' t. telling i c [] es' \<and> es = es' @ [Finished i (block_id (cl_block c)) t])"
proof (cases pc)
  case WMatch
  with assms telling_begins [of "[]" i c] show ?thesis by auto
next
  case (WNotify rest)
  with assms have "telling i c (map fst rest) es" by simp
  then show ?thesis by (blast intro: telling_fewer)
qed (use assms in simp_all)

lemma lived_order:
  assumes "lived i c pc es"
  shows "sorted_wrt in_order es" and "e \<in> set es \<Longrightarrow> \<exists>t d. Began i (about e) t d \<in> set es"
proof -
  have "sorted_wrt in_order es \<and> (\<forall>e \<in> set es. \<exists>t d. Began i (about e) t d \<in> set es)"
    using lived_shape [OF assms]
  proof (elim disjE exE conjE)
    assume t: "telling i c [] es"
    show ?thesis using telling_order(1,3,4) [OF t] by metis
  next
    fix es' t assume t: "telling i c [] es'" and es: "es = es' @ [Finished i (block_id (cl_block c)) t]"
    have "about e = block_id (cl_block c)" if "e \<in> set es" for e
      using telling_order(4) [OF t] that es by auto
    moreover have "\<exists>t d. Began i (block_id (cl_block c)) t d \<in> set es"
      using telling_order(3) [OF t] es by auto
    ultimately show ?thesis using telling_order(2) [OF t] es by metis
  qed simp
  then show "sorted_wrt in_order es" and "e \<in> set es \<Longrightarrow> \<exists>t d. Began i (about e) t d \<in> set es" by blast+
qed

lemma sorted_wrt_groups:
  "(\<And>i. sorted_wrt P (filter (\<lambda>x. f x = i) xs)) \<Longrightarrow> sorted_wrt (\<lambda>x y. f x = f y \<longrightarrow> P x y) xs"
proof (induction xs)
  case (Cons x xs)
  have "sorted_wrt P (filter (\<lambda>x. f x = i) xs)" for i
    using Cons.prems [of i] by (simp split: if_splits)
  moreover have "P x y" if "y \<in> set xs" "f x = f y" for y
    using Cons.prems [of "f x"] that by simp
  ultimately show ?case using Cons.IH by simp
qed simp

lemma fleet_own:
  assumes "fleet_run S calm now w0 fl evs w"
  shows "sorted_wrt (\<lambda>e e'. caller e = caller e' \<longrightarrow> in_order e e') evs"
    and "e \<in> set evs \<Longrightarrow> \<exists>t d. Began (caller e) (about e) t d \<in> set evs"
proof -
  have each: "case fl i of None \<Rightarrow> own i evs = [] | Some c \<Rightarrow> lived i c (cl_pc c) (own i evs)" for i
    using fleet_lives [OF assms] by (simp add: lives_def)
  have "sorted_wrt in_order (own i evs)" for i
    using each [of i] lived_order(1) by (auto split: option.splits)
  then show "sorted_wrt (\<lambda>e e'. caller e = caller e' \<longrightarrow> in_order e e') evs"
    unfolding own_def by (rule sorted_wrt_groups)
  assume "e \<in> set evs"
  then have e: "e \<in> set (own (caller e) evs)" by (simp add: own_def)
  then obtain c where "fl (caller e) = Some c" "lived (caller e) c (cl_pc c) (own (caller e) evs)"
    using each [of "caller e"] by (cases "fl (caller e)") auto
  from lived_order(2) [OF this(2) e] show "\<exists>t d. Began (caller e) (about e) t d \<in> set evs"
    by (auto simp: own_def)
qed

section \<open>What a fleet keeps apart\<close>

text \<open>No call outlives its claim: it finishes, or dies, within the duration it claimed the block for.\<close>

definition timely :: "fleet_event list \<Rightarrow> bool" where
  "timely evs \<longleftrightarrow>
     (\<forall>i k t d e. Began i k t d \<in> set evs \<longrightarrow> e \<in> set evs \<longrightarrow> caller e = i \<longrightarrow> moment e < t + d)"

text \<open>
  Two tellings of a block in this order are to different wallets and by the same call, or the second call claimed the
  block behind the end of the claim of the first, and that is behind the telling. Nothing is told of a block behind
  its completion.
\<close>

fun told_apart :: "fleet_event list \<Rightarrow> fleet_event \<Rightarrow> fleet_event \<Rightarrow> bool" where
  "told_apart evs (Told i k a t) (Told j k' a' t') \<longleftrightarrow>
     (k = k' \<longrightarrow>
        (if i = j then a \<noteq> a'
         else \<exists>t1 d1 t2 d2. Began i k t1 d1 \<in> set evs \<and> Began j k t2 d2 \<in> set evs \<and>
           t < t1 + d1 \<and> t1 + d1 \<le> t2 \<and> t2 \<le> t'))"
| "told_apart evs (Finished i k t) (Told j k' a t') \<longleftrightarrow> k \<noteq> k'"
| "told_apart evs _ _ \<longleftrightarrow> True"

fun as_guard :: "fleet_event \<Rightarrow> block_id guard_event list" where
  "as_guard (Began i k t d) = [Claimed k t d]"
| "as_guard (Told i k a t) = []"
| "as_guard (Finished i k t) = [Completed k]"

definition guard_trace :: "fleet_event list \<Rightarrow> block_id guard_event list" where
  "guard_trace evs = concat (map as_guard evs)"

lemma guard_trace_simps [simp]:
  "guard_trace [] = []" "guard_trace (evs @ evs') = guard_trace evs @ guard_trace evs'"
  "guard_trace [e] = as_guard e"
  by (simp_all add: guard_trace_def)

locale fleet = guard_contract g calm Pair now inv held known
  for g :: "'w idempotency_guard" and calm now inv held known +
  fixes S :: "'w ww_service set"
  assumes guard: "s \<in> S \<Longrightarrow> wsv_guard s = g"
    and duration: "s \<in> S \<Longrightarrow> 0 < wsv_maxProcessingTime s"
    and calm_time: "calm w w' \<Longrightarrow> now w \<le> now w'"
    and claim_time: "ig_claim g n h d w = (r, w') \<Longrightarrow> now w \<le> now w'"
    and mark_time: "ig_mark g n h w = (r, w') \<Longrightarrow> now w \<le> now w'"
    and filter_calm: "s \<in> S \<Longrightarrow> ws_filter (wsv_storage s) n addrs w = (f, w') \<Longrightarrow> calm w w'"
    and notify_calm: "s \<in> S \<Longrightarrow> tn_notify (wsv_notifier s) n a ts w = (x, w') \<Longrightarrow> calm w w'"
begin

lemma fleet_services: "fleet_run S calm now w0 fl evs w \<Longrightarrow> fl i = Some c \<Longrightarrow> cl_service c \<in> S"
  by (induction arbitrary: c rule: fleet_run.induct) (auto simp: new_call_def split: if_splits)

text \<open>A step is a claim, a completion, or leaves the guard alone.\<close>

lemma worker_step_guard:
  assumes s: "cl_service c \<in> S" and step: "worker_step ord (cl_service c) (cl_block c) (cl_pc c) w = (pc, w')"
  obtains (claims) r where "cl_pc c = WClaim"
      "ig_claim g (wb_network (cl_block c)) (wb_hash (cl_block c)) (wsv_maxProcessingTime (cl_service c)) w = (r, w')"
  | (marks) r where "cl_pc c = WMark" "ig_mark g (wb_network (cl_block c)) (wb_hash (cl_block c)) w = (r, w')"
  | (waits) "guard_trace (call_events i c t w) = []" "w' = w \<or> calm w w'"
proof (cases "cl_pc c")
  case WClaim
  obtain r w1 where r: "ig_claim g (wb_network (cl_block c)) (wb_hash (cl_block c))
      (wsv_maxProcessingTime (cl_service c)) w = (r, w1)" by (metis surj_pair)
  with WClaim step have "w1 = w'" by (cases r) (simp_all add: guard [OF s])
  with r WClaim show ?thesis by (blast intro: claims)
next
  case WMatch
  with step show ?thesis
    using filter_calm [OF s] by (intro waits)
      (auto simp: call_events_def get_transactions_by_wallet_def Let_def split: prod.splits sum.splits)
next
  case (WNotify rest)
  with step show ?thesis
    using notify_calm [OF s] by (intro waits; cases rest)
      (auto simp: call_events_def Let_def split: prod.splits option.splits)
next
  case WMark
  obtain r w1 where r: "ig_mark g (wb_network (cl_block c)) (wb_hash (cl_block c)) w = (r, w1)" by (metis surj_pair)
  with WMark step have "w1 = w'" by (simp add: guard [OF s])
  with r WMark show ?thesis by (blast intro: marks)
next
  case (WReturned r)
  then have "call_events i c t w = []" by (simp add: call_events_def Let_def)
  moreover have "w' = w" using WReturned step by simp
  ultimately show ?thesis by (intro waits) simp_all
qed

lemma fleet_time:
  "fleet_run S calm now w0 fl evs w \<Longrightarrow> sorted (map moment evs) \<and> (\<forall>e \<in> set evs. moment e \<le> now w)"
proof (induction rule: fleet_run.induct)
  case (step fl evs w i c ord pc w')
  have "cl_service c \<in> S" using fleet_services step.hyps(1,2) by blast
  then have le: "now w \<le> now w'"
    using step.hyps(4) by (cases rule: worker_step_guard [where i = i and t = "now w"])
      (auto dest: claim_time mark_time calm_time)
  moreover have "moment e = now w" if "e \<in> set (call_events i c (now w) w)" for e
    using that by (auto simp: call_events_def Let_def split: worker_pc.splits list.splits if_splits)
  moreover have "sorted (map moment (call_events i c (now w) w))"
    by (auto simp: call_events_def Let_def split: worker_pc.split list.split)
  ultimately show ?case using step.IH by (fastforce simp: sorted_append)
next
  case (outside fl evs w w')
  then show ?case using calm_time [OF outside.hyps(2)] by fastforce
qed auto

text \<open>The claims and completions of a fleet are a run of its guard.\<close>

lemma fleet_guard:
  "fleet_run S calm now w0 fl evs w \<Longrightarrow> guard_run g calm Pair now w0 (guard_trace evs) w"
proof (induction rule: fleet_run.induct)
  case start
  show ?case by (simp add: guard_run.start)
next
  case (step fl evs w i c ord pc w')
  let ?b = "cl_block c"
  have s: "cl_service c \<in> S" using fleet_services step.hyps(1,2) by blast
  from s step.hyps(4) show ?case
  proof (cases rule: worker_step_guard [where i = i and t = "now w"])
    case (claims r)
    from guard_run.claim [OF step.IH duration [OF s] claims(2)] claims show ?thesis
      by (cases r) (simp_all add: call_events_def guard [OF s] block_id_def Let_def)
  next
    case (marks r)
    have "case fl i of None \<Rightarrow> own i evs = [] | Some c \<Rightarrow> lived i c (cl_pc c) (own i evs)"
      using fleet_lives [OF step.hyps(1)] by (simp add: lives_def)
    then have "telling i c [] (own i evs)" using step.hyps(2) marks(1) by simp
    from telling_order(3) [OF this] obtain t d where "Began i (block_id ?b) t d \<in> set evs"
      by (auto simp: own_def)
    then have "Claimed (wb_network ?b, wb_hash ?b) t d \<in> set (guard_trace evs)"
      by (force simp: guard_trace_def block_id_def)
    from guard_run.mark [OF step.IH this marks(2)] marks show ?thesis
      by (cases r) (simp_all add: call_events_def guard [OF s] block_id_def Let_def)
  next
    case waits
    with step.IH show ?thesis by (auto intro: guard_run.time)
  qed
next
  case (outside fl evs w w')
  then show ?case by (blast intro: guard_run.time)
qed

end

lemma guard_trace_position:
  "sorted_wrt P (guard_trace evs) \<Longrightarrow>
     sorted_wrt (\<lambda>e e'. \<forall>x \<in> set (as_guard e). \<forall>y \<in> set (as_guard e'). P x y) evs"
  by (induction evs) (auto simp: guard_trace_def sorted_wrt_append)

context fleet
begin

lemma fleet_claims:
  assumes "fleet_run S calm now w0 fl evs w" and "inv w0"
  shows "sorted_wrt (\<lambda>e e'. \<forall>x \<in> set (as_guard e). \<forall>y \<in> set (as_guard e'). compatible x y) evs"
  using run_exclusive [OF assms(2) fleet_guard [OF assms(1)]] unfolding exclusive_trace_def
  by (rule guard_trace_position)

lemma fleet_positions:
  assumes "fleet_run S calm now w0 fl evs w" and "inv w0" and "p < q" and "q < length evs"
  shows "x \<in> set (as_guard (evs ! p)) \<Longrightarrow> y \<in> set (as_guard (evs ! q)) \<Longrightarrow> compatible x y"
    and "caller (evs ! p) = caller (evs ! q) \<Longrightarrow> in_order (evs ! p) (evs ! q)"
  using fleet_claims [OF assms(1,2)] fleet_own(1) [OF assms(1)] assms(3,4)
  unfolding sorted_wrt_iff_nth_less by blast+

lemma fleet_moments:
  "fleet_run S calm now w0 fl evs w \<Longrightarrow> p \<le> q \<Longrightarrow> q < length evs \<Longrightarrow> moment (evs ! p) \<le> moment (evs ! q)"
  using fleet_time [of w0 fl evs w] by (simp add: sorted_iff_nth_mono)

text \<open>The events of a call are behind its claim.\<close>

lemma begun_before:
  assumes run: "fleet_run S calm now w0 fl evs w" and "inv w0" and "Began i k t d \<in> set evs" and "e \<in> set evs" "caller e = i"
  shows "t \<le> moment e"
proof -
  obtain p q where pq: "p < length evs" "evs ! p = Began i k t d" "q < length evs" "evs ! q = e"
    using assms(3,4) by (metis in_set_conv_nth)
  have "\<not> q < p"
    using fleet_positions(2) [OF run assms(2), of q p] pq assms(5) by (cases e) auto
  with fleet_moments [OF run, of p q] pq show ?thesis by simp
qed

text \<open>Two claims of one block are one behind the end of the other.\<close>

lemma claims_apart:
  assumes run: "fleet_run S calm now w0 fl evs w" and inv: "inv w0"
    and "Began i k t d \<in> set evs" "Began j k t' d' \<in> set evs" "i \<noteq> j"
  shows "t + d \<le> t' \<or> t' + d' \<le> t"
proof -
  obtain p q where pq: "p < length evs" "evs ! p = Began i k t d" "q < length evs" "evs ! q = Began j k t' d'"
    using assms(3,4) by (metis in_set_conv_nth)
  from assms(5) pq have "p < q \<or> q < p" by (metis caller.simps(1) linorder_neqE_nat)
  then show ?thesis
    using fleet_positions(1) [OF run inv, of p q "Claimed k t d" "Claimed k t' d'"]
      fleet_positions(1) [OF run inv, of q p "Claimed k t' d'" "Claimed k t d"] pq by auto
qed

lemma fleet_told_apart:
  assumes run: "fleet_run S calm now w0 fl evs w" and inv: "inv w0" and timely: "timely evs"
  shows "sorted_wrt (told_apart evs) evs"
  unfolding sorted_wrt_iff_nth_less
proof (intro allI impI)
  fix p q assume pq: "p < q" "q < length evs"
  let ?e = "evs ! p" and ?e' = "evs ! q"
  have mem: "?e \<in> set evs" "?e' \<in> set evs" using pq by auto
  have time: "moment ?e \<le> moment ?e'" using fleet_moments [OF run] pq by simp
  note own = fleet_positions(2) [OF run inv pq]
  obtain t1 d1 where b1: "Began (caller ?e) (about ?e) t1 d1 \<in> set evs" using fleet_own(2) [OF run mem(1)] by blast
  obtain t2 d2 where b2: "Began (caller ?e') (about ?e') t2 d2 \<in> set evs" using fleet_own(2) [OF run mem(2)] by blast
  have bounds: "moment ?e < t1 + d1" "t1 \<le> moment ?e" "moment ?e' < t2 + d2" "t2 \<le> moment ?e'"
    using timely b1 b2 mem begun_before [OF run inv] unfolding timely_def by blast+
  have other: "t1 + d1 \<le> t2" if "caller ?e \<noteq> caller ?e'" "about ?e = about ?e'"
    using claims_apart [OF run inv b1, of "caller ?e'" t2 d2] b2 that bounds time by auto
  show "told_apart evs ?e ?e'"
  proof (cases ?e; cases ?e')
    fix i k a t j k' a' t' assume e: "?e = Told i k a t" "?e' = Told j k' a' t'"
    show ?thesis
    proof (cases "i = j")
      case True
      then show ?thesis using own by (simp add: e)
    next
      case False
      have "\<exists>t1 d1 t2 d2. Began i k t1 d1 \<in> set evs \<and> Began j k t2 d2 \<in> set evs \<and> t < t1 + d1 \<and> t1 + d1 \<le> t2 \<and> t2 \<le> t'"
        if "k = k'"
        using other bounds b1 b2 False that by (intro exI [of _ t1] exI [of _ d1] exI [of _ t2] exI [of _ d2]) (simp add: e)
      with False show ?thesis by (simp add: e)
    qed
  next
    fix i k t j k' a' t' assume e: "?e = Finished i k t" "?e' = Told j k' a' t'"
    have "k \<noteq> k'"
    proof
      assume k: "k = k'"
      have "i \<noteq> j" using own e by auto
      then have late: "t < t2" using other bounds k by (simp add: e)
      obtain r where r: "r < length evs" "evs ! r = Began j k' t2 d2" using b2 e by (auto simp: in_set_conv_nth)
      have "p < r" using fleet_moments [OF run, of r p] pq e(1) r(2) late by (cases "p < r") auto
      with fleet_positions(1) [OF run inv, of p r "Completed k" "Claimed k' t2 d2"] r e(1) k show False by simp
    qed
    then show ?thesis by (simp add: e)
  qed simp_all
qed

end

end
