(* ===== verification/Fleet.thy ===== *)
theory Fleet
  imports Deployment Workers
begin

text \<open>
  The contract of a fleet of calls, on the servers of a site: any number of processes, each with the services that
  \<^verbatim>\<open>bootstrap.New\<close> built for it, with the claims on one of the two storages.
\<close>

section \<open>What the calls leave alone\<close>

definition site_now :: "bool \<Rightarrow> ('r \<Rightarrow> int) \<Rightarrow> ('r, 'm, 'x) site \<Rightarrow> int" where
  "site_now redis clock w = (if redis then clock (at_redis w) else pg_clock (at_pg w))"

text \<open>
  What happens outside the calls: time passes, and everything but the claims may change, on PostgreSQL the rows of
  their table, on Redis their keys.
\<close>

definition site_calm ::
    "bool \<Rightarrow> ('r \<Rightarrow> string \<Rightarrow> (string \<times> int option) option) \<Rightarrow> ('r \<Rightarrow> int) \<Rightarrow>
     ('r, 'm, 'x) site \<Rightarrow> ('r, 'm, 'x) site \<Rightarrow> bool" where
  "site_calm redis str_at clock w w' \<longleftrightarrow>
     (if redis
      then clock (at_redis w) \<le> clock (at_redis w') \<and>
        (\<forall>n h. str_at (at_redis w') (walletwatchIdempotencyKey n h) = str_at (at_redis w) (walletwatchIdempotencyKey n h))
      else pg_pass (at_pg w) (at_pg w'))"

lemma redis_guard_on:
  "part get put \<Longrightarrow> redis_guard (redis_on get put R) = guard_on get put (redis_guard R)"
  using redis_claim_on [of get put R] redis_mark_on [of get put R]
  by (auto simp: redis_guard_def guard_on_def intro!: ext)

lemma guard_for_site:
  assumes "site_drivers R A X D" and "watch_wired D es c ww s" and "wcf_guard c = Some p"
  shows "wsv_guard ww =
    (if on_redis p then guard_on at_redis put_redis (redis_guard R) else guard_on at_pg put_pg pg_guard)"
proof -
  obtain st where st: "storage_for D es s p st" "wsv_guard ww = stc_guard st"
    using assms(2,3) by (auto simp: watch_wired_def)
  from storage_for_site [OF assms(1) st(1)] show ?thesis
    by (auto simp: st(2) redis_client_def redis_guard_on [OF site_parts(2)] guard_on_def
        pg_client_def in_pool_def pg_guard_def split: if_splits)
qed

lemma notifier_leaves_storage:
  assumes "site_drivers R A X D" and "watch_wired D es c ww s" and "tn_notify (wsv_notifier ww) n a ts w = (r, w')"
  shows "at_pg w' = at_pg w \<and> at_redis w' = at_redis w"
proof -
  have "messaging_for tx_notifier_of D es s (wcf_notifier c) (wsv_notifier ww)"
    using assms(2) by (simp add: watch_wired_def)
  from notifier_for_site [OF assms(1) this] assms(3) show ?thesis
    by (auto simp: rmsg_notify_on rabbit_notify_on [OF site_parts(3)] on_part_iff split: if_splits)
qed

lemma pg_filter_calm: "pg_filter_watched_wallets n addrs w = (r, w') \<Longrightarrow> pg_pass w w'"
  by (auto simp: pg_filter_watched_wallets_def filter_monitored_wallets_def pg_exec_def pg_pass_def
      split: list.splits fate.splits)

lemma pg_guard_clock:
  "pg_claim n h ttl w = (r, w') \<Longrightarrow> pg_clock w' = pg_clock w"
  "pg_mark n h w = (r, w') \<Longrightarrow> pg_clock w' = pg_clock w"
  by (auto simp: pg_claim_def pg_mark_def claim_or_extend_if_expired_def find_claim_def mark_claim_as_completed_def
      pg_exec_def Let_def split: list.splits fate.splits option.splits prod.splits sum.splits if_splits)

lemma filter_leaves_claims:
  assumes "site_drivers R A X D" and "watch_wired D es c ww s" and "ws_filter (wsv_storage ww) n addrs w = (f, w')"
  shows "(at_pg w' = at_pg w \<or> pg_pass (at_pg w) (at_pg w')) \<and>
    (at_redis w' = at_redis w \<or> (\<exists>f. redis_filter_watched_wallets R n addrs (at_redis w) = (f, at_redis w')))"
proof -
  obtain st where st: "storage_for D es s (wcf_storage c) st" "wsv_storage ww = stc_watch st"
    using assms(2) by (auto simp: watch_wired_def)
  from storage_for_site [OF assms(1) st(1)] assms(3) pg_filter_calm [of n addrs "at_pg w" f "at_pg w'"] show ?thesis
    by (auto simp: st(2) redis_client_def redis_watch_def redis_filter_on [OF site_parts(2)] pg_client_def in_pool_def
        on_part_iff split: if_splits)
qed

section \<open>The two fleets\<close>

text \<open>The services that a process may run: each as wired by some accepted configuration, with its claims on one storage.\<close>

definition guarded_by ::
    "('r, 'm, 'x) site drivers \<Rightarrow> bool \<Rightarrow> ('r, 'm, 'x) site ww_service \<Rightarrow> bool" where
  "guarded_by D redis ww \<longleftrightarrow>
     (\<exists>es c s p. watch_wired D es c ww s \<and> wcf_guard c = Some p \<and> on_redis p = redis)"

lemma guarded_duration: "guarded_by D redis ww \<Longrightarrow> 0 < wsv_maxProcessingTime ww"
  by (auto simp: guarded_by_def watch_wired_def defaultMaxProcessingTime_def)

lemma built_guarded:
  assumes "config_load print process env = (c, None)" and "bootstrap_new D c s = Val (Inr b, s')"
    and "wcf_guard (cf_walletwatch c) = Some p"
  shows "guarded_by D (on_redis p) (bt_walletwatch b)"
proof -
  have "watch_wired D (cf_engines c) (cf_walletwatch c) (bt_walletwatch b) s'"
    using bootstrap_result [OF assms(1), of D s] assms(2) by simp
  with assms(3) show ?thesis unfolding guarded_by_def by blast
qed

lemma pg_pass_refl: "pg_pass w w"
  by (auto simp: pg_pass_def intro: exI [of _ 0])

lemma pg_fleet:
  assumes D: "site_drivers R A X D" and S: "\<And>ww. ww \<in> S \<Longrightarrow> guarded_by D False ww"
  shows "fleet (guard_on at_pg put_pg pg_guard) (site_calm False str_at clock) (site_now False clock)
    (\<lambda>w. pg_synced (at_pg w)) (\<lambda>w (n, h). pg_held (at_pg w) (pg_key n h)) (\<lambda>w (n, h). pg_known (at_pg w) (pg_key n h)) S"
proof -
  have now: "site_now False clock = (\<lambda>w. pg_clock (at_pg w))" by (simp add: site_now_def fun_eq_iff)
  have gc: "guard_contract (guard_on at_pg put_pg pg_guard) (site_calm False str_at clock) Pair (site_now False clock)
    (\<lambda>w. pg_synced (at_pg w)) (\<lambda>w (n, h). pg_held (at_pg w) (pg_key n h)) (\<lambda>w (n, h). pg_known (at_pg w) (pg_key n h))"
    unfolding now
    by (rule guard_contract_on [OF pg_gd.guard_contract_axioms site_parts(1)])
       (use pg_gd.pass_inv pg_gd.pass_keeps in \<open>auto simp: site_calm_def\<close>)
  show ?thesis
  proof (intro fleet.intro gc fleet_axioms.intro)
    fix ww assume ww: "ww \<in> S"
    obtain es c s p where c: "watch_wired D es c ww s" "wcf_guard c = Some p" "\<not> on_redis p"
      using S [OF ww] by (auto simp: guarded_by_def)
    show "wsv_guard ww = guard_on at_pg put_pg pg_guard" using guard_for_site [OF D c(1,2)] c(3) by simp
    show "0 < wsv_maxProcessingTime ww" by (rule guarded_duration [OF S [OF ww]])
    fix n w w'
    show "ws_filter (wsv_storage ww) n addrs w = (f, w') \<Longrightarrow> site_calm False str_at clock w w'" for addrs f
      using filter_leaves_claims [OF D c(1), of n addrs w f w'] by (auto simp: site_calm_def pg_pass_refl)
    show "tn_notify (wsv_notifier ww) n a ts w = (x, w') \<Longrightarrow> site_calm False str_at clock w w'" for a ts x
      using notifier_leaves_storage [OF D c(1), of n a ts w x w'] by (auto simp: site_calm_def pg_pass_refl)
  qed (auto simp: site_calm_def pg_pass_def now guard_on_def on_part_iff pg_guard_def dest: pg_guard_clock)
qed

context redis_server
begin

lemma redis_filter_same: "redis_filter_watched_wallets R n addrs w = (r, w') \<Longrightarrow> same w w'"
  by (auto simp: redis_filter_watched_wallets_def same dest!: smismember_frame split: prod.splits sum.splits if_splits)

lemma redis_guard_clock:
  "redis_claim R n h ttl w = (r, w') \<Longrightarrow> clock w' = clock w"
  "redis_mark R n h w = (r, w') \<Longrightarrow> clock w' = clock w"
  by (drule claim_effect mark_effect, auto simp: same stored)+

lemma redis_fleet:
  assumes D: "site_drivers R A X D" and S: "\<And>ww. ww \<in> S \<Longrightarrow> guarded_by D True ww"
  shows "fleet (guard_on at_redis put_redis (redis_guard R)) (site_calm True str_at clock) (site_now True clock)
    (\<lambda>_. True) (\<lambda>w (n, h). redis_held str_at clock (at_redis w) (walletwatchIdempotencyKey n h)) (\<lambda>w (n, h). True) S"
proof -
  have now: "site_now True clock = (\<lambda>w. clock (at_redis w))" by (simp add: site_now_def fun_eq_iff)
  have gc: "guard_contract (guard_on at_redis put_redis (redis_guard R)) (site_calm True str_at clock) Pair (site_now True clock)
    (\<lambda>_. True) (\<lambda>w (n, h). redis_held str_at clock (at_redis w) (walletwatchIdempotencyKey n h)) (\<lambda>w (n, h). True)"
    unfolding now
    by (rule guard_contract_on [OF gd.guard_contract_axioms site_parts(2)])
       (auto simp: site_calm_def redis_held_def)
  show ?thesis
  proof (intro fleet.intro gc fleet_axioms.intro)
    fix ww assume ww: "ww \<in> S"
    obtain es c s p where c: "watch_wired D es c ww s" "wcf_guard c = Some p" "on_redis p"
      using S [OF ww] by (auto simp: guarded_by_def)
    show "wsv_guard ww = guard_on at_redis put_redis (redis_guard R)" using guard_for_site [OF D c(1,2)] c(3) by simp
    show "0 < wsv_maxProcessingTime ww" by (rule guarded_duration [OF S [OF ww]])
    fix n w w'
    show "ws_filter (wsv_storage ww) n addrs w = (f, w') \<Longrightarrow> site_calm True str_at clock w w'" for addrs f
      using filter_leaves_claims [OF D c(1), of n addrs w f w'] redis_filter_same [of n addrs "at_redis w" _ "at_redis w'"]
      by (auto simp: site_calm_def same)
    show "tn_notify (wsv_notifier ww) n a ts w = (x, w') \<Longrightarrow> site_calm True str_at clock w w'" for a ts x
      using notifier_leaves_storage [OF D c(1), of n a ts w x w'] by (auto simp: site_calm_def)
  qed (auto simp: site_calm_def now guard_on_def on_part_iff redis_guard_def dest: redis_guard_clock)
qed

end

section \<open>A call in memory\<close>

text \<open>The service that the configuration of \<open>Deployment\<close> yields: claims on PostgreSQL for a minute, wallets on Redis.\<close>

definition demo_ww :: "memory_site ww_service" where
  "demo_ww =
     \<lparr>wsv_maxProcessingTime = 60, wsv_guard = guard_on at_pg put_pg pg_guard,
      wsv_storage = redis_watch (redis_on at_redis put_redis memory_redis),
      wsv_notifier = rmsg_as_tx_notifier (streams_on at_streams put_streams memory_streams) ''tx''\<rparr>"

lemma deploy_ww:
  assumes "bootstrap_new deploy_drivers deploy_config deploy_boot = Val (Inr b, s')"
  shows "bt_walletwatch b = demo_ww"
proof -
  let ?c = "cf_walletwatch deploy_config" and ?es = "cf_engines deploy_config"
  have wired: "watch_wired deploy_drivers ?es ?c (bt_walletwatch b) s'"
    using bootstrap_result [OF deploy_load, of deploy_drivers deploy_boot] assms by simp
  note conf = deploy_config_def Let_def on_redis_def EngineRedis_def EnginePostgreSQL_def
  obtain p where p: "wcf_guard ?c = Some p" "\<not> on_redis p" by (auto simp: conf)
  have "wsv_guard (bt_walletwatch b) = guard_on at_pg put_pg pg_guard"
    using guard_for_site [OF deploy_site wired p(1)] p(2) by simp
  moreover have "wsv_storage (bt_walletwatch b) = redis_watch (redis_on at_redis put_redis memory_redis)"
    using wired storage_for_site [OF deploy_site] unfolding watch_wired_def
    by (fastforce simp: conf redis_client_def)
  moreover have "messaging_for tx_notifier_of deploy_drivers ?es s' (wcf_notifier ?c) (wsv_notifier (bt_walletwatch b))"
    and "wsv_maxProcessingTime (bt_walletwatch b) = 60"
    using wired by (simp_all add: watch_wired_def conf)
  ultimately show ?thesis
    using notifier_for_site [OF deploy_site]
    by (force simp: demo_ww_def conf mq_redis_cfg_def demo_config_def demo_redis_def)
qed

definition fleet_block :: ww_block where
  "fleet_block = \<lparr>wb_network = ''ETH'', wb_height = ''0x1'', wb_hash = ''0xb'', wb_transactions = [demo_tx ''0x7'' ''0xa'' ''0xf'']\<rparr>"

definition demo_claimed :: "int \<Rightarrow> memory_site \<Rightarrow> memory_site" where
  "demo_claimed until w =
     w\<lparr>at_pg := (at_pg w)\<lparr>pg_idem := [\<lparr>ir_network = ''ETH'', ir_hash = ''0xb'', ir_until = until, ir_finished = None\<rparr>]\<rparr>\<rparr>"

lemma demo_claims: "worker_step plain_orders demo_ww fleet_block WClaim deploy_world = (WMatch, demo_claimed 60 deploy_world)"
  by (simp add: demo_ww_def fleet_block_def guard_on_def on_part_def pg_simps deploy_world_def demo_claimed_def to_upper_def
      ascii_upper_def)

abbreviation demo_pending :: worker_pc where
  "demo_pending \<equiv> WNotify [(''0xa'', [demo_tx ''0x7'' ''0xa'' ''0xf''])]"

lemma demo_matches:
  assumes "at_redis w = at_redis deploy_world"
  shows "worker_step plain_orders demo_ww fleet_block WMatch w = (demo_pending, w)"
proof -
  have "redis_filter_watched_wallets memory_redis ''ETH'' [''0xa'', ''0xf''] (at_redis w) = (Inr [''0xa''], at_redis w)"
    by (simp add: assms deploy_world_def redis_filter_watched_wallets_def mem_simps walletStorageKey_def)
  then have f: "ws_filter (wsv_storage demo_ww) ''ETH'' [''0xa'', ''0xf''] w = (Inr [''0xa''], w)"
    by (simp add: demo_ww_def redis_watch_def redis_filter_on [OF site_parts(2)] on_part_def)
  let ?txs = "[demo_tx ''0x7'' ''0xa'' ''0xf'']"
  have "set_to_slice (io_slice plain_orders) (ix_wallets (index_txs ?txs)) = [''0xa'', ''0xf'']"
    and "dm_to_map (match_wallets (io_hashes plain_orders) (ix_txs (index_txs ?txs)) 0 [''0xa'']
      (ix_by_wallet (index_txs ?txs)) (new_default_map (\<lambda>_. []))) = [(''0xa'', ?txs)]"
    by code_simp+
  with f show ?thesis by (simp add: fleet_block_def get_transactions_by_wallet_def plain_orders_def)
qed

definition demo_told :: "memory_site \<Rightarrow> memory_site" where
  "demo_told w =
     snd (tn_notify (wsv_notifier demo_ww) ''ETH'' ''0xa'' [demo_tx ''0x7'' ''0xa'' ''0xf''] w)"

lemma demo_notifies:
  assumes "sm_fates (at_streams w) = []"
  shows "worker_step plain_orders demo_ww fleet_block demo_pending w = (WNotify [], demo_told w)"
    and "at_pg (demo_told w) = at_pg w" and "at_redis (demo_told w) = at_redis w"
    and "sm_fates (at_streams (demo_told w)) = []"
  using assms
  by (auto simp: demo_told_def demo_ww_def fleet_block_def streams_on_def on_part_def rmsg_as_tx_notifier_def
      rmsg_notify_transactions_def rmsg_txs_message_def memory_streams_def memory_xadd_def Let_def split: prod.splits)

lemmas demo_steps = demo_claims demo_matches demo_notifies

text \<open>A run of one call, up to its first telling, and a run in which a second call begins behind the end of the claim.\<close>

abbreviation demo_run :: "memory_site fleet \<Rightarrow> fleet_event list \<Rightarrow> memory_site \<Rightarrow> bool" where
  "demo_run \<equiv> fleet_run {demo_ww} (site_calm False rm_strings rm_clock) (site_now False rm_clock) deploy_world"

abbreviation demo_call :: "worker_pc \<Rightarrow> memory_site call" where
  "demo_call pc \<equiv> \<lparr>cl_service = demo_ww, cl_block = fleet_block, cl_pc = pc\<rparr>"

lemma demo_step:
  assumes "demo_run fl evs w" and "fl i = Some (demo_call pc)"
    and "worker_step plain_orders demo_ww fleet_block pc w = (pc', w')"
  shows "demo_run (fl(i \<mapsto> demo_call pc')) (evs @ call_events i (demo_call pc) (site_now False rm_clock w) w) w'"
  using fleet_run.step [OF assms(1,2) fair_plain, of pc' w'] assms(3) by simp

abbreviation demo_key :: block_id where
  "demo_key \<equiv> (''ETH'', ''0xb'')"

lemma demo_call_events:
  "call_events i (demo_call WMatch) t w = []"
  "call_events i (demo_call demo_pending) t w = [Told i demo_key ''0xa'' t]"
  "worker_step plain_orders demo_ww fleet_block WClaim w = (WMatch, w') \<Longrightarrow>
     call_events i (demo_call WClaim) t w = [Began i demo_key t 60]"
  by (auto simp: call_events_def Let_def block_id_def fleet_block_def demo_ww_def split: prod.splits option.splits)

lemma demo_world_simps [simp]:
  "at_redis (demo_claimed u w) = at_redis w" "at_streams (demo_claimed u w) = at_streams w"
  "pg_clock (at_pg (demo_claimed u w)) = pg_clock (at_pg w)"
  "sm_fates (at_streams deploy_world) = []" "pg_clock (at_pg deploy_world) = 0"
  by (simp_all add: demo_claimed_def deploy_world_def pg_empty_def)

lemma demo_begins:
  "demo_run ((\<lambda>_. None)(0 \<mapsto> demo_call demo_pending)) [Began 0 demo_key 0 60] (demo_claimed 60 deploy_world)"
proof -
  have "demo_run ((\<lambda>_. None)(0 \<mapsto> demo_call WClaim)) [] deploy_world"
    using fleet_run.call [OF fleet_run.start, where i = 0 and s = demo_ww and b = fleet_block] by (simp add: new_call_def)
  from demo_step [OF this _ demo_claims, where i = 0]
  have "demo_run ((\<lambda>_. None)(0 \<mapsto> demo_call WMatch)) [Began 0 demo_key 0 60] (demo_claimed 60 deploy_world)"
    by (simp add: demo_call_events(3) [OF demo_claims] site_now_def)
  from demo_step [OF this _ demo_matches, where i = 0] show ?thesis by (simp add: demo_call_events)
qed

section \<open>Properties\<close>

text \<open>
  C3. Any number of processes, with services built by \<^verbatim>\<open>bootstrap.New\<close> from accepted configurations with
  a guard on the same storage, process blocks at the same time, whatever fails and whoever dies, and
  anything else but the claims may change meanwhile. On PostgreSQL the clocks of the application and
  the database agree. If no call outlives the duration that it claimed its block for, then no wallet is told twice of
  a block by the same call; two calls tell of the same block only if the second claimed it behind the end of the claim
  of the first, behind which the first tells nothing; and nothing is told of a block behind its completion.
\<close>

theorem fleet_tells_apart:
  assumes "redis_server R str_at mem_at clock pass same stored" and "site_drivers R A X D"
    and "\<And>ww. ww \<in> S \<Longrightarrow> \<exists>print process env c b s s'. config_load print process env = (c, None) \<and>
           bootstrap_new D c s = Val (Inr b, s') \<and> ww = bt_walletwatch b \<and>
           (\<exists>p. wcf_guard (cf_walletwatch c) = Some p \<and> on_redis p = redis)"
    and "redis \<or> pg_synced (at_pg w0)"
    and "fleet_run S (site_calm redis str_at clock) (site_now redis clock) w0 fl evs w" and "timely evs"
  shows "sorted_wrt (told_apart evs) evs"
proof -
  have S: "guarded_by D redis ww" if "ww \<in> S" for ww
    using assms(3) [OF that] by (auto intro: built_guarded)
  show ?thesis
  proof (cases redis)
    case True
    have "fleet_run S (site_calm True str_at clock) (site_now True clock) w0 fl evs w" using assms(5) True by simp
    from fleet.fleet_told_apart [OF redis_server.redis_fleet [OF assms(1,2)] this] S True assms(6) show ?thesis by simp
  next
    case False
    have "fleet_run S (site_calm False str_at clock) (site_now False clock) w0 fl evs w" using assms(5) False by simp
    from fleet.fleet_told_apart [OF pg_fleet [OF assms(2)] this] S False assms(4,6) show ?thesis by simp
  qed
qed

theorem fleet_tells_apart_witness:
  "\<exists>fl evs w. demo_run fl evs w \<and> evs = [Began 0 demo_key 0 60, Told 0 demo_key ''0xa'' 0] \<and>
     sorted_wrt (told_apart evs) evs"
proof -
  let ?evs = "[Began 0 demo_key 0 60, Told 0 demo_key ''0xa'' 0]"
  obtain b s' where b: "bootstrap_new deploy_drivers deploy_config deploy_boot = Val (Inr b, s')" using deploy_boots by blast
  have "\<exists>p. wcf_guard (cf_walletwatch deploy_config) = Some p \<and> on_redis p = False"
    by (simp add: deploy_config_def Let_def on_redis_def EngineRedis_def EnginePostgreSQL_def)
  then have S: "\<exists>print (process :: unit \<Rightarrow> config \<times> gerr option) env c b s s'. config_load print process env = (c, None) \<and>
      bootstrap_new deploy_drivers c s = Val (Inr b, s') \<and> ww = bt_walletwatch b \<and>
      (\<exists>p. wcf_guard (cf_walletwatch c) = Some p \<and> on_redis p = False)" if "ww \<in> {demo_ww}" for ww
    using deploy_load b deploy_ww [OF b] that
    by (intro exI [of _ "\<lambda>_. undefined"] exI [of _ "\<lambda>env :: unit. (deploy_config, None)"] exI [of _ "()"]
        exI [of _ deploy_config] exI [of _ b] exI [of _ deploy_boot] exI [of _ s']) simp
  have now: "site_now False rm_clock (demo_claimed 60 deploy_world) = 0"
    by (simp add: site_now_def)
  from demo_step [OF demo_begins _ demo_notifies(1), where i = 0] obtain fl w where run: "demo_run fl ?evs w"
    by (fastforce simp: demo_call_events now)
  have u: "False \<or> pg_synced (at_pg deploy_world)" by (simp add: deploy_world_def pg_empty_def pg_synced_def)
  have t: "timely ?evs" by (auto simp: timely_def)
  have "sorted_wrt (told_apart ?evs) ?evs" by (rule fleet_tells_apart [OF mem_laws deploy_site S u run t])
  with run show ?thesis by blast
qed

text \<open>
  C28. Nothing ends a call whose processing takes longer than \<^verbatim>\<open>maxProcessingTime\<close>. On the
  services built by \<^verbatim>\<open>bootstrap.New\<close>, a call that is still at work when its claim ends goes on, while another claims
  the block: the wallet is told twice of the same block, and the second telling is that of the first call.
\<close>

theorem slow_call_tells_again:
  "\<exists>b s' fl w.
     bootstrap_new deploy_drivers deploy_config deploy_boot = Val (Inr b, s') \<and>
     fleet_run {bt_walletwatch b} (site_calm False rm_strings rm_clock) (site_now False rm_clock) deploy_world fl
       [Began 0 demo_key 0 60, Began 1 demo_key 61 60, Told 1 demo_key ''0xa'' 61, Told 0 demo_key ''0xa'' 61] w"
proof -
  obtain b s' where b: "bootstrap_new deploy_drivers deploy_config deploy_boot = Val (Inr b, s')" using deploy_boots by blast
  let ?w2 = "(demo_claimed 60 deploy_world)\<lparr>at_pg := pg_wait 61 (at_pg (demo_claimed 60 deploy_world))\<rparr>"
  let ?w3 = "demo_claimed 121 ?w2"
  let ?fl = "(\<lambda>_. None)(0 \<mapsto> demo_call demo_pending)"
  note sets = demo_claimed_def deploy_world_def
  have "site_calm False rm_strings rm_clock (demo_claimed 60 deploy_world) ?w2"
    by (simp add: site_calm_def pg_pass_wait)
  from fleet_run.outside [OF demo_begins this] have "demo_run ?fl [Began 0 demo_key 0 60] ?w2" .
  from fleet_run.call [OF this, where i = 1 and s = demo_ww and b = fleet_block]
  have r1: "demo_run (?fl(1 \<mapsto> demo_call WClaim)) [Began 0 demo_key 0 60] ?w2" by (simp add: new_call_def)
  have claim: "worker_step plain_orders demo_ww fleet_block WClaim ?w2 = (WMatch, ?w3)"
    by (simp add: demo_ww_def fleet_block_def guard_on_def on_part_def pg_simps sets to_upper_def ascii_upper_def)
  have now: "site_now False rm_clock ?w2 = 61" "site_now False rm_clock ?w3 = 61"
    by (simp_all add: site_now_def pg_wait_def)
  from demo_step [OF r1 _ claim, where i = 1]
  have "demo_run (?fl(1 \<mapsto> demo_call WMatch)) [Began 0 demo_key 0 60, Began 1 demo_key 61 60] ?w3"
    by (simp add: demo_call_events(3) [OF claim] now)
  from demo_step [OF this _ demo_matches, where i = 1]
  have "demo_run (?fl(1 \<mapsto> demo_call demo_pending)) [Began 0 demo_key 0 60, Began 1 demo_key 61 60] ?w3"
    by (simp add: demo_call_events)
  from demo_step [OF this _ demo_notifies(1), where i = 1]
  have "demo_run (?fl(1 \<mapsto> demo_call (WNotify [])))
      [Began 0 demo_key 0 60, Began 1 demo_key 61 60, Told 1 demo_key ''0xa'' 61] (demo_told ?w3)"
    by (simp add: demo_call_events now)
  from demo_step [OF this _ demo_notifies(1), where i = 0] obtain fl w where
    "demo_run fl [Began 0 demo_key 0 60, Began 1 demo_key 61 60, Told 1 demo_key ''0xa'' 61, Told 0 demo_key ''0xa'' 61] w"
    using now demo_notifies(2,4) [of ?w3] by (fastforce simp: demo_call_events site_now_def)
  with b deploy_ww [OF b] show ?thesis by metis
qed

end
