(* ===== verification/System.thy ===== *)
theory System
  imports Streaming Fleet
begin

text \<open>
  From the nodes to the subscribers: the polling clients, the goroutines of \<^verbatim>\<open>chainstream\<close>, the loop of
  \<^verbatim>\<open>blockproc\<close> over what they deliver, and the \<^verbatim>\<open>walletwatch\<close> service on a site.
\<close>

section \<open>The heights a wallet is told of\<close>

text \<open>The messages are those of the delivered blocks, one list for each.\<close>

definition told_wallet :: "string \<Rightarrow> string \<Rightarrow> observed_block \<times> notification list \<Rightarrow> bool" where
  "told_wallet n a = (\<lambda>(b, msgs). ob_network b = n \<and> a \<in> (fst \<circ> snd) ` set msgs)"

definition told_heights :: "string \<Rightarrow> string \<Rightarrow> observed_block list \<Rightarrow> notification list list \<Rightarrow> int list" where
  "told_heights n a bs sent = map (block_num \<circ> fst) (filter (told_wallet n a) (zip bs sent))"

lemma told_heights_Cons [simp]:
  "told_heights n a (b # bs) (msgs # sent) =
     (if told_wallet n a (b, msgs) then block_num b # told_heights n a bs sent else told_heights n a bs sent)"
  by (simp add: told_heights_def)

lemma told_heights_subset: "set (told_heights n a bs sent) \<subseteq> set (map block_num (of_net n bs))"
  by (auto simp: told_heights_def told_wallet_def of_net_def dest: set_zip_leftD)

lemma told_heights_ascend:
  assumes "length sent = length bs" and "sorted_wrt (<) (map block_num (of_net n bs))"
  shows "sorted_wrt (<) (told_heights n a bs sent)"
  using assms
proof (induction sent bs rule: list_induct2)
  case (Cons msgs sent b bs)
  then show ?case
    using told_heights_subset [of n a bs sent]
    by (cases "ob_network b = n") (auto simp: told_wallet_def of_net_def)
qed (simp add: told_heights_def)

lemma processed_all [simp]: "processed_blocks (map Some bs) = bs"
  by (induction bs) simp_all

section \<open>A block with a transaction\<close>

text \<open>The sender of the transaction in the blocks of \<open>full_node\<close> is registered on Redis.\<close>

definition sender_world :: memory_site where
  "sender_world =
     deploy_world\<lparr>at_redis := mem_empty\<lparr>rm_sets := (\<lambda>_. {})(walletStorageKey eth_net := {''0xa''})\<rparr>\<rparr>"

abbreviation sender_block :: observed_block where
  "sender_block \<equiv> \<lparr>ob_network = eth_net, ob_block = full_node_block (hex_of 1)\<rparr>"

lemma sender_told:
  "\<exists>w'. notify_watched_transactions plain_orders demo_ww (map_observed_to_wallet_block sender_block) sender_world = (None, w')"
proof -
  let ?txs = "[demo_tx ''0x7'' ''0xa'' ''0xf'']"
  let ?b = "map_observed_to_wallet_block sender_block"
  have b: "wb_network ?b = eth_net" "wb_hash ?b = ''h''" "wb_transactions ?b = ?txs"
    by (simp_all add: map_observed_to_wallet_block_def full_node_block_def demo_tx_def convert_transaction_def)
  obtain p where c: "ig_claim (wsv_guard demo_ww) eth_net ''h'' 60 sender_world = (None, sender_world\<lparr>at_pg := p\<rparr>)"
    "pg_fates p = []"
    by (simp add: demo_ww_def guard_on_def on_part_def pg_simps sender_world_def deploy_world_def)
  let ?w = "sender_world\<lparr>at_pg := p\<rparr>"
  have "redis_filter_watched_wallets memory_redis eth_net [''0xa'', ''0xf''] (at_redis ?w) = (Inr [''0xa''], at_redis ?w)"
    by (simp add: sender_world_def redis_filter_watched_wallets_def mem_simps)
  then have f: "ws_filter (wsv_storage demo_ww) eth_net [''0xa'', ''0xf''] ?w = (Inr [''0xa''], ?w)"
    by (simp add: demo_ww_def redis_watch_def redis_filter_on [OF site_parts(2)] on_part_def)
  have "set_to_slice (io_slice plain_orders) (ix_wallets (index_txs ?txs)) = [''0xa'', ''0xf'']"
    and "dm_to_map (match_wallets (io_hashes plain_orders) (ix_txs (index_txs ?txs)) 0 [''0xa'']
      (ix_by_wallet (index_txs ?txs)) (new_default_map (\<lambda>_. []))) = [(''0xa'', ?txs)]"
    by code_simp+
  with f have g: "get_transactions_by_wallet plain_orders (wsv_storage demo_ww) eth_net ?txs ?w = (Inr [(''0xa'', ?txs)], ?w)"
    by (simp add: get_transactions_by_wallet_def plain_orders_def)
  obtain w1 where n: "tn_notify (wsv_notifier demo_ww) eth_net ''0xa'' ?txs ?w = (None, w1)"
    by (simp add: demo_ww_def streams_on_def on_part_def rmsg_as_tx_notifier_def rmsg_notify_transactions_def
        rmsg_txs_message_def memory_streams_def memory_xadd_def sender_world_def deploy_world_def Let_def)
  obtain e w2 where m: "ig_mark (wsv_guard demo_ww) eth_net ''h'' w1 = (e, w2)" by (metis surj_pair)
  have "wsv_maxProcessingTime demo_ww = 60" by (simp add: demo_ww_def)
  then have "notify_watched_transactions plain_orders demo_ww ?b sender_world = (None, w2)"
    using b c(1) g n m by (simp add: notify_watched_transactions_def notify_watched_wallet_transactions_def plain_orders_def)
  then show ?thesis by blast
qed

section \<open>Property\<close>



section \<open>A retry and a restart\<close>

text \<open>The fetch of height 1 fails, height 2 passes, then a retry fetches height 1.\<close>

definition second_block :: cs_block where
  "second_block = \<lparr>blk_height = ''0x2'', blk_hash = ''h'', blk_transactions = []\<rparr>"

definition late_run :: "move list" where
  "late_run =
     [MEmit eth_net bad_event, MDisp eth_net 0, MDisp eth_net 0,
      MEmit eth_net \<lparr>ev_height = ''0x2'', ev_block = second_block, ev_err = None\<rparr>, MDisp eth_net 0, MDisp eth_net 0,
      MCkpt 0, MCkpt 0, MCkpt 0, MConsume,
      MRetry ExecPanics 0, MRetry (Fetched demo_block) 0, MRetry ExecPanics 0, MRetry ExecPanics 0,
      MCkpt 0, MCkpt 0, MCkpt 0, MConsume]"

lemma late_run_end:
  "\<exists>s. exec_moves (demo_params (Some [])) late_run (cs_init True demo_cap) = Some s \<and>
       st_delivered s = [\<lparr>ob_network = eth_net, ob_block = second_block\<rparr>, \<lparr>ob_network = eth_net, ob_block = demo_block\<rparr>] \<and>
       st_saved s = [(eth_net, ''0x2''), (eth_net, ''0x1'')]"
  by (rule case_option_ex) code_simp

text \<open>Where a start resumes behind saves that all succeed.\<close>

definition resumes_at :: "'w checkpoint_storage \<Rightarrow> string \<Rightarrow> (string \<times> hex) list \<Rightarrow> 'w \<Rightarrow> hex \<Rightarrow> bool" where
  "resumes_at store n log w start \<longleftrightarrow>
     (\<exists>w' h w''. save_log store log w = Val (True, w') \<and> cks_load store n w' = ((h, None), w'') \<and>
        start_height h = Val start)"

lemma late_hex: "''0x1'' = hex_of 1" "''0x2'' = hex_of 2" "''0x3'' = hex_of 3"
  by code_simp+

lemma late_redis:
  "resumes_at (redis_checkpoint_storage memory_redis) eth_net [(eth_net, ''0x2''), (eth_net, ''0x1'')] mem_empty ''0x2''"
proof -
  let ?k = "chainstreamCheckpointKey eth_net"
  let ?w = "mem_put ?k ''0x1'' 0 (mem_put ?k ''0x2'' 0 mem_empty)"
  have put: "redis_save_checkpoint memory_redis eth_net h w = Val (None, mem_put ?k h 0 w)" for h w
    by (simp add: redis_save_checkpoint_def memory_redis_def hex_string_def)
  have s: "save_log (redis_checkpoint_storage memory_redis) [(eth_net, ''0x2''), (eth_net, ''0x1'')] mem_empty = Val (True, ?w)"
    by (simp only: save_log.simps redis_checkpoint_storage_def checkpoint_storage.simps put bind_outcome.simps prod.case
        simp_thms)
  have v: "hex_from_string ''0x1'' = Inr ''0x1''" unfolding late_hex by (rule hex_from_string_nonneg) simp
  have live: "redis_live (rm_clock ?w) (rm_strings ?w ?k) = Some ''0x1''" "rm_sets ?w ?k = {}"
    by (simp_all add: mem_simps)
  have "cks_load (redis_checkpoint_storage memory_redis) eth_net ?w = ((''0x1'', None), ?w)"
    unfolding redis_checkpoint_storage_def redis_load_latest_checkpoint_def memory_redis_def redis.simps
      checkpoint_storage.simps live by (simp add: v)
  moreover have "start_height ''0x1'' = Val ''0x2''" unfolding late_hex using start_behind [of 1] by simp
  ultimately show ?thesis using s unfolding resumes_at_def by blast
qed

lemma late_pg: "resumes_at pg_checkpoint_storage eth_net [(eth_net, ''0x2''), (eth_net, ''0x1'')] pg_empty ''0x3''"
proof -
  let ?row = "\<lambda>i. \<lparr>cr_network = to_upper eth_net, cr_height = i :: int64\<rparr>"
  let ?w = "pg_empty\<lparr>pg_checkpoints := [?row 2, ?row 1]\<rparr>"
  have i: "hex_int ''0x2'' = Val 2" "hex_int ''0x1'' = Val 1"
    using hex_int_hex_of [of 2] hex_int_hex_of [of 1] by (simp_all add: late_hex)
  have s1: "pg_save_checkpoint eth_net ''0x2'' pg_empty = Val (None, pg_empty\<lparr>pg_checkpoints := [?row 2]\<rparr>)"
    unfolding pg_save_checkpoint_def i
    by (simp add: insert_checkpoint_if_not_exists_def pg_exec_def pg_empty_def Let_def)
  have s2: "pg_save_checkpoint eth_net ''0x1'' (pg_empty\<lparr>pg_checkpoints := [?row 2]\<rparr>) = Val (None, ?w)"
    unfolding pg_save_checkpoint_def i
    by (simp add: insert_checkpoint_if_not_exists_def pg_exec_def pg_empty_def Let_def)
  have s: "save_log pg_checkpoint_storage [(eth_net, ''0x2''), (eth_net, ''0x1'')] pg_empty = Val (True, ?w)"
    by (simp only: save_log.simps pg_checkpoint_storage_def checkpoint_storage.simps s1 s2 bind_outcome.simps prod.case
        simp_thms)
  have l: "cks_load pg_checkpoint_storage eth_net ?w = ((hex_from_int 2, None), ?w)"
    by (simp add: pg_checkpoint_storage_def pg_load_latest_checkpoint_def get_latest_checkpoint_by_network_def
        pg_exec_def pg_empty_def)
  moreover have "start_height (hex_from_int 2) = Val ''0x3''" unfolding late_hex using start_behind [of 2] by simp
  ultimately show ?thesis using s unfolding resumes_at_def by blast
qed

text \<open>
  C27. A retry moves the checkpoint of Redis back. The fetch of height 1 fails, height 2 is delivered, then the
  retry fetches height 1, and it is delivered. Each block had its checkpoint saved before, so that of height 1 is the
  last. On Postgres the next start resumes at height 3, on Redis at height 2, whose block is delivered a second time.
\<close>

theorem late_checkpoint_moves_redis_back:
  "\<exists>s. cs_reachable (demo_params (Some [])) True demo_cap s \<and>
       map (blk_height \<circ> ob_block) (st_delivered s) = [''0x2'', ''0x1''] \<and>
       resumes_at pg_checkpoint_storage eth_net (st_saved s) pg_empty ''0x3'' \<and>
       resumes_at (redis_checkpoint_storage memory_redis) eth_net (st_saved s) mem_empty ''0x2''"
proof -
  obtain s where run: "exec_moves (demo_params (Some [])) late_run (cs_init True demo_cap) = Some s"
    and d: "st_delivered s = [\<lparr>ob_network = eth_net, ob_block = second_block\<rparr>, \<lparr>ob_network = eth_net, ob_block = demo_block\<rparr>]"
    and saved: "st_saved s = [(eth_net, ''0x2''), (eth_net, ''0x1'')]"
    using late_run_end by blast
  have "cs_reachable (demo_params (Some [])) True demo_cap s" by (rule exec_from_init [OF run])
  moreover have "map (blk_height \<circ> ob_block) (st_delivered s) = [''0x2'', ''0x1'']"
    by (simp add: d second_block_def demo_block_def)
  ultimately show ?thesis using saved late_pg late_redis by auto
qed

end
