(* ===== verification/Commands.thy ===== *)
theory Commands
  imports Bootstrap
begin

text \<open>
  \<^verbatim>\<open>internal/handlers/cli\<close> and \<^verbatim>\<open>internal/bootstrap/cli.go\<close>. The library that parses the command line is
  outside the repository; a command is its name, its flags and its action. The action of \<^verbatim>\<open>start\<close>
  runs along with \<^verbatim>\<open>os/signal\<close>, which sends into the channel \<^verbatim>\<open>quit\<close> without blocking for as long as the
  channel is registered: both are steps on one state.
\<close>

section \<open>The start command\<close>

datatype signal = SIGINT | SIGTERM

text \<open>
  Where the action is: before \<^verbatim>\<open>signal.Notify\<close>, before \<^verbatim>\<open>bp.Start\<close>, at \<^verbatim>\<open><-quit\<close>, at the deferred
  \<^verbatim>\<open>bp.Close\<close> and \<^verbatim>\<open>close(quit)\<close> with the value to be returned, returned. The others are ends of the
  process: by the default disposition of a signal, by a panic of the action, by one of the
  goroutine that sends the signals.
\<close>

datatype start_phase =
    AtNotify | AtStart | AtQuit | AtClose | AtCloseQuit "gerr option" | Returned "gerr option"
  | Killed | ActionPanic | SignalPanic

record 'w start_state =
  sa_quit :: "signal chan option"
  sa_notified :: bool
  sa_service :: "'w bp_service"
  sa_world :: 'w
  sa_phase :: start_phase

definition start_action_init :: "'w bp_service \<Rightarrow> 'w \<Rightarrow> 'w start_state" where
  "start_action_init bp w =
     \<lparr>sa_quit = Some (make_chan 1), sa_notified = False, sa_service = bp, sa_world = w, sa_phase = AtNotify\<rparr>"

fun start_action_step ::
    "((string \<times> 'w blockchain) list \<Rightarrow> (string \<times> 'w blockchain) list) \<Rightarrow> 'w start_state \<Rightarrow> 'w start_state option" where
  "start_action_step ord s =
     (case sa_phase s of
        AtNotify \<Rightarrow> Some (s\<lparr>sa_notified := True, sa_phase := AtStart\<rparr>)
      | AtStart \<Rightarrow>
          (case bp_start ord (sa_service s) (sa_world s) of
             Panic \<Rightarrow> Some (s\<lparr>sa_phase := ActionPanic\<rparr>)
           | Val (Inl err, bp, w) \<Rightarrow>
               Some (s\<lparr>sa_service := bp, sa_world := w, sa_phase := AtCloseQuit (Some err)\<rparr>)
           | Val (Inr st, bp, w) \<Rightarrow> Some (s\<lparr>sa_service := bp, sa_world := w, sa_phase := AtQuit\<rparr>))
      | AtQuit \<Rightarrow>
          (case recv_case (sa_quit s) of
             [] \<Rightarrow> None
           | (sig, quit) # _ \<Rightarrow> Some (s\<lparr>sa_quit := quit, sa_phase := AtClose\<rparr>))
      | AtClose \<Rightarrow>
          (case bp_close (sa_service s) of
             Panic \<Rightarrow> Some (s\<lparr>sa_phase := ActionPanic\<rparr>)
           | Val bp \<Rightarrow> Some (s\<lparr>sa_service := bp, sa_phase := AtCloseQuit None\<rparr>))
      | AtCloseQuit r \<Rightarrow>
          (case chan_close (sa_quit s) of
             Panic \<Rightarrow> Some (s\<lparr>sa_phase := ActionPanic\<rparr>)
           | Val quit \<Rightarrow> Some (s\<lparr>sa_quit := quit, sa_phase := Returned r\<rparr>))
      | _ \<Rightarrow> None)"

declare start_action_step.simps [simp del]

definition ended :: "start_phase \<Rightarrow> bool" where
  "ended p \<longleftrightarrow> p = Killed \<or> p = ActionPanic \<or> p = SignalPanic"

text \<open>A signal is sent if there is room, dropped if there is none; sending on a closed channel panics.\<close>

definition deliver :: "signal \<Rightarrow> 'w start_state \<Rightarrow> 'w start_state" where
  "deliver sig s =
     (if ended (sa_phase s) then s
      else if \<not> sa_notified s then s\<lparr>sa_phase := Killed\<rparr>
      else case send_case (sa_quit s) sig of
             [] \<Rightarrow> s
           | Val quit # _ \<Rightarrow> s\<lparr>sa_quit := quit\<rparr>
           | Panic # _ \<Rightarrow> s\<lparr>sa_phase := SignalPanic\<rparr>)"

datatype start_event = Proceeds | Signalled signal

text \<open>The runs of the action, with what happened in them, latest first.\<close>

inductive start_run ::
    "((string \<times> 'w blockchain) list \<Rightarrow> (string \<times> 'w blockchain) list) \<Rightarrow> 'w bp_service \<Rightarrow> 'w \<Rightarrow>
     start_event list \<Rightarrow> 'w start_state \<Rightarrow> bool" for ord bp w where
  run_init: "start_run ord bp w [] (start_action_init bp w)"
| run_step: "start_run ord bp w es s \<Longrightarrow> start_action_step ord s = Some s' \<Longrightarrow> start_run ord bp w (Proceeds # es) s'"
| run_signal: "start_run ord bp w es s \<Longrightarrow> start_run ord bp w (Signalled sig # es) (deliver sig s)"

section \<open>The wallet commands\<close>

record cli_flag =
  cl_name :: string
  cl_required :: bool

text \<open>The action of \<^verbatim>\<open>start\<close> is the machine above, on its service; the others are calls.\<close>

datatype 'w cli_action = CallAction "(string \<Rightarrow> string) \<Rightarrow> 'w \<Rightarrow> gerr option \<times> 'w" | StartAction "'w bp_service"

record 'w cli_command =
  cc_name :: string
  cc_flags :: "cli_flag list"
  cc_action :: "'w cli_action"

definition startPipelineCommand :: "'w bp_service \<Rightarrow> 'w cli_command" where
  "startPipelineCommand bp = \<lparr>cc_name = ''start'', cc_flags = [], cc_action = StartAction bp\<rparr>"

definition startWatchingWalletCommand :: "'w wr_service \<Rightarrow> 'w cli_command" where
  "startWatchingWalletCommand wr =
     \<lparr>cc_name = ''watch'',
      cc_flags = [\<lparr>cl_name = ''network'', cl_required = True\<rparr>, \<lparr>cl_name = ''address'', cl_required = True\<rparr>],
      cc_action = CallAction (\<lambda>c w. start_watching wr (c ''network'') (c ''address'') w)\<rparr>"

definition stopWatchingWalletCommand :: "'w wr_service \<Rightarrow> 'w cli_command" where
  "stopWatchingWalletCommand wr =
     \<lparr>cc_name = ''unwatch'',
      cc_flags = [\<lparr>cl_name = ''network'', cl_required = True\<rparr>, \<lparr>cl_name = ''address'', cl_required = True\<rparr>],
      cc_action = CallAction (\<lambda>c w. stop_watching wr (c ''network'') (c ''address'') w)\<rparr>"

text \<open>\<^verbatim>\<open>Run\<close> hands the commands to the library, which finds the one named and checks its flags.\<close>

definition cli_commands :: "'w wr_service \<Rightarrow> 'w bp_service \<Rightarrow> 'w cli_command list" where
  "cli_commands wr bp = [startPipelineCommand bp, startWatchingWalletCommand wr, stopWatchingWalletCommand wr]"

definition bootstrap_cli :: "'w bootstrap \<Rightarrow> 'w cli_command list" where
  "bootstrap_cli b = cli_commands (bt_walletregistry b) (bt_blockproc b)"

section \<open>Lemmas\<close>

definition signalled :: "start_event list \<Rightarrow> bool" where
  "signalled es \<longleftrightarrow> (\<exists>sig. Signalled sig \<in> set es)"

lemma signalled_simps [simp]:
  "\<not> signalled []" "signalled (Proceeds # es) \<longleftrightarrow> signalled es" "signalled (Signalled sig # es)"
  by (auto simp: signalled_def)

text \<open>What holds in each phase; \<open>quit\<close> is open until the end and holds the first signal until it is read.\<close>

definition quit_open :: "bool \<Rightarrow> signal chan option \<Rightarrow> bool" where
  "quit_open full q \<longleftrightarrow>
     (\<exists>c. q = Some c \<and> \<not> ch_closed c \<and> ch_cap c = 1 \<and> length (ch_buf c) \<le> 1 \<and> (full \<longrightarrow> ch_buf c \<noteq> []))"

definition outcome_of ::
    "((string \<times> 'w blockchain) list \<Rightarrow> (string \<times> 'w blockchain) list) \<Rightarrow> 'w bp_service \<Rightarrow> 'w \<Rightarrow>
     gerr option \<Rightarrow> start_event list \<Rightarrow> 'w bp_service \<Rightarrow> bool" where
  "outcome_of ord bp w r es bp' \<longleftrightarrow>
     (case r of
        None \<Rightarrow> signalled es \<and> bp' = bp
      | Some e \<Rightarrow> \<exists>w'. bp_start ord bp w = Val (Inl e, bp', w'))"

definition start_inv ::
    "((string \<times> 'w blockchain) list \<Rightarrow> (string \<times> 'w blockchain) list) \<Rightarrow> 'w bp_service \<Rightarrow> 'w \<Rightarrow>
     start_event list \<Rightarrow> 'w start_state \<Rightarrow> bool" where
  "start_inv ord bp w es s \<longleftrightarrow>
     (case sa_phase s of
        AtNotify \<Rightarrow> \<not> sa_notified s \<and> \<not> signalled es \<and> sa_quit s = Some (make_chan 1) \<and> sa_service s = bp \<and> sa_world s = w
      | AtStart \<Rightarrow> sa_notified s \<and> quit_open (signalled es) (sa_quit s) \<and> sa_service s = bp \<and> sa_world s = w \<and>
          (\<not> signalled es \<longrightarrow> recv_case (sa_quit s) = [])
      | AtQuit \<Rightarrow> sa_notified s \<and> quit_open (signalled es) (sa_quit s) \<and> bp_close (sa_service s) = Val bp \<and>
          (\<not> signalled es \<longrightarrow> recv_case (sa_quit s) = [])
      | AtClose \<Rightarrow> sa_notified s \<and> quit_open False (sa_quit s) \<and> bp_close (sa_service s) = Val bp \<and> signalled es
      | AtCloseQuit r \<Rightarrow> sa_notified s \<and> quit_open False (sa_quit s) \<and> outcome_of ord bp w r es (sa_service s)
      | Returned r \<Rightarrow> sa_notified s \<and> (\<exists>c. sa_quit s = Some c \<and> ch_closed c) \<and> outcome_of ord bp w r es (sa_service s)
      | Killed \<Rightarrow> signalled es
      | ActionPanic \<Rightarrow> bp_start ord bp w = Panic
      | SignalPanic \<Rightarrow> signalled es)"

definition fresh_service :: "'w bp_service \<Rightarrow> bool" where
  "fresh_service bp \<longleftrightarrow>
     \<not> bps_started bp \<and> \<not> bps_close bp \<and> \<not> svc_started (bps_chainstream bp) \<and> svc_close (bps_chainstream bp) = None"

text \<open>The service that \<^verbatim>\<open>New\<close> builds has not been started.\<close>

lemma bootstrapped_fresh: "stream_wired D es c cs s \<Longrightarrow> fresh_service (bp_new cs ww)"
  by (simp add: stream_wired_def fresh_service_def bp_new_def)

lemma started_service_closes:
  assumes "bp_start ord bp w = Val (Inr st, bp', w')" "fresh_service bp"
  shows "bp_close bp' = Val bp"
proof -
  from assms(1) obtain cs where c: "cs_start ord (bps_chainstream bp) w = Val (Inr st, cs, w')"
    "bp' = bp\<lparr>bps_chainstream := cs, bps_close := True, bps_started := True\<rparr>"
    by (rule bp_start_success)
  have "cs_close cs = Val (bps_chainstream bp)"
    using cs_started_close [OF c(1)] assms(2) by (cases "bps_chainstream bp") (simp add: fresh_service_def)
  with c(2) assms(2) show ?thesis by (cases bp) (simp add: bp_close_def fresh_service_def)
qed

lemma start_inv_step:
  assumes "start_inv ord bp w es s" "start_action_step ord s = Some s'" "fresh_service bp"
  shows "start_inv ord bp w (Proceeds # es) s'"
proof (cases "sa_phase s")
  case AtStart
  show ?thesis
  proof (cases "bp_start ord bp w")
    case (Val x)
    obtain r bp' w' where x: "x = (r, bp', w')" by (cases x)
    show ?thesis
    proof (cases r)
      case (Inl e)
      then show ?thesis using assms AtStart Val x
        by (auto simp: start_inv_def start_action_step.simps outcome_of_def quit_open_def)
    next
      case (Inr st)
      then show ?thesis using assms AtStart Val x started_service_closes [of ord bp w st bp' w']
        by (auto simp: start_inv_def start_action_step.simps)
    qed
  qed (use assms AtStart in \<open>auto simp: start_inv_def start_action_step.simps\<close>)
next
  case AtQuit
  then show ?thesis using assms
    by (auto simp: start_inv_def start_action_step.simps quit_open_def split: list.splits if_splits)
next
  case (AtCloseQuit r)
  then show ?thesis using assms
    by (auto simp: start_inv_def start_action_step.simps quit_open_def outcome_of_def split: option.splits if_splits)
qed (use assms in \<open>auto simp: start_inv_def start_action_step.simps outcome_of_def quit_open_def\<close>)

lemma quit_open_send:
  assumes "quit_open full q"
  shows "case send_case q sig of
      [] \<Rightarrow> quit_open True q
    | Val q' # _ \<Rightarrow> quit_open True q'
    | Panic # _ \<Rightarrow> False"
  using assms by (auto simp: quit_open_def)

lemma quit_open_weaken: "quit_open b q \<Longrightarrow> quit_open False q"
  by (auto simp: quit_open_def)

lemma outcome_of_signal: "outcome_of ord bp w r es bp' \<Longrightarrow> outcome_of ord bp w r (Signalled sig # es) bp'"
  by (simp add: outcome_of_def split: option.splits)

lemma start_inv_signal:
  assumes "start_inv ord bp w es s"
  shows "start_inv ord bp w (Signalled sig # es) (deliver sig s)"
proof (cases "sa_phase s")
  case (Returned r)
  then show ?thesis using assms by (auto simp: start_inv_def deliver_def ended_def)
next
  case (AtCloseQuit r)
  then show ?thesis using assms quit_open_send [of False "sa_quit s" sig]
    by (auto simp: start_inv_def deliver_def ended_def intro: outcome_of_signal quit_open_weaken
        split: list.splits outcome.splits)
qed (use assms quit_open_send [of "signalled es" "sa_quit s" sig] quit_open_send [of False "sa_quit s" sig] in
      \<open>auto simp: start_inv_def deliver_def ended_def intro: quit_open_weaken split: list.splits outcome.splits\<close>)

lemma start_run_inv: "start_run ord bp w es s \<Longrightarrow> fresh_service bp \<Longrightarrow> start_inv ord bp w es s"
proof (induction rule: start_run.induct)
  case run_init
  then show ?case by (simp add: start_inv_def start_action_init_def quit_open_def)
qed (auto intro: start_inv_step start_inv_signal)

section \<open>Properties\<close>

text \<open>
  C17. The command \<^verbatim>\<open>start\<close> ends exactly when it should, on every interleaving with signals: as long as
  no signal has been sent it waits at \<^verbatim>\<open>quit\<close>; a signal sent at any time after \<^verbatim>\<open>signal.Notify\<close>, even before the
  wait or while another is pending, lets it go on; it returns nil only after a signal and with the service
  closed, and an error only if it is that of \<^verbatim>\<open>bp.Start\<close>; closing \<^verbatim>\<open>quit\<close> or the service never panics.
\<close>

theorem start_command_ends:
  assumes "start_run ord bp w es s" "fresh_service bp"
  shows "case sa_phase s of
      AtQuit \<Rightarrow> start_action_step ord s \<noteq> None \<longleftrightarrow> (\<exists>sig. Signalled sig \<in> set es)
    | Returned None \<Rightarrow> (\<exists>sig. Signalled sig \<in> set es) \<and> sa_service s = bp
    | Returned (Some e) \<Rightarrow> \<exists>w'. bp_start ord bp w = Val (Inl e, sa_service s, w')
    | ActionPanic \<Rightarrow> bp_start ord bp w = Panic
    | Killed \<Rightarrow> \<exists>sig. Signalled sig \<in> set es
    | SignalPanic \<Rightarrow> \<exists>sig. Signalled sig \<in> set es
    | _ \<Rightarrow> start_action_step ord s \<noteq> None"
  using start_run_inv [OF assms]
  by (cases "sa_phase s")
     (auto simp: start_inv_def signalled_def outcome_of_def start_action_step.simps quit_open_def
       split: option.splits list.splits outcome.splits sum.splits)

text \<open>
  C36. The channel is closed while it is still registered: a signal after the return, before the
  process is gone, is a panic of the signal goroutine.
\<close>

theorem signal_after_return_panics:
  assumes "start_run ord bp w es s" "fresh_service bp" "sa_phase s = Returned r"
  shows "sa_phase (deliver sig s) = SignalPanic"
  using start_run_inv [OF assms(1,2)] assms(3) by (auto simp: start_inv_def deliver_def ended_def)

text \<open>The run in which one signal comes while the command waits.\<close>

lemma start_run_returns:
  assumes "bp_start ord bp w = Val (Inr st, bp', w')" "fresh_service bp"
  shows "\<exists>es s. start_run ord bp w es s \<and> sa_phase s = Returned None"
proof -
  let ?q = "make_chan 1 :: signal chan"
  let ?s = "\<lambda>q n b v p. \<lparr>sa_quit = Some q, sa_notified = n, sa_service = b, sa_world = v, sa_phase = p\<rparr>"
  have "start_run ord bp w [] (?s ?q False bp w AtNotify)"
    using run_init [of ord bp w] by (simp add: start_action_init_def)
  then have "start_run ord bp w [Proceeds] (?s ?q True bp w AtStart)"
    by (rule run_step) (simp add: start_action_step.simps)
  then have "start_run ord bp w [Proceeds, Proceeds] (?s ?q True bp' w' AtQuit)"
    by (rule run_step) (simp add: start_action_step.simps assms(1))
  then have "start_run ord bp w [Signalled SIGTERM, Proceeds, Proceeds]
      (deliver SIGTERM (?s ?q True bp' w' AtQuit))" by (rule run_signal)
  then have "start_run ord bp w [Signalled SIGTERM, Proceeds, Proceeds]
      (?s (?q\<lparr>ch_buf := [SIGTERM]\<rparr>) True bp' w' AtQuit)" by (simp add: deliver_def ended_def)
  then have "start_run ord bp w [Proceeds, Signalled SIGTERM, Proceeds, Proceeds] (?s ?q True bp' w' AtClose)"
    by (rule run_step) (simp add: start_action_step.simps make_chan_def)
  then have "start_run ord bp w [Proceeds, Proceeds, Signalled SIGTERM, Proceeds, Proceeds]
      (?s ?q True bp w' (AtCloseQuit None))"
    by (rule run_step) (simp add: start_action_step.simps started_service_closes [OF assms])
  then have "start_run ord bp w [Proceeds, Proceeds, Proceeds, Signalled SIGTERM, Proceeds, Proceeds]
      (?s (?q\<lparr>ch_closed := True\<rparr>) True bp w' (Returned None))"
    by (rule run_step) (simp add: start_action_step.simps)
  then show ?thesis by fastforce
qed

definition demo_start :: "unit bp_service" where
  "demo_start = bp_new (demo_service steady_client) idle_watch"

lemma demo_start_fresh: "fresh_service demo_start"
  by (simp add: demo_start_def fresh_service_def bp_new_def demo_service_def cs_new_def)

lemma demo_start_returns: "\<exists>es s. start_run (\<lambda>xs. xs) demo_start () es s \<and> sa_phase s = Returned None"
proof -
  obtain st bp' where "bp_start (\<lambda>xs. xs) demo_start () = Val (Inr st, bp', ())"
    using demo_service_start by (simp add: demo_start_def bp_start_def bp_new_def)
  from start_run_returns [OF this demo_start_fresh] show ?thesis .
qed

theorem start_command_ends_witness:
  "\<exists>es s. start_run (\<lambda>xs. xs) demo_start () es s \<and> (\<exists>sig. Signalled sig \<in> set es) \<and> sa_service s = demo_start"
proof -
  obtain es s where "start_run (\<lambda>xs. xs) demo_start () es s" "sa_phase s = Returned None" using demo_start_returns by blast
  with start_command_ends [OF this(1) demo_start_fresh] show ?thesis by (intro exI [of _ es] exI [of _ s]) simp
qed

theorem signal_after_return_panics_witness:
  "\<exists>es s. start_run (\<lambda>xs. xs) demo_start () es s \<and> sa_phase (deliver SIGINT s) = SignalPanic"
proof -
  obtain es s where s: "start_run (\<lambda>xs. xs) demo_start () es s" "sa_phase s = Returned None" using demo_start_returns by blast
  with signal_after_return_panics [OF s(1) demo_start_fresh s(2), of SIGINT] show ?thesis by blast
qed

text \<open>The wallet commands hand their two flags to the service, in this order.\<close>

lemma wallet_commands:
  assumes "c ''network'' \<noteq> ''''" "c ''address'' \<noteq> ''''"
  shows "\<exists>f. cc_action (startWatchingWalletCommand wr) = CallAction f \<and>
           f c w = rs_register (wrs_storage wr) \<lparr>wid_network = c ''network'', wid_address = c ''address''\<rparr> w"
    and "\<exists>f. cc_action (stopWatchingWalletCommand wr) = CallAction f \<and>
           f c w = rs_unregister (wrs_storage wr) \<lparr>wid_network = c ''network'', wid_address = c ''address''\<rparr> w"
  using watching_valid [OF assms] by (simp_all add: startWatchingWalletCommand_def stopWatchingWalletCommand_def)

end
