(* ===== verification/Connections.thy ===== *)
theory Connections
  imports Bootstrap
begin

text \<open>
  The connections that \<^verbatim>\<open>bootstrap\<close> opens and closes. The locale states what the drivers do to the number of open
  connections; then every one that \<^verbatim>\<open>New\<close> opens is tracked in a package variable, and \<^verbatim>\<open>Close\<close> closes all
  of them, each once, also when closing one fails.
\<close>

section \<open>The contract of the drivers\<close>

text \<open>
  A connection is open from the success of the call that opens it to the call that closes it, whatever that returns. A
  channel of RabbitMQ is none.
\<close>

lemma sum_case_Inr:
  assumes "(case r of Inl e \<Rightarrow> F e | Inr x \<Rightarrow> G x) = v" and "\<And>e. F e \<noteq> v"
  obtains x where "r = Inr x" "G x = v"
  using assms by (cases r) auto

locale connections =
  fixes D :: "'w drivers"
    and live :: "'w \<Rightarrow> int"
  assumes redis_opens: "rd_ping (sd_redis (dv_storage D) c) w = (None, w') \<Longrightarrow> live w' = live w + 1"
    and redis_closes: "rd_close (sd_redis (dv_storage D) c) w = (r, w') \<Longrightarrow> live w' = live w - 1"
    and pool_opens: "pp_new (sd_pool (dv_storage D) d) w = (None, w') \<Longrightarrow> live w' = live w + 1"
    and pool_closes: "live (pp_close (sd_pool (dv_storage D) d) w) = live w - 1"
    and streams_opens: "sx_ping (md_streams (dv_messaging D) c) w = (None, w') \<Longrightarrow> live w' = live w + 1"
    and streams_closes: "sx_close (md_streams (dv_messaging D) c) w = (r, w') \<Longrightarrow> live w' = live w - 1"
    and amqp_opens: "am_dial (md_amqp (dv_messaging D) m) uri w = (None, w') \<Longrightarrow> live w' = live w + 1"
    and amqp_channels: "am_open_channel (md_amqp (dv_messaging D) m) w = (r, w') \<Longrightarrow> live w' = live w"
      "am_close_channel (md_amqp (dv_messaging D) m) w = (r, w') \<Longrightarrow> live w' = live w"
    and amqp_closes: "am_close_conn (md_amqp (dv_messaging D) m) w = (r, w') \<Longrightarrow> live w' = live w - 1"
begin

definition closes :: "('w \<Rightarrow> gerr option \<times> 'w) \<Rightarrow> bool" where
  "closes f \<longleftrightarrow> (\<forall>w r w'. f w = (r, w') \<longrightarrow> live w' = live w - 1)"

text \<open>All that has been opened beyond \<open>base\<close> is tracked.\<close>

definition tracked :: "int \<Rightarrow> 'w boot \<Rightarrow> bool" where
  "tracked base s \<longleftrightarrow>
     live (bo_world s) =
       base + int (length (sts_opened (bo_storage s))) + int (length (mst_opened (bo_messaging s))) \<and>
     (\<forall>c \<in> set (sts_opened (bo_storage s)). closes (stc_close c)) \<and>
     (\<forall>c \<in> set (mst_opened (bo_messaging s)). closes (mq_close c))"

section \<open>Opening\<close>

lemma storage_constructor:
  assumes "map_of (storage_factories (dv_storage D)) n = Some f" and "f cfg w = Val (Inr inst, w')"
  shows "live w' = live w + 1" and "closes (stc_close inst)"
proof -
  have "live w' = live w + 1 \<and> closes (stc_close inst)"
    using assms redis_opens redis_closes pool_opens pool_closes
    by (cases cfg) (auto simp: storage_factories_def closes_def redis_client_def pg_client_def rstore_new_def
        rstore_close_def pg_new_def pg_close_def split: if_splits prod.splits option.splits)
  then show "live w' = live w + 1" "closes (stc_close inst)" by blast+
qed

lemma storage_init_tracked:
  assumes "storage_init_fields (dv_storage D) fs st w = Val (None, st', w')"
    and "\<forall>c \<in> set (sts_opened st). closes (stc_close c)"
  shows "live w' = live w + int (length (sts_opened st')) - int (length (sts_opened st)) \<and>
    (\<forall>c \<in> set (sts_opened st'). closes (stc_close c))"
  using assms
proof (induction fs arbitrary: st w)
  case (Cons fld rest)
  obtain name cfg where fld: "fld = (name, cfg)" by (cases fld)
  show ?case
  proof (cases cfg)
    case None
    with Cons fld show ?thesis by simp
  next
    case (Some c)
    with Cons.prems(1) fld obtain f inst w1 where f: "map_of (storage_factories (dv_storage D)) (to_upper name) = Some f"
      "f c w = Val (Inr inst, w1)"
      "storage_init_fields (dv_storage D) rest (st\<lparr>sts_opened := sts_opened st @ [inst],
         sts_defaults := AList.update (to_upper name) inst (sts_defaults st)\<rparr>) w1 = Val (None, st', w')"
      by (auto simp: Let_def bind_outcome_Val_iff split: option.splits elim!: sum_case_Inr)
    from Cons.IH [OF f(3)] storage_constructor [OF f(1,2)] Cons.prems(2) show ?thesis by auto
  qed
qed simp

lemma storage_resolve_tracked:
  assumes "storage_resolve (dv_storage D) p st w = Val (Inr c, st', w')"
    and "\<forall>c \<in> set (sts_opened st). closes (stc_close c)"
  shows "live w' = live w + int (length (sts_opened st')) - int (length (sts_opened st)) \<and>
    (\<forall>c \<in> set (sts_opened st'). closes (stc_close c))"
proof -
  have flds: "live w' = live w + int (length (sts_opened st')) - int (length (sts_opened st)) \<and>
      (\<forall>c \<in> set (sts_opened st'). closes (stc_close c))"
    if "storage_resolve_fields (dv_storage D) fs st w = Val (Inr c, st', w')" for fs
    using that
  proof (induction fs)
    case (Cons fld rest)
    obtain name cfg where fld: "fld = (name, cfg)" by (cases fld)
    show ?case
    proof (cases cfg)
      case None
      with Cons fld show ?thesis by simp
    next
      case (Some c)
      with Cons.prems fld obtain f inst where f: "map_of (storage_factories (dv_storage D)) (to_upper name) = Some f"
        "f c w = Val (Inr inst, w')" "st' = st\<lparr>sts_opened := sts_opened st @ [inst]\<rparr>"
        by (auto simp: Let_def bind_outcome_Val_iff split: option.splits elim!: sum_case_Inr)
      from storage_constructor [OF f(1,2)] f(3) assms(2) show ?thesis by simp
    qed
  qed simp
  show ?thesis
    using assms flds by (auto simp: storage_resolve_def Let_def split: if_splits option.splits)
qed

lemma messaging_constructor:
  assumes "map_of (messaging_factories (dv_messaging D)) n = Some f" and "mf_build f cfg w = Val (Inr conn, w')"
  shows "live w' = live w + 1" and "closes (mq_close conn)"
proof -
  have x: "live w' = live w + 1" if "rabbit_new (md_amqp (dv_messaging D) m) uri w = (None, w')" for m uri
    using that amqp_opens amqp_channels by (fastforce simp: rabbit_new_def split: prod.splits option.splits)
  have y: "closes (rabbit_close (md_amqp (dv_messaging D) m))" for m
    using amqp_closes amqp_channels by (fastforce simp: closes_def rabbit_close_def split: prod.splits)
  have "live w' = live w + 1 \<and> closes (mq_close conn)"
    using assms streams_opens streams_closes x y
    by (cases cfg) (auto simp: messaging_factories_def redis_messaging_factory_def rabbit_messaging_factory_def closes_def
        rmsg_new_def rmsg_close_def split: if_splits prod.splits option.splits)
  then show "live w' = live w + 1" "closes (mq_close conn)" by blast+
qed

end

context connections
begin

lemma messaging_init_tracked:
  assumes "messaging_init_fields (dv_messaging D) fs st w = Val (None, st', w')"
    and "\<forall>c \<in> set (mst_opened st). closes (mq_close c)"
  shows "live w' = live w + int (length (mst_opened st')) - int (length (mst_opened st)) \<and>
    (\<forall>c \<in> set (mst_opened st'). closes (mq_close c))"
  using assms
proof (induction fs arbitrary: st w)
  case (Cons fld rest)
  obtain name cfg where fld: "fld = (name, cfg)" by (cases fld)
  show ?case
  proof (cases cfg)
    case None
    with Cons fld show ?thesis by simp
  next
    case (Some c)
    with Cons.prems(1) fld obtain f conn w1 where f: "map_of (messaging_factories (dv_messaging D)) (to_upper name) = Some f"
      "mf_build f c w = Val (Inr conn, w1)"
      "messaging_init_fields (dv_messaging D) rest (st\<lparr>mst_defaults := AList.update (to_upper name) conn (mst_defaults st),
         mst_opened := mst_opened st @ [conn]\<rparr>) w1 = Val (None, st', w')"
      by (auto simp: Let_def bind_outcome_Val_iff split: option.splits elim!: sum_case_Inr)
    from Cons.IH [OF f(3)] messaging_constructor [OF f(1,2)] Cons.prems(2) show ?thesis by auto
  qed
qed simp

lemma messaging_resolve_tracked:
  assumes "messaging_resolve (dv_messaging D) adapter p st w = Val (Inr t, st', w')"
    and "\<forall>c \<in> set (mst_opened st). closes (mq_close c)"
  shows "live w' = live w + int (length (mst_opened st')) - int (length (mst_opened st)) \<and>
    (\<forall>c \<in> set (mst_opened st'). closes (mq_close c))"
proof -
  have flds: "live w' = live w + int (length (mst_opened st')) - int (length (mst_opened st)) \<and>
      (\<forall>c \<in> set (mst_opened st'). closes (mq_close c))"
    if "messaging_resolve_fields (dv_messaging D) adapter pubs fs st w = Val (Inr t, st', w')" for pubs fs
    using that
  proof (induction fs)
    case (Cons fld rest)
    obtain name cfg where fld: "fld = (name, cfg)" by (cases fld)
    show ?case
    proof (cases cfg)
      case None
      with Cons fld show ?thesis by simp
    next
      case (Some c)
      with Cons.prems fld obtain f conn where f: "map_of (messaging_factories (dv_messaging D)) (to_upper name) = Some f"
        "mf_build f c w = Val (Inr conn, w')" "st' = st\<lparr>mst_opened := mst_opened st @ [conn]\<rparr>"
        by (auto simp: Let_def bind_outcome_Val_iff split: option.splits elim!: sum_case_Inr)
      from messaging_constructor [OF f(1,2)] f(3) assms(2) show ?thesis by simp
    qed
  qed simp
  show ?thesis
    using assms flds by (auto simp: messaging_resolve_def Let_def bind_outcome_Val_iff split: if_splits option.splits)
qed

text \<open>A step of \<^verbatim>\<open>New\<close> that succeeds keeps everything tracked.\<close>

definition keeps :: "('w, 'a) boot_step \<Rightarrow> bool" where
  "keeps m \<longleftrightarrow> (\<forall>base s x s'. tracked base s \<longrightarrow> m s = Val (Inr x, s') \<longrightarrow> tracked base s')"

lemma keeps_return [intro]: "keeps (boot_return x)"
  by (simp add: keeps_def boot_return_def)

lemma keeps_bind [intro]:
  assumes m: "keeps m" and f: "\<And>x. keeps (f x)"
  shows "keeps (boot_bind m f)"
  unfolding keeps_def
proof (intro allI impI)
  fix base s x s' assume t: "tracked base s" and b: "boot_bind m f s = Val (Inr x, s')"
  from b obtain y s1 where y: "m s = Val (y, s1)" by (cases "m s") (auto simp: boot_bind_def)
  with b obtain z where z: "y = Inr z" "f z s1 = Val (Inr x, s')" by (cases y) (simp_all add: boot_bind_def)
  with y m t have "tracked base s1" unfolding keeps_def by blast
  with z(2) f [of z] show "tracked base s'" unfolding keeps_def by blast
qed

lemma keeps_storage [intro]: "keeps (resolve_storage D p)"
  unfolding keeps_def resolve_storage_def
  by (auto simp: tracked_def bind_outcome_Val_iff dest!: storage_resolve_tracked)

lemma keeps_messaging [intro]: "keeps (resolve_messaging D adapter p)"
  unfolding keeps_def resolve_messaging_def
  by (auto simp: tracked_def bind_outcome_Val_iff dest!: messaging_resolve_tracked)

lemma keeps_option [intro]:
  "keeps n \<Longrightarrow> (\<And>x. keeps (f x)) \<Longrightarrow> keeps (case p of None \<Rightarrow> n | Some x \<Rightarrow> f x)"
  by (cases p) simp_all

lemma keeps_services [intro]:
  "keeps (setup_chain_stream D c1)" "keeps (setup_wallet_watch D c2)" "keeps (setup_wallet_registry D c3)"
  unfolding setup_chain_stream_def setup_wallet_watch_def setup_wallet_registry_def Let_def
  by (intro keeps_bind keeps_option keeps_return keeps_storage keeps_messaging)+

text \<open>\<^verbatim>\<open>Init\<close> of both packages resets their variables.\<close>

lemma storage_init_fresh:
  assumes "boot_storage_init D es s = Val (Inr x, s')" and "mst_opened (bo_messaging s) = []"
  shows "tracked (live (bo_world s)) s'"
  using assms storage_init_tracked [of _ "\<lparr>sts_defaults = [], sts_opened = []\<rparr>"]
  by (fastforce simp: boot_storage_init_def storage_init_def tracked_def bind_outcome_Val_iff split: option.splits)

lemma messaging_init_fresh:
  assumes "boot_messaging_init D es s = Val (Inr x, s')" and "tracked base s" and "mst_opened (bo_messaging s) = []"
  shows "tracked base s'"
  using assms messaging_init_tracked [of _ "\<lparr>mst_defaults = [], mst_opened = []\<rparr>"]
  by (fastforce simp: boot_messaging_init_def messaging_init_def tracked_def bind_outcome_Val_iff split: option.splits)

lemma new_tracked:
  assumes "bootstrap_new D c s = Val (Inr b, s')" and "mst_opened (bo_messaging s) = []"
  shows "tracked (live (bo_world s)) s'"
proof -
  let ?rest = "boot_bind (setup_chain_stream D (cf_chainstream c)) (\<lambda>chainstream.
     boot_bind (setup_wallet_watch D (cf_walletwatch c)) (\<lambda>walletwatch.
     boot_bind (setup_wallet_registry D (cf_walletregistry c)) (\<lambda>walletregistry.
     boot_return
       \<lparr>bt_chainstream = chainstream, bt_walletwatch = walletwatch, bt_walletregistry = walletregistry,
        bt_blockproc = bp_new chainstream walletwatch\<rparr>)))"
  from assms(1) obtain s1 s2 where
    "boot_storage_init D (en_storage (cf_engines c)) s = Val (Inr (), s1)"
    "boot_messaging_init D (en_messaging (cf_engines c)) s1 = Val (Inr (), s2)"
    and r: "?rest s2 = Val (Inr b, s')"
    by (auto simp: bootstrap_new_def boot_bind_def [of "boot_storage_init D _"] boot_bind_def [of "boot_messaging_init D _"]
        bind_outcome_Val_iff elim!: sum_case_Inr)
  moreover have "mst_opened (bo_messaging s1) = []"
    using calculation(1) assms(2) by (auto simp: boot_storage_init_def bind_outcome_Val_iff)
  ultimately have "tracked (live (bo_world s)) s2"
    using storage_init_fresh messaging_init_fresh assms(2) by blast
  moreover have "keeps ?rest" by (intro keeps_bind keeps_return keeps_services)
  ultimately show ?thesis using r unfolding keeps_def by blast
qed

section \<open>Closing\<close>

lemma close_each_live:
  "\<forall>c \<in> set cs. closes (f c) \<Longrightarrow> close_each f cs w = (errs, w') \<Longrightarrow>
     live w' = live w - int (length cs) \<and> length errs = length cs"
proof (induction cs arbitrary: w errs)
  case (Cons c cs)
  obtain e w1 where e: "f c w = (e, w1)" by (metis surj_pair)
  obtain es where es: "close_each f cs w1 = (es, w')" "errs = e # es"
    using Cons.prems(2) e by (auto split: prod.splits)
  have "live w1 = live w - 1" using Cons.prems(1) e by (simp add: closes_def)
  with Cons.IH [OF _ es(1)] Cons.prems(1) es(2) show ?case by simp
qed simp

lemma close_live:
  assumes "tracked base s" and "live w = live (bo_world s)"
  shows "live (bo_world (snd (bootstrap_close (s\<lparr>bo_world := w\<rparr>)))) = base"
proof -
  obtain e1 w1 where c1: "close_each stc_close (sts_opened (bo_storage s)) w = (e1, w1)" by (metis surj_pair)
  obtain e2 w2 where c2: "close_each mq_close (mst_opened (bo_messaging s)) w1 = (e2, w2)" by (metis surj_pair)
  show ?thesis
    using close_each_live [OF _ c1] close_each_live [OF _ c2] c1 c2 assms
    by (simp add: bootstrap_close_def storage_close_def messaging_close_def tracked_def)
qed

text \<open>The services use at least the storage of the wallets, so a connection is open when they are there.\<close>

lemma new_opens:
  assumes "config_load print process env = (c, None)" and "bootstrap_new D c s = Val (Inr b, s')"
    and "mst_opened (bo_messaging s) = []"
  shows "live (bo_world s) < live (bo_world s')"
proof -
  have "registry_wired D (cf_engines c) (cf_walletregistry c) (bt_walletregistry b) s'"
    using bootstrap_result [OF assms(1), of D s] assms(2) by simp
  then have "sts_opened (bo_storage s') \<noteq> []" by (auto simp: registry_wired_def storage_for_def)
  moreover have "tracked (live (bo_world s)) s'" by (rule new_tracked [OF assms(2,3)])
  ultimately show ?thesis by (simp add: tracked_def length_greater_0_conv [symmetric] del: length_greater_0_conv)
qed

end

section \<open>Drivers that count\<close>

text \<open>Any drivers with a counter beside their state, which the calls that open and close a connection change.\<close>

abbreviation put_fst :: "'d \<Rightarrow> 'd \<times> int \<Rightarrow> 'd \<times> int" where
  "put_fst d w \<equiv> (d, snd w)"

definition count_open :: "('d \<Rightarrow> gerr option \<times> 'd) \<Rightarrow> 'd \<times> int \<Rightarrow> gerr option \<times> ('d \<times> int)" where
  "count_open f w = (case f (fst w) of (r, d) \<Rightarrow> (r, (d, if r = None then snd w + 1 else snd w)))"

definition count_close :: "('d \<Rightarrow> 'r \<times> 'd) \<Rightarrow> 'd \<times> int \<Rightarrow> 'r \<times> ('d \<times> int)" where
  "count_close f w = (case f (fst w) of (r, d) \<Rightarrow> (r, (d, snd w - 1)))"

definition counted_pool :: "'d pg_pool \<Rightarrow> ('d \<times> int) pg_pool" where
  "counted_pool L =
     \<lparr>pp_new = count_open (pp_new L), pp_get = pp_get L \<circ> fst, pp_put = (\<lambda>p w. (pp_put L p (fst w), snd w)),
      pp_close = (\<lambda>w. (pp_close L (fst w), snd w - 1))\<rparr>"

definition counted_storage :: "'d storage_drivers \<Rightarrow> ('d \<times> int) storage_drivers" where
  "counted_storage D =
     \<lparr>sd_redis = (\<lambda>c. (redis_on fst put_fst (sd_redis D c))
          \<lparr>rd_ping := count_open (rd_ping (sd_redis D c)), rd_close := count_close (rd_close (sd_redis D c))\<rparr>),
      sd_pool = (\<lambda>c. counted_pool (sd_pool D c))\<rparr>"

definition counted_messaging :: "'d messaging_drivers \<Rightarrow> ('d \<times> int) messaging_drivers" where
  "counted_messaging D =
     \<lparr>md_streams = (\<lambda>c. (streams_on fst put_fst (md_streams D c))
          \<lparr>sx_ping := count_open (sx_ping (md_streams D c)), sx_close := count_close (sx_close (md_streams D c))\<rparr>),
      md_amqp = (\<lambda>c. (amqp_on fst put_fst (md_amqp D c))
          \<lparr>am_dial := (\<lambda>uri. count_open (am_dial (md_amqp D c) uri)), am_close_conn := count_close (am_close_conn (md_amqp D c))\<rparr>),
      md_text = md_text D\<rparr>"

definition counted_demo :: "((redis_memory \<times> broker) \<times> int) drivers" where
  "counted_demo =
     \<lparr>dv_storage = counted_storage (dv_storage demo_drivers), dv_messaging = counted_messaging (dv_messaging demo_drivers),
      dv_http = (\<lambda>_ _ _. Pair (Inl (ErrExternal ''down''))), dv_uuid = Pair ''1'', dv_do = (\<lambda>_ op w. (DoNil, snd (op w)))\<rparr>"

interpretation counted: connections counted_demo snd
  by unfold_locales
     (auto simp: counted_demo_def counted_storage_def counted_messaging_def counted_pool_def count_open_def count_close_def
        amqp_on_def on_part_def split: prod.splits if_splits)

lemma counted_connections [simp]:
  "rstore_new (sd_redis (dv_storage counted_demo) c) w = (None, (fst w, snd w + 1))"
  "rabbit_new (md_amqp (dv_messaging counted_demo) d) uri w = (None, (fst w, snd w + 1))"
  by (simp_all add: counted_demo_def counted_storage_def counted_messaging_def count_open_def demo_drivers_def
      redis_on_def amqp_on_def memory_redis_def memory_amqp_def rstore_new_def rabbit_new_def on_part_def)

definition counted_boot :: "((redis_memory \<times> broker) \<times> int) boot" where
  "counted_boot =
     \<lparr>bo_storage = \<lparr>sts_defaults = [], sts_opened = []\<rparr>, bo_messaging = \<lparr>mst_defaults = [], mst_opened = []\<rparr>,
      bo_world = ((mem_empty, broker_empty), 0)\<rparr>"

lemma counted_boots:
  "\<exists>b s'. bootstrap_new counted_demo demo_config counted_boot = Val (Inr b, s') \<and> bo_world s' = ((mem_empty, broker_empty), 2)"
  by (simp add: bootstrap_new_def boot_steps demo_config_def demo_picker_def demo_mpicker_def EngineRedis_def counted_boot_def)

end
