(* ===== verification/Logger.thy ===== *)
theory Logger
  imports Prelude
begin

text \<open>
  \<^verbatim>\<open>internal/pkg/logger/logger.go\<close>: the global logger, the loggers derived from it and kept in a context,
  and the functions that log. The logging library (zap) is outside the repository: the record \<open>zap\<close> holds
  the calls the code makes to it, on a logger of a type \<open>'l\<close> that may be nil.
\<close>

section \<open>Levels\<close>

datatype level = DebugLevel | InfoLevel | WarnLevel | ErrorLevel | PanicLevel | FatalLevel

fun severity :: "level \<Rightarrow> nat" where
  "severity DebugLevel = 0"
| "severity InfoLevel = 1"
| "severity WarnLevel = 2"
| "severity ErrorLevel = 3"
| "severity PanicLevel = 4"
| "severity FatalLevel = 5"

lemma severity_inject: "severity a = severity b \<longleftrightarrow> a = b"
  by (cases a; cases b) simp_all

instantiation level :: linorder
begin

definition less_eq_level :: "level \<Rightarrow> level \<Rightarrow> bool" where
  "a \<le> b \<longleftrightarrow> severity a \<le> severity b"

definition less_level :: "level \<Rightarrow> level \<Rightarrow> bool" where
  "a < b \<longleftrightarrow> severity a < severity b"

instance
  by standard (auto simp: less_eq_level_def less_level_def severity_inject)

end

section \<open>The package\<close>

type_synonym fields_kv = "(string \<times> string) list"

record ('l, 'w) zap =
  zp_parse :: "string \<Rightarrow> gerr + level"
  zp_new :: "string \<Rightarrow> level \<Rightarrow> 'l"
  zp_with :: "'l option \<Rightarrow> fields_kv \<Rightarrow> 'l outcome"
  zp_named :: "'l \<Rightarrow> string \<Rightarrow> 'l"
  zp_logw :: "'l \<Rightarrow> level \<Rightarrow> string \<Rightarrow> fields_kv \<Rightarrow> 'w \<Rightarrow> 'w outcome"
  zp_sync :: "'l \<Rightarrow> 'w \<Rightarrow> gerr option \<times> 'w"

text \<open>The variables of the package; \<open>lg_once\<close> is whether \<^verbatim>\<open>initBaseLoggerOnce\<close> has run.\<close>

record 'l logger_state =
  lg_base :: "'l option"
  lg_once :: bool

text \<open>What a context carries: the logger under \<^verbatim>\<open>ctxKey\<close>, and the identifiers of the current span.\<close>

record 'l log_ctx =
  cx_logger :: "'l option"
  cx_span :: "string option"
  cx_trace :: "string option"

definition logger_init :: "('l, 'w) zap \<Rightarrow> string \<Rightarrow> string \<Rightarrow> 'l logger_state \<Rightarrow> gerr option \<times> 'l logger_state" where
  "logger_init Z serviceName level st =
     (case zp_parse Z level of
        Inl err \<Rightarrow> (Some err, st)
      | Inr lvl \<Rightarrow>
          (None, if lg_once st then st else \<lparr>lg_base = Some (zp_new Z serviceName lvl), lg_once = True\<rparr>))"

definition span_fields :: "'l log_ctx \<Rightarrow> fields_kv" where
  "span_fields ctx =
     (case cx_span ctx of None \<Rightarrow> [] | Some i \<Rightarrow> [(''span_id'', i)]) @
     (case cx_trace ctx of None \<Rightarrow> [] | Some i \<Rightarrow> [(''trace_id'', i)])"

definition derive_from_ctx :: "('l, 'w) zap \<Rightarrow> 'l logger_state \<Rightarrow> 'l log_ctx \<Rightarrow> fields_kv \<Rightarrow> 'l outcome" where
  "derive_from_ctx Z st ctx keysAndValues =
     (let logger = (case cx_logger ctx of Some l \<Rightarrow> Some l | None \<Rightarrow> lg_base st)
      in zp_with Z logger (keysAndValues @ span_fields ctx))"

definition logger_derive ::
    "('l, 'w) zap \<Rightarrow> 'l logger_state \<Rightarrow> 'l log_ctx \<Rightarrow> string \<Rightarrow> fields_kv \<Rightarrow> 'l log_ctx outcome" where
  "logger_derive Z st ctx name keysAndValues =
     bind_outcome (derive_from_ctx Z st ctx keysAndValues) (\<lambda>derivedLogger.
       Val (ctx\<lparr>cx_logger := Some (zp_named Z derivedLogger name)\<rparr>))"

definition logger_sync :: "('l, 'w) zap \<Rightarrow> 'l logger_state \<Rightarrow> 'w \<Rightarrow> gerr option \<times> 'w" where
  "logger_sync Z st w = (case lg_base st of None \<Rightarrow> (None, w) | Some l \<Rightarrow> zp_sync Z l w)"

definition log_entry ::
    "('l, 'w) zap \<Rightarrow> 'l logger_state \<Rightarrow> 'l log_ctx \<Rightarrow> level \<Rightarrow> string \<Rightarrow> fields_kv \<Rightarrow> 'w \<Rightarrow> 'w outcome" where
  "log_entry Z st ctx lvl msg keysAndValues w =
     bind_outcome (case cx_logger ctx of Some l \<Rightarrow> Val l | None \<Rightarrow> derive_from_ctx Z st ctx [])
       (\<lambda>logger. zp_logw Z logger lvl msg keysAndValues w)"

definition log_debug where "log_debug Z st ctx = log_entry Z st ctx DebugLevel"
definition log_info where "log_info Z st ctx = log_entry Z st ctx InfoLevel"
definition log_warn where "log_warn Z st ctx = log_entry Z st ctx WarnLevel"
definition log_error where "log_error Z st ctx = log_entry Z st ctx ErrorLevel"
definition log_panic where "log_panic Z st ctx = log_entry Z st ctx PanicLevel"
definition log_fatal where "log_fatal Z st ctx = log_entry Z st ctx FatalLevel"

section \<open>Lemmas\<close>

text \<open>After the first success, \<^verbatim>\<open>Init\<close> has no effect.\<close>

lemma logger_init_once:
  assumes "logger_init Z s l st = (None, st')"
  shows "logger_init Z s' l' st' = (r, st'') \<Longrightarrow> st'' = st'"
  using assms by (auto simp: logger_init_def split: sum.splits)

lemma logger_init_ready:
  "logger_init Z s l \<lparr>lg_base = None, lg_once = False\<rparr> = (None, st') \<Longrightarrow> lg_base st' \<noteq> None"
  by (auto simp: logger_init_def split: sum.splits)

section \<open>A library that keeps the entries\<close>

text \<open>A logger with its name, fields and level; an entry is kept if its level is at least the logger's.\<close>

record mem_logger =
  ml_names :: "string list"
  ml_fields :: fields_kv
  ml_level :: level

record entry =
  lge_level :: level
  lge_msg :: string
  lge_fields :: fields_kv

definition mem_logw :: "mem_logger \<Rightarrow> level \<Rightarrow> string \<Rightarrow> fields_kv \<Rightarrow> entry list \<Rightarrow> entry list outcome" where
  "mem_logw l lvl msg kvs w =
     (let w' = (if ml_level l \<le> lvl then w @ [\<lparr>lge_level = lvl, lge_msg = msg, lge_fields = ml_fields l @ kvs\<rparr>] else w)
      in if lvl = PanicLevel then Panic else Val w')"

definition mem_zap :: "(mem_logger, entry list) zap" where
  "mem_zap =
     \<lparr>zp_parse = (\<lambda>s. if s = ''INFO'' then Inr InfoLevel else Inl (ErrExternal ''unrecognized level'')),
      zp_new = (\<lambda>name lvl. \<lparr>ml_names = [name], ml_fields = [], ml_level = lvl\<rparr>),
      zp_with = (\<lambda>l kvs. case l of None \<Rightarrow> Panic | Some l \<Rightarrow> Val (l\<lparr>ml_fields := ml_fields l @ kvs\<rparr>)),
      zp_named = (\<lambda>l n. l\<lparr>ml_names := ml_names l @ [n]\<rparr>),
      zp_logw = mem_logw, zp_sync = (\<lambda>l w. (None, w))\<rparr>"

lemma mem_logw_kept:
  "ml_level l \<le> lvl \<Longrightarrow> mem_logw l lvl msg kvs w = Val w' \<Longrightarrow>
   w' = w @ [\<lparr>lge_level = lvl, lge_msg = msg, lge_fields = ml_fields l @ kvs\<rparr>]"
  by (auto simp: mem_logw_def Let_def split: if_splits)

lemma mem_logw_dropped: "lvl < ml_level l \<Longrightarrow> lvl \<noteq> PanicLevel \<Longrightarrow> mem_logw l lvl msg kvs w = Val w"
  by (simp add: mem_logw_def)

text \<open>
  Entries logged through a context that already carries a derived logger do not get the identifiers of
  the span the context is in: those are read when a logger is derived, not when an entry is logged.
\<close>

lemma derived_ignores_span:
  assumes "cx_logger ctx = Some l"
  shows "log_entry Z st (ctx\<lparr>cx_span := s, cx_trace := t\<rparr>) lvl msg kvs w = zp_logw Z l lvl msg kvs w"
  using assms by (simp add: log_entry_def)

text \<open>Without one they do; before \<^verbatim>\<open>Init\<close> the library is given a nil logger.\<close>

lemma underived_has_span:
  assumes "cx_logger ctx = None"
  shows "log_entry Z st ctx lvl msg kvs w =
    bind_outcome (zp_with Z (lg_base st) (span_fields ctx)) (\<lambda>l. zp_logw Z l lvl msg kvs w)"
  using assms by (simp add: log_entry_def derive_from_ctx_def)

lemma mem_span_kept:
  "logger_init mem_zap ''svc'' ''INFO'' \<lparr>lg_base = None, lg_once = False\<rparr> = (None, st) \<Longrightarrow>
   log_warn mem_zap st \<lparr>cx_logger = None, cx_span = Some ''s'', cx_trace = Some ''t''\<rparr> ''m'' [] [] =
     Val [\<lparr>lge_level = WarnLevel, lge_msg = ''m'', lge_fields = [(''span_id'', ''s''), (''trace_id'', ''t'')]\<rparr>]"
  by (auto simp: logger_init_def mem_zap_def log_warn_def underived_has_span mem_logw_def span_fields_def less_eq_level_def)

end
