(* ===== verification/Telemetry.thy ===== *)
theory Telemetry
  imports Prelude "HOL-Library.Multiset"
begin

text \<open>
  \<^verbatim>\<open>internal/pkg/telemetry/telemetry.go\<close>: the meter and the tracer provider, their registration, and the function that
  stops them. OpenTelemetry is outside the repository: the record \<open>otel\<close> holds the calls the code makes to it, on
  resources, exporters and providers of its types.
\<close>

section \<open>The package\<close>

record ('r, 'e, 'x, 'm, 't, 'w) otel =
  ot_default :: 'r
  ot_attributes :: "string \<Rightarrow> (string \<times> string) list \<Rightarrow> 'r"
  ot_merge :: "'r \<Rightarrow> 'r \<Rightarrow> gerr + 'r"
  ot_schema_url :: string
  ot_metric_exporter :: "'w \<Rightarrow> (gerr + 'e) \<times> 'w"
  ot_meter_provider :: "'e \<Rightarrow> 'r \<Rightarrow> 'w \<Rightarrow> 'm \<times> 'w"
  ot_set_meter :: "'m \<Rightarrow> 'w \<Rightarrow> 'w"
  ot_meter_shutdown :: "'m \<Rightarrow> 'w \<Rightarrow> gerr option \<times> 'w"
  ot_trace_exporter :: "'w \<Rightarrow> (gerr + 'x) \<times> 'w"
  ot_tracer_provider :: "'x \<Rightarrow> 'r \<Rightarrow> 'w \<Rightarrow> 't \<times> 'w"
  ot_set_tracer :: "'t \<Rightarrow> 'w \<Rightarrow> 'w"
  ot_tracer_shutdown :: "'t \<Rightarrow> 'w \<Rightarrow> gerr option \<times> 'w"

definition init_meter_provider :: "('r, 'e, 'x, 'm, 't, 'w) otel \<Rightarrow> 'r \<Rightarrow> 'w \<Rightarrow> (gerr + 'm) \<times> 'w" where
  "init_meter_provider T res w =
     (case ot_metric_exporter T w of
        (Inl err, w1) \<Rightarrow> (Inl err, w1)
      | (Inr exporter, w1) \<Rightarrow>
          (case ot_meter_provider T exporter res w1 of (mp, w2) \<Rightarrow> (Inr mp, ot_set_meter T mp w2)))"

definition init_tracer_provider :: "('r, 'e, 'x, 'm, 't, 'w) otel \<Rightarrow> 'r \<Rightarrow> 'w \<Rightarrow> (gerr + 't) \<times> 'w" where
  "init_tracer_provider T res w =
     (case ot_trace_exporter T w of
        (Inl err, w1) \<Rightarrow> (Inl err, w1)
      | (Inr exporter, w1) \<Rightarrow>
          (case ot_tracer_provider T exporter res w1 of (tp, w2) \<Rightarrow> (Inr tp, ot_set_tracer T tp w2)))"

definition new_resource :: "('r, 'e, 'x, 'm, 't, 'w) otel \<Rightarrow> string \<Rightarrow> gerr + 'r" where
  "new_resource T serviceName =
     ot_merge T (ot_default T) (ot_attributes T (ot_schema_url T) [(''service.name'', serviceName)])"

text \<open>The function that \<^verbatim>\<open>Init\<close> returns: both providers are shut down, and the errors joined.\<close>

definition telemetry_shutdown :: "('r, 'e, 'x, 'm, 't, 'w) otel \<Rightarrow> 'm \<Rightarrow> 't \<Rightarrow> 'w \<Rightarrow> gerr option \<times> 'w" where
  "telemetry_shutdown T mp tp w =
     (case ot_meter_shutdown T mp w of
        (e1, w1) \<Rightarrow> (case ot_tracer_shutdown T tp w1 of (e2, w2) \<Rightarrow> (errors_join [e1, e2], w2)))"

definition telemetry_init ::
    "('r, 'e, 'x, 'm, 't, 'w) otel \<Rightarrow> string \<Rightarrow> 'w \<Rightarrow> (gerr + ('w \<Rightarrow> gerr option \<times> 'w)) \<times> 'w" where
  "telemetry_init T serviceName w =
     (case new_resource T serviceName of
        Inl err \<Rightarrow> (Inl err, w)
      | Inr res \<Rightarrow>
          (case init_meter_provider T res w of
             (Inl err, w1) \<Rightarrow> (Inl err, w1)
           | (Inr mp, w1) \<Rightarrow>
               (case init_tracer_provider T res w1 of
                  (Inl err, w2) \<Rightarrow> (Inl err, w2)
                | (Inr tp, w2) \<Rightarrow> (Inr (telemetry_shutdown T mp tp), w2))))"

section \<open>Providers that run\<close>

text \<open>
  The documented behaviour of the library, in terms of the providers that run: creating one starts it, shutting it down
  stops it, also when that returns an error; the other calls start and stop nothing.
\<close>

locale providers =
  fixes T :: "('r, 'e, 'x, 'm, 't, 'w) otel"
    and running :: "'w \<Rightarrow> ('m + 't) multiset"
  assumes meter_starts: "ot_meter_provider T e res w = (mp, w') \<Longrightarrow> running w' = add_mset (Inl mp) (running w)"
    and tracer_starts: "ot_tracer_provider T x res w = (tp, w') \<Longrightarrow> running w' = add_mset (Inr tp) (running w)"
    and meter_stops: "ot_meter_shutdown T mp w = (r, w') \<Longrightarrow> running w' = running w - {#Inl mp#}"
    and tracer_stops: "ot_tracer_shutdown T tp w = (r, w') \<Longrightarrow> running w' = running w - {#Inr tp#}"
    and exporters_silent: "ot_metric_exporter T w = (y, w') \<Longrightarrow> running w' = running w"
      "ot_trace_exporter T w = (z, w') \<Longrightarrow> running w' = running w"
    and setters_silent: "running (ot_set_meter T mp w) = running w" "running (ot_set_tracer T tp w) = running w"
begin

text \<open>What \<^verbatim>\<open>Init\<close> started the shutdown stops, whatever else has happened, and both are shut down even if one fails.\<close>

lemma init_shutdown:
  assumes "telemetry_init T name w = (Inr shutdown, w1)"
  obtains mp tp where "running w1 = running w + {#Inl mp, Inr tp#}"
    "\<And>v r v'. shutdown v = (r, v') \<Longrightarrow> running v' = running v - {#Inl mp, Inr tp#}"
proof -
  from assms obtain res mp tp w' where i: "init_meter_provider T res w = (Inr mp, w')"
    "init_tracer_provider T res w' = (Inr tp, w1)" "shutdown = telemetry_shutdown T mp tp"
    by (auto simp: telemetry_init_def split: sum.splits prod.splits)
  have "running w' = add_mset (Inl mp) (running w)"
    using i(1) by (auto simp: init_meter_provider_def setters_silent dest!: meter_starts exporters_silent split: sum.splits prod.splits)
  moreover have "running w1 = add_mset (Inr tp) (running w')"
    using i(2) by (auto simp: init_tracer_provider_def setters_silent dest!: tracer_starts exporters_silent split: sum.splits prod.splits)
  moreover have "running v' = running v - {#Inl mp, Inr tp#}" if s: "shutdown v = (r, v')" for v r v'
    using s by (auto simp: i(3) telemetry_shutdown_def add_mset_commute dest!: meter_stops tracer_stops split: prod.splits)
  ultimately show thesis by (intro that [of mp tp]) simp_all
qed

text \<open>An error leaves the meter provider running when it is the tracer's exporter that cannot be made.\<close>

lemma init_error:
  assumes "telemetry_init T name w = (Inl e, w1)"
  shows "running w1 = running w \<or> (\<exists>mp. running w1 = add_mset (Inl mp) (running w))"
  using assms
  by (auto simp: telemetry_init_def init_meter_provider_def init_tracer_provider_def setters_silent
      dest!: meter_starts exporters_silent split: sum.splits prod.splits)

end

section \<open>A library that keeps its providers\<close>

text \<open>Providers are numbered; making an exporter and a shutdown take the next of the errors to come.\<close>

record telemetry_memory =
  tm_running :: "(nat + nat) multiset"
  tm_next :: nat
  tm_global :: "(nat + nat) list"
  tm_errors :: "gerr option list"

definition memory_fate :: "telemetry_memory \<Rightarrow> gerr option \<times> telemetry_memory" where
  "memory_fate w = (case tm_errors w of [] \<Rightarrow> (None, w) | e # es \<Rightarrow> (e, w\<lparr>tm_errors := es\<rparr>))"

definition memory_start :: "(nat \<Rightarrow> nat + nat) \<Rightarrow> telemetry_memory \<Rightarrow> nat \<times> telemetry_memory" where
  "memory_start side w =
     (tm_next w, w\<lparr>tm_running := add_mset (side (tm_next w)) (tm_running w), tm_next := Suc (tm_next w)\<rparr>)"

definition memory_stop :: "nat + nat \<Rightarrow> telemetry_memory \<Rightarrow> gerr option \<times> telemetry_memory" where
  "memory_stop p w = memory_fate (w\<lparr>tm_running := tm_running w - {#p#}\<rparr>)"

definition memory_exporter :: "telemetry_memory \<Rightarrow> (gerr + unit) \<times> telemetry_memory" where
  "memory_exporter w = (case memory_fate w of (e, w') \<Rightarrow> (case e of None \<Rightarrow> Inr () | Some e \<Rightarrow> Inl e, w'))"

definition memory_otel :: "((string \<times> string) list, unit, unit, nat, nat, telemetry_memory) otel" where
  "memory_otel =
     \<lparr>ot_default = [], ot_attributes = (\<lambda>url attrs. attrs), ot_merge = (\<lambda>a b. Inr (a @ b)), ot_schema_url = '''',
      ot_metric_exporter = memory_exporter, ot_meter_provider = (\<lambda>e res. memory_start Inl),
      ot_set_meter = (\<lambda>mp w. w\<lparr>tm_global := tm_global w @ [Inl mp]\<rparr>), ot_meter_shutdown = (\<lambda>mp. memory_stop (Inl mp)),
      ot_trace_exporter = memory_exporter, ot_tracer_provider = (\<lambda>e res. memory_start Inr),
      ot_set_tracer = (\<lambda>tp w. w\<lparr>tm_global := tm_global w @ [Inr tp]\<rparr>), ot_tracer_shutdown = (\<lambda>tp. memory_stop (Inr tp))\<rparr>"

lemma memory_fate_running [simp]: "memory_fate w = (e, w') \<Longrightarrow> tm_running w' = tm_running w"
  by (auto simp: memory_fate_def split: list.splits)

interpretation mem_tel: providers memory_otel tm_running
  by unfold_locales
     (auto simp: memory_otel_def memory_start_def memory_stop_def memory_exporter_def split: prod.splits)

end
