(* ===== verification/Program.thy ===== *)
theory Program
  imports Commands Connections Logger Telemetry
begin

text \<open>
  \<^verbatim>\<open>cmd/cli/main.go\<close>: the program as the composition of the configuration, the telemetry, the logger, the services and
  the command line. The calls that \<^verbatim>\<open>main\<close> defers run in reverse order when it returns or panics, and do not when
  \<^verbatim>\<open>logger.Fatal\<close> exits the process. The library of the command line is an argument: given the commands, it
  runs the one named by the arguments of the process and returns its error.
\<close>

section \<open>main\<close>

datatype exit_kind = ExitZero | ExitFatal | ExitPanic

text \<open>
  \<^verbatim>\<open>logger.Fatal\<close>: the entry is written, then the process exits. The state outside at the end is
  \<open>Panic\<close> where a call in between has panicked and left it unknown.
\<close>

definition exit_fatal ::
    "('l, 'w) zap \<Rightarrow> 'l logger_state \<Rightarrow> (gerr \<Rightarrow> string) \<Rightarrow> string \<Rightarrow> gerr \<Rightarrow> 'w \<Rightarrow> exit_kind \<times> 'w outcome" where
  "exit_fatal Z lg text msg err w =
     (case log_fatal Z lg \<lparr>cx_logger = None, cx_span = None, cx_trace = None\<rparr> msg [(''error'', text err)] w of
        Panic \<Rightarrow> (ExitPanic, Panic)
      | Val w' \<Rightarrow> (ExitFatal, Val w'))"

definition main_program ::
    "(string \<times> string \<Rightarrow> field_error) \<Rightarrow> ('env \<Rightarrow> config \<times> gerr option) \<Rightarrow> ('r, 'e, 'x, 'm, 't, 'w) otel \<Rightarrow>
     ('l, 'w) zap \<Rightarrow> 'w drivers \<Rightarrow> (gerr \<Rightarrow> string) \<Rightarrow>
     ('w cli_command list \<Rightarrow> 'w \<Rightarrow> (gerr option \<times> 'w) outcome) \<Rightarrow> 'env \<Rightarrow> 'w boot \<Rightarrow> exit_kind \<times> 'w outcome" where
  "main_program print process T Z D text cli env s =
     (case config_load print process env of
        (c, Some err) \<Rightarrow> (ExitPanic, Val (bo_world s))
      | (c, None) \<Rightarrow>
         (case telemetry_init T (cf_serviceName c) (bo_world s) of
            (Inl err, w1) \<Rightarrow> (ExitPanic, Val w1)
          | (Inr shutdown, w1) \<Rightarrow>
             (case logger_init Z (cf_serviceName c) (cf_logLevel c) \<lparr>lg_base = None, lg_once = False\<rparr> of
                (Some err, lg) \<Rightarrow> (ExitPanic, Val (snd (shutdown w1)))
              | (None, lg) \<Rightarrow>
                 (case bootstrap_new D c (s\<lparr>bo_world := w1\<rparr>) of
                    Panic \<Rightarrow> (ExitPanic, Panic)
                  | Val (Inl err, s2) \<Rightarrow> exit_fatal Z lg text ''bootstrap initialization failed'' err (bo_world s2)
                  | Val (Inr b, s2) \<Rightarrow>
                     (case cli (bootstrap_cli b) (bo_world s2) of
                        Panic \<Rightarrow> (ExitPanic, Panic)
                      | Val (Some err, w3) \<Rightarrow> exit_fatal Z lg text ''cli execution failed'' err w3
                      | Val (None, w3) \<Rightarrow>
                         (ExitZero, Val (snd (shutdown (bo_world (snd (bootstrap_close (s2\<lparr>bo_world := w3\<rparr>))))))))))))"

section \<open>Lemmas\<close>

text \<open>How the program ends, when nothing in it panics but \<^verbatim>\<open>main\<close> itself.\<close>

lemma main_cases:
  assumes "main_program print process T Z D text cli env s = (e, Val w')"
  obtains (panics) "e = ExitPanic"
  | (no_services) err s2 c w1 where "e = ExitFatal" "config_load print process env = (c, None)"
      "w1 = snd (telemetry_init T (cf_serviceName c) (bo_world s))"
      "bootstrap_new D c (s\<lparr>bo_world := w1\<rparr>) = Val (Inl err, s2)"
  | (failed) c f w1 b s2 err w3 lg msg where "e = ExitFatal" "config_load print process env = (c, None)"
      "telemetry_init T (cf_serviceName c) (bo_world s) = (Inr f, w1)"
      "bootstrap_new D c (s\<lparr>bo_world := w1\<rparr>) = Val (Inr b, s2)" "cli (bootstrap_cli b) (bo_world s2) = Val (Some err, w3)"
      "exit_fatal Z lg text msg err w3 = (e, Val w')"
  | (returns) c f w1 b s2 w3 where "e = ExitZero" "config_load print process env = (c, None)"
      "telemetry_init T (cf_serviceName c) (bo_world s) = (Inr f, w1)"
      "bootstrap_new D c (s\<lparr>bo_world := w1\<rparr>) = Val (Inr b, s2)" "cli (bootstrap_cli b) (bo_world s2) = Val (None, w3)"
      "w' = snd (f (bo_world (snd (bootstrap_close (s2\<lparr>bo_world := w3\<rparr>)))))"
proof -
  obtain c ce where c: "config_load print process env = (c, ce)" by (metis surj_pair)
  obtain tr w1 where t: "telemetry_init T (cf_serviceName c) (bo_world s) = (tr, w1)" by (metis surj_pair)
  obtain le lg where l: "logger_init Z (cf_serviceName c) (cf_logLevel c) \<lparr>lg_base = None, lg_once = False\<rparr> = (le, lg)"
    by (metis surj_pair)
  have fatal: "e = ExitFatal \<or> e = ExitPanic" if "exit_fatal Z lg text msg err w = (e, x)" for msg err w x
    using that by (auto simp: exit_fatal_def split: outcome.splits)
  note run = assms [unfolded main_program_def c prod.case]
  show thesis
  proof (cases "e = ExitPanic")
    case False
    with run t l obtain f where f: "ce = None" "tr = Inr f" "le = None"
      by (cases ce; cases tr; cases le) auto
    show thesis
    proof (cases "bootstrap_new D c (s\<lparr>bo_world := w1\<rparr>)")
      case (Val y)
      obtain r s2 where y: "y = (r, s2)" by (cases y)
      show thesis
      proof (cases r)
        case (Inl err)
        with run c t l f Val y False fatal show thesis by (intro no_services [of c w1 err s2]) auto
      next
        case (Inr b)
        show thesis
        proof (cases "cli (bootstrap_cli b) (bo_world s2)")
          case (Val z)
          obtain q w3 where z: "z = (q, w3)" by (cases z)
          note all = run c t l f \<open>bootstrap_new D c _ = Val y\<close> y Inr Val z
          show thesis
          proof (cases q)
            case None
            with all show thesis by (intro returns [of c f w1 b s2 w3]) auto
          next
            case (Some err)
            with all False fatal show thesis by (intro failed [of c f w1 b s2 err w3 lg]) auto
          qed
        qed (use run c t l f Val y Inr False in auto)
      qed
    qed (use run c t l f False in auto)
  qed (rule panics)
qed

section \<open>Property\<close>

text \<open>
  C13. When \<^verbatim>\<open>main\<close> ends without an error, as many connections are open as when it began: every one that
  \<^verbatim>\<open>bootstrap.New\<close> opened has been closed once, also if closing others failed. When a command fails, \<^verbatim>\<open>logger.Fatal\<close>
  ends the process with at least one of them open. The libraries behave as documented: opening and closing
  a connection change their number by one, and the telemetry, the logger and the commands leave it alone.
\<close>

theorem main_closes_connections:
  assumes "connections D live"
    and "\<And>name w r w'. telemetry_init T name w = (r, w') \<Longrightarrow> live w' = live w"
    and "\<And>name w f w' v. telemetry_init T name w = (Inr f, w') \<Longrightarrow> live (snd (f v)) = live v"
    and "\<And>l lvl msg kvs w w'. zp_logw Z l lvl msg kvs w = Val w' \<Longrightarrow> live w' = live w"
    and "\<And>cmds w r w'. cli cmds w = Val (r, w') \<Longrightarrow> live w' = live w"
    and "mst_opened (bo_messaging s) = []"
    and "main_program print process T Z D text cli env s = (e, Val w')"
  shows "(e = ExitZero \<longrightarrow> live w' = live (bo_world s)) \<and>
    (e = ExitFatal \<longrightarrow>
       (\<exists>c err s2. config_load print process env = (c, None) \<and>
          bootstrap_new D c (s\<lparr>bo_world := snd (telemetry_init T (cf_serviceName c) (bo_world s))\<rparr>) = Val (Inl err, s2)) \<or>
       live (bo_world s) < live w')"
  using assms(7)
proof (cases rule: main_cases)
  case panics
  then show ?thesis by simp
next
  case (no_services err s2 c w1)
  then show ?thesis by auto
next
  case (failed c f w1 b s2 err w3 lg msg)
  have "live w1 = live (bo_world s)" using assms(2) failed(3) by blast
  moreover have "live w1 < live (bo_world s2)"
    using connections.new_opens [OF assms(1) failed(2,4)] assms(6) by simp
  moreover have "live w3 = live (bo_world s2)" using assms(5) failed(5) by blast
  moreover have "live w' = live w3"
    using failed(6) assms(4) by (auto simp: exit_fatal_def log_fatal_def log_entry_def bind_outcome_Val_iff split: outcome.splits)
  ultimately show ?thesis using failed(1) by simp
next
  case (returns c f w1 b s2 w3)
  have "live w1 = live (bo_world s)" using assms(2) returns(3) by blast
  moreover have "connections.tracked live (live w1) s2"
    using connections.new_tracked [OF assms(1) returns(4)] assms(6) by simp
  moreover have "live w3 = live (bo_world s2)" using assms(5) returns(5) by blast
  ultimately have "live (bo_world (snd (bootstrap_close (s2\<lparr>bo_world := w3\<rparr>)))) = live (bo_world s)"
    using connections.close_live [OF assms(1)] by metis
  then have "live w' = live (bo_world s)" using assms(3) [OF returns(3)] returns(6) by simp
  then show ?thesis using returns(1) by simp
qed

text \<open>Libraries that answer and do nothing, and a command line that was asked for nothing.\<close>

definition quiet_otel :: "(unit, unit, unit, unit, unit, 'w) otel" where
  "quiet_otel =
     \<lparr>ot_default = (), ot_attributes = (\<lambda>_ _. ()), ot_merge = (\<lambda>_ _. Inr ()), ot_schema_url = '''',
      ot_metric_exporter = Pair (Inr ()), ot_meter_provider = (\<lambda>_ _. Pair ()), ot_set_meter = (\<lambda>_ w. w),
      ot_meter_shutdown = (\<lambda>_. Pair None), ot_trace_exporter = Pair (Inr ()), ot_tracer_provider = (\<lambda>_ _. Pair ()),
      ot_set_tracer = (\<lambda>_ w. w), ot_tracer_shutdown = (\<lambda>_. Pair None)\<rparr>"

definition quiet_zap :: "(unit, 'w) zap" where
  "quiet_zap =
     \<lparr>zp_parse = (\<lambda>_. Inr InfoLevel), zp_new = (\<lambda>_ _. ()), zp_with = (\<lambda>l _. case l of None \<Rightarrow> Panic | Some l \<Rightarrow> Val l),
      zp_named = (\<lambda>l _. l), zp_logw = (\<lambda>_ _ _ _. Val), zp_sync = (\<lambda>_. Pair None)\<rparr>"

lemma quiet_telemetry:
  "telemetry_init quiet_otel name w = (Inr (\<lambda>v. (None, v)), w)"
  by (auto simp: telemetry_init_def new_resource_def init_meter_provider_def init_tracer_provider_def quiet_otel_def
      telemetry_shutdown_def errors_join_def map_filter_simps)

theorem main_closes_connections_witness:
  "\<exists>w' w''. main_program (\<lambda>_. undefined) (\<lambda>env :: unit. (demo_config, None)) quiet_otel quiet_zap counted_demo (\<lambda>_. ''error'')
       (\<lambda>cmds w. Val (None, w)) () counted_boot = (ExitZero, Val w') \<and> snd w' = 0 \<and>
     main_program (\<lambda>_. undefined) (\<lambda>env :: unit. (demo_config, None)) quiet_otel quiet_zap counted_demo (\<lambda>_. ''error'')
       (\<lambda>cmds w. Val (Some (ErrExternal ''no command''), w)) () counted_boot = (ExitFatal, Val w'') \<and> 0 < snd w''"
proof -
  let ?main = "\<lambda>r. main_program (\<lambda>_. undefined) (\<lambda>env :: unit. (demo_config, None)) quiet_otel quiet_zap counted_demo
      (\<lambda>_. ''error'') (\<lambda>cmds w. Val (r, w)) () counted_boot"
  have load: "config_load (\<lambda>_. undefined) (\<lambda>env :: unit. (demo_config, None)) () = (demo_config, None)"
    using check_config_ok [of demo_config] demo_config_wf by (simp add: config_load_def validate_config_def validate_def)
  obtain b s' where b: "bootstrap_new counted_demo demo_config counted_boot = Val (Inr b, s')"
    "bo_world s' = ((mem_empty, broker_empty), 2)" using counted_boots by blast
  note run = main_program_def load quiet_telemetry logger_init_def b exit_fatal_def log_fatal_def log_entry_def
    derive_from_ctx_def Let_def
  obtain w' where w': "?main None = (ExitZero, Val w')" by (simp add: run quiet_zap_def)
  obtain w'' where w'': "?main (Some (ErrExternal ''no command'')) = (ExitFatal, Val w'')"
    by (simp add: run quiet_zap_def)
  let ?load = "config_load (\<lambda>_. undefined) (\<lambda>env :: unit. (demo_config, None)) ()"
  let ?start = "\<lambda>c. counted_boot\<lparr>bo_world := snd (telemetry_init quiet_otel (cf_serviceName c) (bo_world counted_boot))\<rparr>"
  have closed: "(e = ExitZero \<longrightarrow> snd w = snd (bo_world counted_boot)) \<and>
      (e = ExitFatal \<longrightarrow> (\<exists>c err s2. ?load = (c, None) \<and> bootstrap_new counted_demo c (?start c) = Val (Inl err, s2)) \<or>
         snd (bo_world counted_boot) < snd w)" if m: "?main r = (e, Val w)" for r e w
    by (rule main_closes_connections [OF counted.connections_axioms _ _ _ _ _ m])
       (auto simp: quiet_telemetry quiet_zap_def counted_boot_def)
  have "snd w' = 0" using closed [OF w'] by (simp add: counted_boot_def)
  moreover have "?start demo_config = counted_boot" by (simp add: quiet_telemetry)
  then have "0 < snd w''" using closed [OF w''] load b(1) by (auto simp: counted_boot_def)
  ultimately show ?thesis using w' w'' by blast
qed

end
